(* ===== verification/Prelude.thy ===== *)
theory Prelude
  imports Main "HOL-Library.Word" "HOL-Library.Multiset"
begin

text \<open>
  Vocabulary shared by all components: the machine integers of the Rust
  sources, the checked and saturating operations of the standard library on
  them, results with an error value, alignment of addresses, and a few facts
  on lists and words that the component proofs use again and again.  Plain
  arithmetic is that of the release profile of the kernel and of userspace
  (neither enables overflow checks), that is, it wraps around.
\<close>

unbundle bit_operations_syntax

named_theorems result_simps \<open>elimination of the result type\<close>
named_theorems align_simps \<open>facts on aligned addresses\<close>

section \<open>Machine integers and results\<close>

type_synonym u8 = "8 word"
type_synonym u16 = "16 word"
type_synonym u32 = "32 word"
type_synonym u64 = "64 word"
type_synonym usize = "64 word"

type_synonym ('e, 'a) result = "'e + 'a"

abbreviation Err :: "'e \<Rightarrow> ('e, 'a) result" where "Err \<equiv> Inl"
abbreviation Ok :: "'a \<Rightarrow> ('e, 'a) result" where "Ok \<equiv> Inr"

definition checked_add :: "'a::len word \<Rightarrow> 'a word \<Rightarrow> 'a word option" where
  "checked_add a b = (if unat a + unat b < 2 ^ LENGTH('a) then Some (a + b) else None)"

definition saturating_add :: "'a::len word \<Rightarrow> 'a word \<Rightarrow> 'a word" where
  "saturating_add a b = (if unat a + unat b < 2 ^ LENGTH('a) then a + b else - 1)"

definition saturating_sub :: "'a::len word \<Rightarrow> 'a word \<Rightarrow> 'a word" where
  "saturating_sub a b = (if b \<le> a then a - b else 0)"

definition is_ok :: "('e, 'a) result \<Rightarrow> bool" where
  "is_ok r = (case r of Inl _ \<Rightarrow> False | Inr _ \<Rightarrow> True)"

lemma is_ok_simps [simp, result_simps]: "is_ok (Err e) = False" "is_ok (Ok a) = True"
  by (simp_all add: is_ok_def)

lemma map_sum_Ok [result_simps]: "map_sum f g r = Ok y \<longleftrightarrow> (\<exists>x. r = Ok x \<and> y = g x)"
  by (cases r) auto

lemma map_sum_Err [result_simps]: "map_sum f g r = Err y \<longleftrightarrow> (\<exists>x. r = Err x \<and> y = f x)"
  by (cases r) auto

lemma unat_lt2p [simp]: "unat (w :: 'a::len word) < 2 ^ LENGTH('a)"
  by (rule unsigned_less)

lemma unat_eq_unat_iff [simp]: "unat (a :: 'a::len word) = unat b \<longleftrightarrow> a = b"
  by (simp add: word_unat_eq_iff)

lemma unat_ucast_up:
  fixes w :: "'a::len word"
  assumes "LENGTH('a) \<le> LENGTH('b)"
  shows "unat (ucast w :: 'b::len word) = unat w"
proof -
  have "unat w < 2 ^ LENGTH('b)"
    using unat_lt2p[of w] assms by (meson less_le_trans one_le_numeral power_increasing)
  then show ?thesis by (simp add: unsigned_ucast_eq take_bit_nat_eq_self)
qed

lemma checked_add_SomeD:
  fixes a b c :: "'a::len word"
  assumes "checked_add a b = Some c"
  shows "unat c = unat a + unat b"
  using assms by (auto simp: checked_add_def unat_word_ariths split: if_splits)

lemma checked_add_eq_Some:
  fixes a b c :: "'a::len word"
  shows "checked_add a b = Some c \<longleftrightarrow> unat c = unat a + unat b"
proof
  assume "unat c = unat a + unat b"
  moreover from this have "c = a + b"
    by (metis unat_lt2p unat_add_lem word_unat_eq_iff)
  ultimately show "checked_add a b = Some c"
    by (metis checked_add_def unat_lt2p)
qed (rule checked_add_SomeD)

lemma unat_saturating_add:
  fixes a b :: "'a::len word"
  shows "unat (saturating_add a b) = min (unat a + unat b) (2 ^ LENGTH('a) - 1)"
  by (auto simp: saturating_add_def unat_word_ariths min_def unsigned_minus_1_eq_mask mask_eq_exp_minus_1)

text \<open>Evaluation of the range checks over binary integers.\<close>

lemma unat_add_in_range: "unat (a :: 'a::len word) + unat b < 2 ^ LENGTH('a) \<longleftrightarrow> uint a + uint b < 2 ^ LENGTH('a)"
  unfolding of_nat_less_iff[where 'a = int, symmetric] by (simp only: of_nat_add of_nat_power of_nat_numeral uint_nat)

lemma checked_add_code [code]: "checked_add a b = (if uint a + uint b < 2 ^ LENGTH('a) then Some (a + b) else None)"
  for a b :: "'a::len word"
  by (simp add: checked_add_def unat_add_in_range)

lemma saturating_add_code [code]: "saturating_add a b = (if uint a + uint b < 2 ^ LENGTH('a) then a + b else - 1)"
  for a b :: "'a::len word"
  by (simp add: saturating_add_def unat_add_in_range)

lemma unat_saturating_sub:
  fixes a b :: "'a::len word"
  shows "unat (saturating_sub a b) = unat a - unat b"
  by (auto simp: saturating_sub_def unat_sub word_le_nat_alt)

section \<open>Aligned addresses\<close>

definition aligned :: "nat \<Rightarrow> 'a::len word \<Rightarrow> bool" where
  "aligned k a = (2 ^ k dvd unat a)"

lemma aligned_mono: "aligned k a \<Longrightarrow> j \<le> k \<Longrightarrow> aligned j a"
  unfolding aligned_def by (rule dvd_trans[OF le_imp_power_dvd])

lemma bit_unat_iff: "bit (unat a) k \<longleftrightarrow> bit (a :: 'a::len word) k"
  by (simp add: bit_unsigned_iff)

lemma aligned_bit_clear:
  fixes a :: "'a::len word"
  assumes "aligned k a" "\<not> bit a k"
  shows "aligned (Suc k) a"
proof -
  from assms(1) obtain m where m: "unat a = 2 ^ k * m" by (auto simp: aligned_def)
  with assms(2) have "even m" by (auto simp: bit_unat_iff[symmetric] bit_iff_odd)
  with m show ?thesis by (auto simp: aligned_def)
qed

lemma unat_pow2: "k < LENGTH('a) \<Longrightarrow> unat (2 ^ k :: 'a::len word) = 2 ^ k"
proof -
  assume "k < LENGTH('a)"
  then have "(2 :: nat) ^ k < 2 ^ LENGTH('a)" by simp
  moreover have "(2 ^ k :: 'a word) = of_nat (2 ^ k)" by simp
  ultimately show ?thesis by (metis unat_of_nat mod_less)
qed

lemma aligned_add_half:
  fixes a :: "'a::len word"
  assumes "aligned (Suc k) a" "k < LENGTH('a)"
  shows "unat (a + 2 ^ k) = unat a + 2 ^ k" "aligned k (a + 2 ^ k)" "bit (a + 2 ^ k) k"
proof -
  from assms(1) obtain m where m: "unat a = 2 ^ Suc k * m" by (auto simp: aligned_def)
  have "2 ^ Suc k * m < 2 ^ Suc k * 2 ^ (LENGTH('a) - Suc k)"
    using m unat_lt2p[of a] assms(2) by (simp flip: power_Suc power_add)
  then have "Suc m \<le> 2 ^ (LENGTH('a) - Suc k)" by simp
  then have "2 ^ Suc k * Suc m \<le> 2 ^ Suc k * 2 ^ (LENGTH('a) - Suc k)"
    by (rule mult_le_mono2)
  also have "\<dots> = 2 ^ LENGTH('a)" using assms(2) by (simp flip: power_Suc power_add)
  finally have "2 * 2 ^ k + unat a \<le> 2 ^ LENGTH('a)" using m by simp
  moreover have "(0 :: nat) < 2 ^ k" by simp
  ultimately have "unat a + 2 ^ k < 2 ^ LENGTH('a)" by linarith
  then show u: "unat (a + 2 ^ k) = unat a + 2 ^ k"
    using assms(2) by (simp add: unat_word_ariths unat_pow2)
  then have u': "unat (a + 2 ^ k) = 2 ^ k * (2 * m + 1)" using m by (simp add: algebra_simps)
  then show "aligned k (a + 2 ^ k)" by (simp add: aligned_def)
  show "bit (a + 2 ^ k) k"
    unfolding bit_unat_iff[symmetric] bit_iff_odd u' by simp
qed

lemma aligned_sub_half:
  fixes a :: "'a::len word"
  assumes "aligned k a" "bit a k" "k < LENGTH('a)"
  shows "unat a = unat (a - 2 ^ k) + 2 ^ k" "aligned (Suc k) (a - 2 ^ k)"
proof -
  from assms(1) obtain m where m: "unat a = 2 ^ k * m" by (auto simp: aligned_def)
  with assms(2) have "odd m" by (auto simp: bit_unat_iff[symmetric] bit_iff_odd)
  then obtain l where l: "m = 2 * l + 1" by (auto elim: oddE)
  then have "2 ^ k \<le> a" using m assms(3) by (simp add: word_le_nat_alt unat_pow2)
  then show u: "unat a = unat (a - 2 ^ k) + 2 ^ k"
    using assms(3) by (simp add: unat_sub unat_pow2 word_le_nat_alt)
  then have "unat (a - 2 ^ k) = 2 ^ Suc k * l" using m l by (simp add: algebra_simps)
  then show "aligned (Suc k) (a - 2 ^ k)" by (simp add: aligned_def)
qed

lemma xor_pow2:
  fixes a :: "'a::len word"
  shows "a XOR 2 ^ k = (if bit a k then a - 2 ^ k else a + 2 ^ k)"
proof -
  have "a XOR 2 ^ k = flip_bit k a" unfolding flip_bit_eq_xor push_bit_eq_mult by (simp only: mult_1)
  then show ?thesis by (cases "bit a k") (simp_all only: flip_bit_eq_if set_bit_eq unset_bit_eq
      if_True if_False of_bool_eq mult_1 not_False_eq_True)
qed

text \<open>Rounding up to a power of two, as the allocators write it.\<close>

definition align_up :: "'a::len word \<Rightarrow> 'a word \<Rightarrow> 'a word" where
  "align_up a n = (a + n - 1) AND NOT (n - 1)"

lemma and_not_mask_sub: "(w :: 'a::len word) AND NOT (mask k) = w - take_bit k w"
proof -
  have "w AND NOT (mask k) = push_bit k (drop_bit k w)"
    by (rule bit_word_eqI) (auto simp: bit_simps)
  then show ?thesis using bits_ident[of k w] by (simp add: eq_diff_eq)
qed

lemma unat_and_not_mask: "unat ((w :: 'a::len word) AND NOT (mask k)) = unat w div 2 ^ k * 2 ^ k"
proof -
  have t: "unat (take_bit k w) = unat w mod 2 ^ k"
    unfolding unsigned_take_bit_eq unfolding take_bit_eq_mod ..
  then have "unat (w - take_bit k w) = unat w - unat (take_bit k w)"
    by (intro unat_sub) (simp only: word_le_nat_alt mod_less_eq_dividend)
  then show ?thesis by (simp only: and_not_mask_sub t minus_mod_eq_div_mult)
qed

lemma unat_align_up:
  fixes a :: "'a::len word"
  assumes "unat a + 2 ^ k \<le> 2 ^ LENGTH('a)" "k < LENGTH('a)"
  shows "unat (align_up a (2 ^ k)) = (unat a + 2 ^ k - 1) div 2 ^ k * 2 ^ k"
proof -
  have m: "(2 ^ k - 1 :: 'a word) = mask k" by (simp add: mask_eq_exp_minus_1)
  have p: "(1 :: nat) \<le> 2 ^ k" by simp
  then have "(1 :: 'a word) \<le> 2 ^ k" using assms(2) by (simp add: word_le_nat_alt unat_pow2)
  then have "unat (mask k :: 'a word) = 2 ^ k - 1"
    unfolding m[symmetric] using assms(2) by (simp add: unat_sub unat_pow2 word_le_nat_alt)
  moreover have "unat a + (2 ^ k - 1) < 2 ^ LENGTH('a)" using assms(1) p by linarith
  ultimately have "unat (a + mask k) = unat a + 2 ^ k - 1" using p by (simp add: unat_word_ariths)
  moreover have "a + 2 ^ k - 1 = a + mask k" by (simp add: m[symmetric])
  ultimately show ?thesis by (simp only: align_up_def m unat_and_not_mask)
qed

lemma align_up_bounds:
  fixes a :: "'a::len word"
  assumes "unat a + 2 ^ k \<le> 2 ^ LENGTH('a)" "k < LENGTH('a)"
  shows "aligned k (align_up a (2 ^ k))" "unat a \<le> unat (align_up a (2 ^ k))"
    "unat (align_up a (2 ^ k)) < unat a + 2 ^ k"
proof -
  let ?u = "unat a + 2 ^ k - 1"
  have "?u mod 2 ^ k < 2 ^ k" by simp
  moreover have "?u div 2 ^ k * 2 ^ k + ?u mod 2 ^ k = ?u" by (rule div_mult_mod_eq)
  moreover have "(1 :: nat) \<le> 2 ^ k" by simp
  ultimately show "unat a \<le> unat (align_up a (2 ^ k))" "unat (align_up a (2 ^ k)) < unat a + 2 ^ k"
    unfolding unat_align_up[OF assms] by linarith+
  show "aligned k (align_up a (2 ^ k))"
    unfolding aligned_def unat_align_up[OF assms] by simp
qed

lemma align_up_aligned:
  fixes a :: "'a::len word"
  assumes "unat a + 2 ^ k \<le> 2 ^ LENGTH('a)" "k < LENGTH('a)" "aligned k a"
  shows "align_up a (2 ^ k) = a"
proof -
  from assms(3) obtain m where "unat a = 2 ^ k * m" by (auto simp: aligned_def)
  moreover have "(2 ^ k * m + 2 ^ k - 1) div 2 ^ k = m" for m :: nat
  proof -
    have "2 ^ k * m + 2 ^ k - 1 = 2 ^ k * m + (2 ^ k - 1 :: nat)" by simp
    moreover have "(d * m + r) div d = m" if "r < d" for d r :: nat using that by simp
    ultimately show ?thesis by (metis diff_less zero_less_numeral zero_less_one zero_less_power)
  qed
  ultimately have "unat (align_up a (2 ^ k)) = unat a"
    unfolding unat_align_up[OF assms(1,2)] by simp
  then show ?thesis by simp
qed

section \<open>Lists\<close>

lemma set_list_update_subset [simp]: "set (xs[i := x]) \<subseteq> insert x (set xs)"
  by (rule set_update_subset_insert)

lemma nth_list_update_if:
  "i < length xs \<Longrightarrow> xs[i := x] ! j = (if i = j then x else xs ! j)"
  by (simp add: nth_list_update)

lemma sum_list_map_update:
  fixes f :: "'a \<Rightarrow> 'b::ab_group_add"
  assumes "i < length xs"
  shows "sum_list (map f (xs[i := x])) = sum_list (map f xs) - f (xs ! i) + f x"
  using assms
proof (induction xs arbitrary: i)
  case (Cons y ys)
  then show ?case by (cases i) (simp_all add: algebra_simps)
qed simp

lemma distinct_remove1_set: "distinct xs \<Longrightarrow> set (remove1 x xs) = set xs - {x}"
  by (rule set_remove1_eq)

end
