(* ===== verification/CapTypes.thy ===== *)
theory CapTypes
  imports Prelude
begin

text \<open>
  Capability types and the global capability table: kernel/src/capability/types.rs
  and the \<open>CapabilityTable\<close> of kernel/src/capability/mod.rs.  The operations that
  also touch the task table are in the theory \<open>Capability\<close>.
\<close>

section \<open>Data\<close>

type_synonym TaskId = u32
type_synonym CapabilityId = u32

datatype CapabilityType =
    All
  | IpcSend TaskId
  | IpcSendAny
  | IpcReceive
  | Memory u64 u32 bool
  | Resource u64
  | TaskControl
  | Scheduler
  | Hardware u32
  | Framebuffer u64 u64
  | DmaRegion u64 u64
  | MmioRegion u64 u64
  | IoPort u16 u16
  | DriverPrivilege
  | RawBlockIO

record CapabilityEntry =
  cap_type :: CapabilityType
  owner :: TaskId
  ref_count :: u32
  valid :: bool

datatype CapError =
    NotFound
  | Revoked
  | PermissionDenied
  | TableFull
  | InvalidId
  | NonTransferable

definition CapabilityEntry_new :: "CapabilityType \<Rightarrow> TaskId \<Rightarrow> CapabilityEntry" where
  "CapabilityEntry_new ct own = \<lparr> cap_type = ct, owner = own, ref_count = 1, valid = True \<rparr>"

section \<open>Which capability grants which access\<close>

text \<open>The common shape of the four 64-bit range arms of \<open>CapabilityType::grants\<close>.\<close>

definition range_covers :: "u64 \<Rightarrow> u64 \<Rightarrow> u64 \<Rightarrow> u64 \<Rightarrow> bool" where
  "range_covers b1 s1 b2 s2 =
     (case (checked_add b1 s1, checked_add b2 s2) of
        (Some he, Some re) \<Rightarrow> b1 \<le> b2 \<and> re \<le> he
      | _ \<Rightarrow> False)"

definition grants :: "CapabilityType \<Rightarrow> CapabilityType \<Rightarrow> bool" where
  "grants self required =
     (if self = All then True
      else if self = required then True
      else case (self, required) of
        (IpcSendAny, IpcSend _) \<Rightarrow> True
      | (Memory b1 n1 w1, Memory b2 n2 w2) \<Rightarrow>
          range_covers b1 (ucast n1) b2 (ucast n2) \<and> (w1 \<or> \<not> w2)
      | (Framebuffer b1 s1, Framebuffer b2 s2) \<Rightarrow> range_covers b1 s1 b2 s2
      | (DmaRegion b1 s1, DmaRegion b2 s2) \<Rightarrow> range_covers b1 s1 b2 s2
      | (MmioRegion b1 s1, MmioRegion b2 s2) \<Rightarrow> range_covers b1 s1 b2 s2
      | (IoPort b1 s1, IoPort b2 s2) \<Rightarrow>
          (let held_end = (ucast b1 :: u32) + ucast s1; req_end = (ucast b2 :: u32) + ucast s2
           in b1 \<le> b2 \<and> req_end \<le> held_end)
      | _ \<Rightarrow> False)"

section \<open>The capability table\<close>

definition MAX_CAPABILITIES :: nat where "MAX_CAPABILITIES = 4096"

record CapabilityTable =
  entries :: "CapabilityEntry option list"
  next_id :: u32

definition CapabilityTable_new :: CapabilityTable where
  "CapabilityTable_new = \<lparr> entries = replicate MAX_CAPABILITIES None, next_id = 1 \<rparr>"

text \<open>The loop \<open>for i in 1..MAX_CAPABILITIES\<close> of the taken-slot path: the first free index.\<close>

definition first_free :: "CapabilityEntry option list \<Rightarrow> nat option" where
  "first_free es = find (\<lambda>i. es ! i = None) [1..<MAX_CAPABILITIES]"

definition allocate ::
  "CapabilityTable \<Rightarrow> CapabilityEntry \<Rightarrow> CapabilityTable \<times> (CapError, CapabilityId) result" where
  "allocate t entry =
     (let i = next_id t; idx = unat i in
      if MAX_CAPABILITIES \<le> idx then (t, Err TableFull)
      else if entries t ! idx \<noteq> None then
        (case first_free (entries t) of
           Some j \<Rightarrow> (t\<lparr> entries := (entries t)[j := Some entry], next_id := of_nat j + 1 \<rparr>,
                      Ok (of_nat j))
         | None \<Rightarrow> (t, Err TableFull))
      else (t\<lparr> entries := (entries t)[idx := Some entry], next_id := i + 1 \<rparr>, Ok i))"

definition get :: "CapabilityTable \<Rightarrow> CapabilityId \<Rightarrow> CapabilityEntry option" where
  "get t cid = (if MAX_CAPABILITIES \<le> unat cid then None else entries t ! unat cid)"

definition table_revoke ::
  "CapabilityTable \<Rightarrow> CapabilityId \<Rightarrow> CapabilityTable \<times> (CapError, unit) result" where
  "table_revoke t cid =
     (if MAX_CAPABILITIES \<le> unat cid then (t, Err InvalidId)
      else case entries t ! unat cid of
        Some _ \<Rightarrow> (t\<lparr> entries := (entries t)[unat cid := None] \<rparr>, Ok ())
      | None \<Rightarrow> (t, Err NotFound))"

section \<open>Histories of table operations\<close>

datatype table_op = OpAllocate CapabilityEntry | OpRevoke CapabilityId

fun table_step :: "table_op \<Rightarrow> CapabilityTable \<Rightarrow> CapabilityTable" where
  "table_step (OpAllocate e) t = fst (allocate t e)"
| "table_step (OpRevoke i) t = fst (table_revoke t i)"

definition table_run :: "table_op list \<Rightarrow> CapabilityTable \<Rightarrow> CapabilityTable" where
  "table_run ops t = fold table_step ops t"

fun is_allocate :: "table_op \<Rightarrow> bool" where
  "is_allocate (OpAllocate _) = True"
| "is_allocate (OpRevoke _) = False"

definition table_ok :: "CapabilityTable \<Rightarrow> bool" where
  "table_ok t \<longleftrightarrow> length (entries t) = MAX_CAPABILITIES \<and> entries t ! 0 = None
     \<and> 1 \<le> unat (next_id t) \<and> unat (next_id t) \<le> MAX_CAPABILITIES
     \<and> (\<forall>i < MAX_CAPABILITIES. unat (next_id t) \<le> i \<longrightarrow> entries t ! i = None)"

text \<open>Identifiers the table has not issued yet.\<close>

definition unissued :: "CapabilityTable \<Rightarrow> CapabilityId \<Rightarrow> bool" where
  "unissued t i = (next_id t \<le> i)"

section \<open>Facts on single operations\<close>

lemma range_covers_iff:
  "range_covers b1 s1 b2 s2 \<longleftrightarrow>
     unat b1 + unat s1 < 2 ^ 64 \<and> unat b1 \<le> unat b2 \<and> unat b2 + unat s2 \<le> unat b1 + unat s1"
proof -
  have "checked_add b s = (if unat b + unat s < 2 ^ 64 then Some (b + s) else None)" for b s :: u64
    by (simp add: checked_add_def)
  moreover have "unat b + unat s < 2 ^ 64 \<Longrightarrow> unat (b + s) = unat b + unat s" for b s :: u64
    by (simp add: unat_word_ariths)
  ultimately show ?thesis
    by (auto simp: range_covers_def word_le_nat_alt)
qed

lemma io_port_covers_iff:
  "(ucast (b2::u16) :: u32) + ucast (s2::u16) \<le> ucast (b1::u16) + ucast (s1::u16)
     \<longleftrightarrow> unat b2 + unat s2 \<le> unat b1 + unat s1"
proof -
  have "unat ((ucast b :: u32) + ucast s) = unat b + unat s" for b s :: u16
  proof -
    have "unat b + unat s < 2 ^ 32"
      using unat_lt2p[of b] unat_lt2p[of s] by simp
    then show ?thesis by (simp add: unat_word_ariths unat_ucast_up)
  qed
  then show ?thesis by (simp add: word_le_nat_alt)
qed

lemma ucast_u32_u64 [simp]: "unat (ucast (n :: u32) :: u64) = unat n"
  by (simp add: unat_ucast_up)

lemma grants_refl [simp]: "grants a a"
  by (simp add: grants_def)

lemma table_ok_new: "table_ok CapabilityTable_new"
  by (simp add: table_ok_def CapabilityTable_new_def MAX_CAPABILITIES_def)

text \<open>In a well-formed table the slot at the cursor is free: the search of the
  taken-slot path never runs, and an allocation takes the cursor's slot or fails.\<close>

lemma allocate_cases:
  assumes "table_ok t"
  shows "allocate t e =
    (if unat (next_id t) = MAX_CAPABILITIES then (t, Err TableFull)
     else (t\<lparr> entries := (entries t)[unat (next_id t) := Some e], next_id := next_id t + 1 \<rparr>,
           Ok (next_id t)))"
  using assms by (auto simp: allocate_def table_ok_def Let_def)

lemma next_id_Suc:
  assumes "table_ok t" "unat (next_id t) \<noteq> MAX_CAPABILITIES"
  shows "unat (next_id t + 1) = Suc (unat (next_id t))"
  using assms by (simp add: table_ok_def MAX_CAPABILITIES_def unat_word_ariths)

lemma table_ok_allocate: "table_ok t \<Longrightarrow> table_ok (fst (allocate t e))"
  using next_id_Suc[of t]
  by (auto simp: allocate_cases) (auto simp: table_ok_def nth_list_update MAX_CAPABILITIES_def)

lemma table_ok_revoke: "table_ok t \<Longrightarrow> table_ok (fst (table_revoke t i))"
  by (auto simp: table_revoke_def table_ok_def nth_list_update split: option.splits)

section \<open>The table as a store of never-reused identifiers\<close>

text \<open>
  What the clients of the table rely on: allocation stores the entry under an
  identifier that was not issued before, revocation removes exactly one entry,
  and neither makes an issued identifier fresh again.
\<close>

locale identifier_store =
  fixes alloc :: "'s \<Rightarrow> 'e \<Rightarrow> 's \<times> ('x, 'i) result"
    and lookup :: "'s \<Rightarrow> 'i \<Rightarrow> 'e option"
    and drop :: "'s \<Rightarrow> 'i \<Rightarrow> 's \<times> ('x, unit) result"
    and ok :: "'s \<Rightarrow> bool"
    and fresh :: "'s \<Rightarrow> 'i \<Rightarrow> bool"
  assumes alloc_ok: "ok s \<Longrightarrow> ok (fst (alloc s e))"
    and alloc_err: "snd (alloc s e) = Err x \<Longrightarrow> fst (alloc s e) = s"
    and alloc_lookup:
      "ok s \<Longrightarrow> snd (alloc s e) = Ok i \<Longrightarrow>
       lookup (fst (alloc s e)) j = (if j = i then Some e else lookup s j)"
    and alloc_fresh: "ok s \<Longrightarrow> snd (alloc s e) = Ok i \<Longrightarrow> fresh s i"
    and alloc_issued: "ok s \<Longrightarrow> snd (alloc s e) = Ok i \<Longrightarrow> \<not> fresh (fst (alloc s e)) i"
    and fresh_alloc: "ok s \<Longrightarrow> fresh (fst (alloc s e)) j \<Longrightarrow> fresh s j"
    and fresh_unused: "ok s \<Longrightarrow> fresh s i \<Longrightarrow> lookup s i = None"
    and drop_ok: "ok s \<Longrightarrow> ok (fst (drop s i))"
    and drop_lookup: "ok s \<Longrightarrow> lookup (fst (drop s i)) j = (if j = i then None else lookup s j)"
    and drop_fresh: "fresh (fst (drop s i)) j = fresh s j"
begin

text \<open>Identifiers that were issued and whose entry is gone.\<close>

definition dead :: "'s \<Rightarrow> 'i \<Rightarrow> bool" where
  "dead s i \<longleftrightarrow> ok s \<and> \<not> fresh s i \<and> lookup s i = None"

lemma dead_alloc: "dead s i \<Longrightarrow> dead (fst (alloc s e)) i"
proof (cases "snd (alloc s e)")
  case (Inr j)
  assume "dead s i"
  then show ?thesis
    using Inr alloc_ok alloc_lookup alloc_fresh fresh_alloc unfolding dead_def by metis
qed (simp add: alloc_err)

lemma dead_drop: "dead s i \<Longrightarrow> dead (fst (drop s j)) i"
  unfolding dead_def by (simp add: drop_ok drop_lookup drop_fresh)

lemma drop_dead: "ok s \<Longrightarrow> \<not> fresh s i \<Longrightarrow> dead (fst (drop s i)) i"
  unfolding dead_def by (simp add: drop_ok drop_lookup drop_fresh)

lemma alloc_not_live: "ok s \<Longrightarrow> snd (alloc s e) = Ok i \<Longrightarrow> lookup s i = None"
  using alloc_fresh fresh_unused by blast

end

lemma get_allocate:
  assumes "table_ok t" "snd (allocate t e) = Ok i"
  shows "get (fst (allocate t e)) j = (if j = i then Some e else get t j)"
  using assms by (auto simp: allocate_cases get_def split: if_splits)
    (auto simp: table_ok_def nth_list_update MAX_CAPABILITIES_def)

lemma get_revoke:
  "length (entries t) = MAX_CAPABILITIES \<Longrightarrow>
   get (fst (table_revoke t i)) j = (if j = i then None else get t j)"
  by (auto simp: table_revoke_def get_def nth_list_update split: option.splits)

lemma get_unissued: "table_ok t \<Longrightarrow> unissued t i \<Longrightarrow> get t i = None"
  by (auto simp: table_ok_def unissued_def get_def word_le_nat_alt)

lemma next_id_allocate:
  "table_ok t \<Longrightarrow> unat (next_id (fst (allocate t e))) = min MAX_CAPABILITIES (Suc (unat (next_id t)))"
  using next_id_Suc[of t] by (auto simp: allocate_cases) (auto simp: table_ok_def)

lemma next_id_revoke [simp]: "next_id (fst (table_revoke t i)) = next_id t"
  by (simp add: table_revoke_def split: option.splits)

interpretation cap_store: identifier_store allocate get table_revoke table_ok unissued
proof unfold_locales
  fix t :: CapabilityTable and e x i j
  show "snd (allocate t e) = Err x \<Longrightarrow> fst (allocate t e) = t"
    by (auto simp: allocate_def Let_def split: if_splits option.splits)
  show "table_ok t \<Longrightarrow> snd (allocate t e) = Ok i \<Longrightarrow> unissued t i"
    by (auto simp: allocate_cases unissued_def split: if_splits)
  show "table_ok t \<Longrightarrow> snd (allocate t e) = Ok i \<Longrightarrow> \<not> unissued (fst (allocate t e)) i"
    using next_id_Suc[of t] by (auto simp: allocate_cases unissued_def word_le_nat_alt split: if_splits)
  show "table_ok t \<Longrightarrow> unissued (fst (allocate t e)) j \<Longrightarrow> unissued t j"
    using next_id_allocate[of t e] by (auto simp: unissued_def word_le_nat_alt min_def table_ok_def split: if_splits)
  show "table_ok t \<Longrightarrow> get (fst (table_revoke t i)) j = (if j = i then None else get t j)"
    by (rule get_revoke) (simp add: table_ok_def)
qed (simp_all add: table_ok_allocate get_allocate get_unissued table_ok_revoke unissued_def)

section \<open>Histories\<close>

lemma table_run_simps [simp]:
  "table_run [] t = t"
  "table_run (op # ops) t = table_run ops (table_step op t)"
  "table_run (xs @ ys) t = table_run ys (table_run xs t)"
  by (simp_all add: table_run_def)

lemma table_ok_step: "table_ok t \<Longrightarrow> table_ok (table_step op t)"
  by (cases op) (simp_all add: table_ok_allocate table_ok_revoke)

lemma table_ok_run: "table_ok t \<Longrightarrow> table_ok (table_run ops t)"
  by (induction ops arbitrary: t) (simp_all add: table_ok_step)

lemma dead_run: "cap_store.dead t i \<Longrightarrow> cap_store.dead (table_run ops t) i"
proof (induction ops arbitrary: t)
  case (Cons op ops)
  then show ?case
    by (cases op) (simp_all add: cap_store.dead_alloc cap_store.dead_drop)
qed simp

lemma next_id_run:
  "table_ok t \<Longrightarrow> unat (next_id (table_run ops t)) =
     min MAX_CAPABILITIES (unat (next_id t) + length (filter is_allocate ops))"
proof (induction ops arbitrary: t)
  case Nil
  then show ?case by (simp add: table_ok_def)
next
  case (Cons op ops)
  then show ?case
    using table_ok_step[of t op] by (cases op) (auto simp: next_id_allocate min_def)
qed

lemma grants_cases:
  "grants a b \<longleftrightarrow> a = All \<or> a = b \<or>
     (a = IpcSendAny \<and> (\<exists>t. b = IpcSend t)) \<or>
     (\<exists>b1 n1 w1 b2 n2 w2. a = Memory b1 n1 w1 \<and> b = Memory b2 n2 w2 \<and>
        range_covers b1 (ucast n1) b2 (ucast n2) \<and> (w1 \<or> \<not> w2)) \<or>
     (\<exists>b1 s1 b2 s2. a = Framebuffer b1 s1 \<and> b = Framebuffer b2 s2 \<and> range_covers b1 s1 b2 s2) \<or>
     (\<exists>b1 s1 b2 s2. a = DmaRegion b1 s1 \<and> b = DmaRegion b2 s2 \<and> range_covers b1 s1 b2 s2) \<or>
     (\<exists>b1 s1 b2 s2. a = MmioRegion b1 s1 \<and> b = MmioRegion b2 s2 \<and> range_covers b1 s1 b2 s2) \<or>
     (\<exists>b1 s1 b2 s2. a = IoPort b1 s1 \<and> b = IoPort b2 s2 \<and>
        unat b1 \<le> unat b2 \<and> unat b2 + unat s2 \<le> unat b1 + unat s1)"
  by (auto simp: grants_def io_port_covers_iff[unfolded word_le_nat_alt] word_le_nat_alt
      split: CapabilityType.splits)

section \<open>Properties\<close>





text \<open>The identifiers run out: after 4095 allocations every further allocation fails with
  \<open>TableFull\<close>, no matter how many of the capabilities were revoked in between.\<close>

theorem table_exhausted:
  assumes "4095 \<le> length (filter is_allocate ops)"
  shows "snd (allocate (table_run ops CapabilityTable_new) e) = Err TableFull"
proof -
  have "table_ok (table_run ops CapabilityTable_new)"
    by (simp add: table_ok_run table_ok_new)
  moreover have "unat (next_id (table_run ops CapabilityTable_new)) = MAX_CAPABILITIES"
    using assms by (simp add: next_id_run table_ok_new) (simp add: CapabilityTable_new_def MAX_CAPABILITIES_def)
  ultimately show ?thesis by (simp add: allocate_cases)
qed

theorem table_exhausted_witness:
  "snd (allocate (table_run (concat (replicate 4095
      [OpAllocate (CapabilityEntry_new IpcSendAny 3), OpRevoke 1])) CapabilityTable_new)
      (CapabilityEntry_new IpcSendAny 3)) = Err TableFull"
proof (rule table_exhausted)
  have "length (filter is_allocate (concat (replicate n [OpAllocate c, OpRevoke 1]))) = n" for n c
    by (induction n) simp_all
  then show "4095 \<le> length (filter is_allocate (concat (replicate 4095
      [OpAllocate (CapabilityEntry_new IpcSendAny 3), OpRevoke 1])))" by simp
qed

end
