(* ===== verification/OrdMap.thy ===== *)
theory OrdMap
  imports Prelude
begin

text \<open>
  The standard library's ordered map (BTreeMap), which holds the kernel's task
  table: the list of the entries in key order.
  Iteration visits the entries in that order.  The interface is the locale
  \<open>ordered_table\<close>; the components reason with its laws and do not look at the
  representation.
\<close>

section \<open>The interface of an ordered map\<close>

locale ordered_table =
  fixes lookup :: "'k::linorder \<Rightarrow> 'm \<Rightarrow> 'v option"
    and put :: "'k \<Rightarrow> 'v \<Rightarrow> 'm \<Rightarrow> 'm"
    and del :: "'k \<Rightarrow> 'm \<Rightarrow> 'm"
    and modify :: "'k \<Rightarrow> ('v \<Rightarrow> 'v) \<Rightarrow> 'm \<Rightarrow> 'm"
    and keys :: "'m \<Rightarrow> 'k list"
    and wf :: "'m \<Rightarrow> bool"
  assumes lookup_put: "lookup k (put k' v m) = (if k = k' then Some v else lookup k m)"
    and lookup_del: "lookup k (del k' m) = (if k = k' then None else lookup k m)"
    and lookup_modify:
      "lookup k (modify k' f m) = (if k = k' then map_option f (lookup k m) else lookup k m)"
    and keys_lookup: "k \<in> set (keys m) \<longleftrightarrow> lookup k m \<noteq> None"
    and keys_modify: "keys (modify k f m) = keys m"
    and wf_keys: "wf m \<Longrightarrow> sorted_wrt (<) (keys m)"
    and wf_put: "wf m \<Longrightarrow> wf (put k v m)"
    and wf_del: "wf m \<Longrightarrow> wf (del k m)"
    and wf_modify: "wf m \<Longrightarrow> wf (modify k f m)"
begin

lemma distinct_keys: "wf m \<Longrightarrow> distinct (keys m)"
  using wf_keys strict_sorted_iff by blast

lemma lookup_modify_modify:
  "lookup k (modify k' g (modify k' f m)) = lookup k (modify k' (g \<circ> f) m)"
  by (simp add: lookup_modify option.map_comp)

lemma lookup_put_del: "lookup k (del k' (put k' v m)) = lookup k (del k' m)"
  by (simp add: lookup_del lookup_put)

lemma keys_put: "set (keys (put k v m)) = insert k (set (keys m))"
  by (auto simp: keys_lookup lookup_put split: if_splits)

lemma keys_del: "set (keys (del k m)) = set (keys m) - {k}"
  by (auto simp: keys_lookup lookup_del split: if_splits)

end

section \<open>The representation\<close>

type_synonym ('k, 'v) btree_map = "('k \<times> 'v) list"

definition bt_get :: "'k \<Rightarrow> ('k, 'v) btree_map \<Rightarrow> 'v option" where
  "bt_get k m = map_of m k"

fun bt_insert :: "'k::linorder \<Rightarrow> 'v \<Rightarrow> ('k, 'v) btree_map \<Rightarrow> ('k, 'v) btree_map" where
  "bt_insert k v [] = [(k, v)]"
| "bt_insert k v ((k', v') # m) =
     (if k < k' then (k, v) # (k', v') # m
      else if k = k' then (k, v) # m
      else (k', v') # bt_insert k v m)"

definition bt_remove :: "'k \<Rightarrow> ('k, 'v) btree_map \<Rightarrow> ('k, 'v) btree_map" where
  "bt_remove k m = filter (\<lambda>e. fst e \<noteq> k) m"

definition bt_modify :: "'k \<Rightarrow> ('v \<Rightarrow> 'v) \<Rightarrow> ('k, 'v) btree_map \<Rightarrow> ('k, 'v) btree_map" where
  "bt_modify k f m = map (\<lambda>e. if fst e = k then (fst e, f (snd e)) else e) m"

definition bt_keys :: "('k, 'v) btree_map \<Rightarrow> 'k list" where
  "bt_keys m = map fst m"

definition bt_wf :: "('k::linorder, 'v) btree_map \<Rightarrow> bool" where
  "bt_wf m = sorted_wrt (<) (bt_keys m)"

lemma bt_get_insert [simp]:
  "bt_get k (bt_insert k' v m) = (if k = k' then Some v else bt_get k m)"
  by (induction k' v m rule: bt_insert.induct) (auto simp: bt_get_def)

lemma bt_get_remove [simp]:
  "bt_get k (bt_remove k' m) = (if k = k' then None else bt_get k m)"
  by (induction m) (auto simp: bt_get_def bt_remove_def)

lemma bt_get_modify [simp]:
  "bt_get k (bt_modify k' f m) = (if k = k' then map_option f (bt_get k m) else bt_get k m)"
  by (induction m) (auto simp: bt_get_def bt_modify_def)

lemma bt_get_Nil [simp]: "bt_get k [] = None"
  by (simp add: bt_get_def)

lemma bt_keys_get: "k \<in> set (bt_keys m) \<longleftrightarrow> bt_get k m \<noteq> None"
  by (auto simp: bt_get_def bt_keys_def map_of_eq_None_iff)

lemma bt_keys_modify [simp]: "bt_keys (bt_modify k f m) = bt_keys m"
  by (simp add: bt_keys_def bt_modify_def comp_def)

lemma bt_keys_insert: "set (bt_keys (bt_insert k v m)) = insert k (set (bt_keys m))"
  by (auto simp: bt_keys_get split: if_splits)

lemma bt_wf_insert: "bt_wf m \<Longrightarrow> bt_wf (bt_insert k v m)"
proof (induction k v m rule: bt_insert.induct)
  case (2 k v k' v' m)
  then show ?case
    using bt_keys_insert[of k v m]
    by (auto simp: bt_wf_def bt_keys_def)
qed (simp add: bt_wf_def bt_keys_def)

lemma bt_wf_remove: "bt_wf m \<Longrightarrow> bt_wf (bt_remove k m)"
  unfolding bt_wf_def bt_keys_def bt_remove_def sorted_wrt_map
  by (rule sorted_wrt_filter)

interpretation bt: ordered_table bt_get bt_insert bt_remove bt_modify bt_keys bt_wf
  by unfold_locales
    (auto simp: bt_wf_insert bt_wf_remove bt_keys_get, auto simp: bt_wf_def)

lemma bt_wf_Nil [simp]: "bt_wf []"
  by (simp add: bt_wf_def bt_keys_def)

lemma bt_entries_get: "bt_wf m \<Longrightarrow> (k, v) \<in> set m \<longleftrightarrow> bt_get k m = Some v"
  using bt.distinct_keys[of m] by (simp add: bt_get_def bt_keys_def map_of_eq_Some_iff)

end
