(* ===== verification/Interfaces.thy ===== *)
theory Interfaces
  imports Prelude
begin

text \<open>
  Interfaces between components: a bounded first-in first-out queue (the IPC
  message queue), an encoding with its decoder (caller tokens), and an allocator
  of memory blocks (the buddy allocator and the physical memory manager built on
  it).
\<close>

section \<open>Bounded queues\<close>

datatype 'a queue_op = Push 'a | Pop

text \<open>Running a list of operations, collecting the accepted and the delivered elements.\<close>

fun queue_run ::
  "('q \<Rightarrow> 'a \<Rightarrow> 'q \<times> bool) \<Rightarrow> ('q \<Rightarrow> 'q \<times> 'a option) \<Rightarrow> 'a queue_op list \<Rightarrow> 'q
    \<Rightarrow> 'q \<times> 'a list \<times> 'a list" where
  "queue_run push pop [] q = (q, [], [])"
| "queue_run push pop (Push x # ops) q =
     (let (q', accepted) = push q x; (q'', ins, outs) = queue_run push pop ops q'
      in (q'', (if accepted then x # ins else ins), outs))"
| "queue_run push pop (Pop # ops) q =
     (let (q', r) = pop q; (q'', ins, outs) = queue_run push pop ops q'
      in (q'', ins, (case r of Some x \<Rightarrow> x # outs | None \<Rightarrow> outs)))"

locale bounded_fifo =
  fixes push :: "'q \<Rightarrow> 'a \<Rightarrow> 'q \<times> bool"
    and pop :: "'q \<Rightarrow> 'q \<times> 'a option"
    and contents :: "'q \<Rightarrow> 'a list"
    and cap :: "'q \<Rightarrow> nat"
    and ok :: "'q \<Rightarrow> bool"
  assumes push_accepts: "ok q \<Longrightarrow> snd (push q x) \<longleftrightarrow> length (contents q) < cap q"
    and push_contents:
      "ok q \<Longrightarrow> contents (fst (push q x)) = (if snd (push q x) then contents q @ [x] else contents q)"
    and push_cap: "ok q \<Longrightarrow> cap (fst (push q x)) = cap q"
    and push_ok: "ok q \<Longrightarrow> ok (fst (push q x))"
    and pop_result: "ok q \<Longrightarrow> snd (pop q) = (case contents q of [] \<Rightarrow> None | x # _ \<Rightarrow> Some x)"
    and pop_contents: "ok q \<Longrightarrow> contents (fst (pop q)) = tl (contents q)"
    and pop_cap: "ok q \<Longrightarrow> cap (fst (pop q)) = cap q"
    and pop_ok: "ok q \<Longrightarrow> ok (fst (pop q))"
begin

lemma push_full_unchanged: "ok q \<Longrightarrow> cap q \<le> length (contents q) \<Longrightarrow> contents (fst (push q x)) = contents q"
  by (simp add: push_contents push_accepts)

lemma run_ok: "ok q \<Longrightarrow> ok (fst (queue_run push pop ops q))"
proof (induction ops arbitrary: q)
  case (Cons op ops)
  then show ?case
    by (cases op) (auto simp: Let_def split_beta push_ok pop_ok)
qed simp

lemma run_fifo:
  assumes "ok q" "queue_run push pop ops q = (q', ins, outs)"
  shows "contents q @ ins = outs @ contents q'"
  using assms
proof (induction ops arbitrary: q ins outs)
  case (Cons op ops)
  then show ?case
  proof (cases op)
    case (Push x)
    obtain q2 is0 os where r: "queue_run push pop ops (fst (push q x)) = (q2, is0, os)"
      by (metis prod.exhaust)
    with Cons.prems Push have "q2 = q'" "os = outs" "ins = (if snd (push q x) then x # is0 else is0)"
      by (auto simp: Let_def split_beta)
    with r Cons.IH[of "fst (push q x)"] Cons.prems(1) show ?thesis
      by (auto simp: push_contents push_ok split: if_splits)
  next
    case Pop
    obtain q2 is0 os where r: "queue_run push pop ops (fst (pop q)) = (q2, is0, os)"
      by (metis prod.exhaust)
    with Cons.prems Pop have "q2 = q'" "is0 = ins"
      "outs = (case snd (pop q) of Some x \<Rightarrow> x # os | None \<Rightarrow> os)"
      by (auto simp: Let_def split_beta split: option.splits)
    with r Cons.IH[of "fst (pop q)"] Cons.prems(1) show ?thesis
      by (auto simp: pop_contents pop_result pop_ok split: list.splits)
  qed
qed simp

lemma run_cap:
  assumes "ok q"
  shows "cap (fst (queue_run push pop ops q)) = cap q"
  using assms
proof (induction ops arbitrary: q)
  case (Cons op ops)
  then show ?case
    by (cases op) (auto simp: Let_def split_beta push_ok pop_ok push_cap pop_cap)
qed simp

lemma run_bounded:
  assumes "ok q" "length (contents q) \<le> cap q"
  shows "length (contents (fst (queue_run push pop ops q))) \<le> cap q"
  using assms
proof (induction ops arbitrary: q)
  case (Cons op ops)
  show ?case
  proof (cases op)
    case (Push x)
    then have "length (contents (fst (push q x))) \<le> cap (fst (push q x))"
      using Cons.prems by (auto simp: push_contents push_accepts push_cap)
    then show ?thesis
      using Cons.IH[of "fst (push q x)"] Cons.prems(1) Push
      by (simp add: Let_def split_beta push_ok push_cap)
  next
    case Pop
    then have "length (contents (fst (pop q))) \<le> cap (fst (pop q))"
      using Cons.prems by (auto simp: pop_contents pop_cap)
    then show ?thesis
      using Cons.IH[of "fst (pop q)"] Cons.prems(1) Pop
      by (simp add: Let_def split_beta pop_ok pop_cap)
  qed
qed simp

end

section \<open>Encodings\<close>

locale encoding =
  fixes enc :: "'a \<Rightarrow> 'b"
    and dec :: "'b \<Rightarrow> 'a option"
    and dom :: "'a \<Rightarrow> bool"
  assumes dec_enc: "dom x \<Longrightarrow> dec (enc x) = Some x"
begin

lemma enc_inj: "dom x \<Longrightarrow> dom y \<Longrightarrow> enc x = enc y \<longleftrightarrow> x = y"
  using dec_enc by (metis option.inject)

end

text \<open>Encodings whose every decodable value is the encoding of what it decodes to.\<close>

locale exact_encoding = encoding +
  assumes enc_dec: "dec y = Some x \<Longrightarrow> dom x \<and> enc x = y"
begin

lemma dec_eq_Some: "dec y = Some x \<longleftrightarrow> dom x \<and> enc x = y"
  using enc_dec dec_enc by blast

end

section \<open>Block allocators\<close>

text \<open>
  A client of an allocator obtains blocks and releases blocks it holds.  The
  relation pairs the allocator's states with the blocks the client holds; a
  request \<open>r\<close> is for a block of the order \<open>order_of r\<close>.
\<close>

inductive client_reach ::
  "('s \<Rightarrow> 'r \<Rightarrow> 's \<times> 'a option) \<Rightarrow> ('s \<Rightarrow> 'a \<Rightarrow> nat \<Rightarrow> 's option) \<Rightarrow> ('r \<Rightarrow> nat) \<Rightarrow> nat \<Rightarrow> 's
    \<Rightarrow> 's \<Rightarrow> ('a \<times> nat) list \<Rightarrow> bool"
  for alloc release order_of limit s0 where
  start: "client_reach alloc release order_of limit s0 s0 []"
| obtain_block:
    "client_reach alloc release order_of limit s0 s outs \<Longrightarrow> order_of r \<le> limit \<Longrightarrow>
     alloc s r = (s', Some a) \<Longrightarrow> client_reach alloc release order_of limit s0 s' ((a, order_of r) # outs)"
| obtain_fails:
    "client_reach alloc release order_of limit s0 s outs \<Longrightarrow> order_of r \<le> limit \<Longrightarrow>
     alloc s r = (s', None) \<Longrightarrow> client_reach alloc release order_of limit s0 s' outs"
| release_block:
    "client_reach alloc release order_of limit s0 s outs \<Longrightarrow> (a, n) \<in> set outs \<Longrightarrow>
     release s a n = Some s' \<Longrightarrow> client_reach alloc release order_of limit s0 s' (remove1 (a, n) outs)"

locale block_allocator =
  fixes alloc :: "'s \<Rightarrow> 'r \<Rightarrow> 's \<times> 'a option"
    and release :: "'s \<Rightarrow> 'a \<Rightarrow> nat \<Rightarrow> 's option"
    and order_of :: "'r \<Rightarrow> nat"
    and limit :: nat
    and avail :: "'s \<Rightarrow> nat set"
    and extent :: "'a \<Rightarrow> nat \<Rightarrow> nat set"
    and valid :: "'s \<Rightarrow> 'a \<Rightarrow> nat \<Rightarrow> bool"
    and ok :: "'s \<Rightarrow> bool"
  assumes alloc_some:
      "ok s \<Longrightarrow> order_of r \<le> limit \<Longrightarrow> alloc s r = (s', Some a) \<Longrightarrow>
       ok s' \<and> valid s' a (order_of r) \<and> extent a (order_of r) \<subseteq> avail s \<and>
       avail s' \<subseteq> avail s - extent a (order_of r)"
    and alloc_none:
      "ok s \<Longrightarrow> order_of r \<le> limit \<Longrightarrow> alloc s r = (s', None) \<Longrightarrow> ok s' \<and> avail s' = avail s"
    and alloc_valid: "ok s \<Longrightarrow> alloc s r = (s', x) \<Longrightarrow> valid s' = valid s"
    and release_held:
      "ok s \<Longrightarrow> valid s a n \<Longrightarrow> extent a n \<inter> avail s = {} \<Longrightarrow>
       \<exists>s'. release s a n = Some s' \<and> ok s' \<and> avail s' = avail s \<union> extent a n \<and> valid s' = valid s"
begin

text \<open>What holds of a client: its blocks are valid, disjoint from each other and from the
  available memory, and all of it is memory that was available at the start.\<close>

definition client_inv :: "'s \<Rightarrow> 's \<Rightarrow> ('a \<times> nat) list \<Rightarrow> bool" where
  "client_inv s0 s outs \<longleftrightarrow> ok s \<and> (\<forall>b \<in> set outs. valid s (fst b) (snd b)) \<and>
     (\<forall>b \<in> set outs. extent (fst b) (snd b) \<inter> avail s = {}) \<and>
     sorted_wrt (\<lambda>x y. extent (fst x) (snd x) \<inter> extent (fst y) (snd y) = {}) outs \<and>
     avail s \<union> (\<Union>b \<in> set outs. extent (fst b) (snd b)) \<subseteq> avail s0"

lemma inv_held:
  assumes "client_inv s0 s outs" "(a, n) \<in> set outs"
  shows "ok s" "valid s a n" "extent a n \<inter> avail s = {}"
proof -
  show "ok s" using assms(1) by (simp add: client_inv_def)
  have "valid s (fst (a, n)) (snd (a, n))" "extent (fst (a, n)) (snd (a, n)) \<inter> avail s = {}"
    using assms unfolding client_inv_def by blast+
  then show "valid s a n" "extent a n \<inter> avail s = {}" by simp_all
qed

lemma inv_origin:
  assumes "client_inv s0 s outs" "(a, n) \<in> set outs"
  shows "extent a n \<subseteq> avail s0"
proof -
  have "extent (fst (a, n)) (snd (a, n)) \<subseteq> avail s0" using assms unfolding client_inv_def by blast
  then show ?thesis by simp
qed

lemma inv_obtain:
  assumes "client_inv s0 s outs" "order_of r \<le> limit" "alloc s r = (s', Some a)"
  shows "client_inv s0 s' ((a, order_of r) # outs)"
proof -
  from assms(1) have i: "ok s" "\<forall>b \<in> set outs. valid s (fst b) (snd b)"
    "\<forall>b \<in> set outs. extent (fst b) (snd b) \<inter> avail s = {}"
    "sorted_wrt (\<lambda>x y. extent (fst x) (snd x) \<inter> extent (fst y) (snd y) = {}) outs"
    "avail s \<union> (\<Union>b \<in> set outs. extent (fst b) (snd b)) \<subseteq> avail s0"
    by (simp_all add: client_inv_def)
  note c = alloc_some[OF i(1) assms(2,3)] and v = alloc_valid[OF i(1) assms(3)]
  have "\<forall>b \<in> set outs. extent a (order_of r) \<inter> extent (fst b) (snd b) = {}" using c i(3) by blast
  moreover have "\<forall>b \<in> set outs. extent (fst b) (snd b) \<inter> avail s' = {}" using c i(3) by blast
  moreover have "extent a (order_of r) \<inter> avail s' = {}" using c by blast
  moreover have "avail s' \<union> (extent a (order_of r) \<union> (\<Union>b \<in> set outs. extent (fst b) (snd b))) \<subseteq> avail s0"
    using c i(5) by blast
  ultimately show ?thesis using c v i(2,4) by (simp add: client_inv_def)
qed

lemma inv_obtain_fails:
  assumes "client_inv s0 s outs" "order_of r \<le> limit" "alloc s r = (s', None)"
  shows "client_inv s0 s' outs"
proof -
  have "ok s" using assms(1) by (simp add: client_inv_def)
  note c = alloc_none[OF this assms(2,3)] and v = alloc_valid[OF this assms(3)]
  then show ?thesis using assms(1) unfolding client_inv_def by simp
qed

text \<open>The blocks other than a held one lie apart from it.\<close>

lemma sorted_wrt_remove1: "sorted_wrt P xs \<Longrightarrow> sorted_wrt P (remove1 x xs)"
  by (induction xs) (auto dest: set_remove1_subset[THEN subsetD])

lemma others_apart:
  assumes "sorted_wrt (\<lambda>x y. extent (fst x) (snd x) \<inter> extent (fst y) (snd y) = {}) outs" "x \<in> set outs"
  shows "\<forall>b \<in> set (remove1 x outs). extent (fst x) (snd x) \<inter> extent (fst b) (snd b) = {}"
  using assms
proof (induction outs)
  case (Cons y ys)
  then show ?case by (cases "y = x") (auto simp: Int_commute dest: set_remove1_subset[THEN subsetD])
qed simp

lemma inv_release:
  assumes "client_inv s0 s outs" "(a, n) \<in> set outs"
  shows "\<exists>s'. release s a n = Some s' \<and> client_inv s0 s' (remove1 (a, n) outs)"
proof -
  have i4: "sorted_wrt (\<lambda>x y. extent (fst x) (snd x) \<inter> extent (fst y) (snd y) = {}) outs"
    using assms(1) by (simp add: client_inv_def)
  note i = inv_held[OF assms] i4
  obtain s' where s': "release s a n = Some s'" "ok s'" "avail s' = avail s \<union> extent a n" "valid s' = valid s"
    using release_held[OF i(1-3)] by blast
  have "\<forall>b \<in> set (remove1 (a, n) outs). b \<in> set outs" using set_remove1_subset by fast
  moreover have "(\<Union>b \<in> set outs. extent (fst b) (snd b)) =
      extent a n \<union> (\<Union>b \<in> set (remove1 (a, n) outs). extent (fst b) (snd b))"
    using assms(2) calculation in_set_remove1[of _ "(a, n)" outs] by fastforce
  moreover have "sorted_wrt (\<lambda>x y. extent (fst x) (snd x) \<inter> extent (fst y) (snd y) = {}) (remove1 (a, n) outs)"
    using i(4) by (rule sorted_wrt_remove1)
  ultimately have "client_inv s0 s' (remove1 (a, n) outs)"
    using assms s' others_apart[OF i(4) assms(2)] unfolding client_inv_def by auto
  then show ?thesis using s'(1) by blast
qed

lemma reach_inv:
  assumes "client_reach alloc release order_of limit s0 s outs" "ok s0"
  shows "client_inv s0 s outs"
  using assms
proof (induction rule: client_reach.induct)
  case start
  then show ?case by (simp add: client_inv_def)
next
  case (release_block s outs a n s')
  then show ?case using inv_release by fastforce
qed (auto intro: inv_obtain inv_obtain_fails)

end

end
