(* ===== verification/IpcMessage.thy ===== *)
theory IpcMessage
  imports CapTypes Interfaces
begin

text \<open>
  IPC messages, caller tokens and per-task message queues:
  kernel/src/ipc/message.rs, kernel/src/ipc/queue.rs and the message counter of
  kernel/src/ipc/mod.rs.  The padding fields of a message are constant and are
  not represented; \<open>VecDeque\<close> is a list, front first.
\<close>

unbundle bit_operations_syntax

section \<open>Caller tokens\<close>

type_synonym CallerToken = u64

definition OBFUSCATION_KEY :: u64 where "OBFUSCATION_KEY = 0xDEADBEEFCAFEBABE"

definition CallerToken_new :: "TaskId \<Rightarrow> u64 \<Rightarrow> CallerToken" where
  "CallerToken_new sender_pid request_id =
     (let sender = ucast sender_pid AND 0xFFFF;
          req = request_id AND 0xFFFFFFFFFFFF;
          raw = sender OR push_bit 16 req
      in raw XOR OBFUSCATION_KEY)"

definition decode :: "CallerToken \<Rightarrow> (TaskId \<times> u64) option" where
  "decode token =
     (let raw = token XOR OBFUSCATION_KEY;
          sender_pid = (ucast (raw AND 0xFFFF) :: TaskId);
          request_id = drop_bit 16 raw AND 0xFFFFFFFFFFFF
      in if sender_pid = 0 then None else Some (sender_pid, request_id))"

section \<open>Messages\<close>

datatype IpcType = Request | Reply | Notification

record IpcMessage =
  sender :: TaskId
  msg_type :: IpcType
  payload :: "u64 list"
  cap :: "u32 option"
  shmem :: "u32 option"
  msg_id :: u64

definition new_request :: "u64 list \<Rightarrow> IpcMessage" where
  "new_request p = \<lparr> sender = 0, msg_type = Request, payload = p, cap = None, shmem = None, msg_id = 0 \<rparr>"

definition new_reply :: "u64 list \<Rightarrow> IpcMessage" where
  "new_reply p = \<lparr> sender = 0, msg_type = Reply, payload = p, cap = None, shmem = None, msg_id = 0 \<rparr>"

definition new_notification :: "u64 list \<Rightarrow> IpcMessage" where
  "new_notification p =
     \<lparr> sender = 0, msg_type = Notification, payload = p, cap = None, shmem = None, msg_id = 0 \<rparr>"

section \<open>Message queues\<close>

record MessageQueue =
  queue :: "IpcMessage list"
  max_size :: nat

definition DEFAULT_SIZE :: nat where "DEFAULT_SIZE = 64"

definition with_capacity :: "nat \<Rightarrow> MessageQueue" where
  "with_capacity capacity = \<lparr> queue = [], max_size = capacity \<rparr>"

definition MessageQueue_new :: MessageQueue where
  "MessageQueue_new = with_capacity DEFAULT_SIZE"

text \<open>\<open>init_at_ptr\<close> on zeroed memory: an empty deque, then \<open>max_size\<close> is written.\<close>

definition init_at_ptr :: "MessageQueue \<Rightarrow> MessageQueue" where
  "init_at_ptr zeroed = zeroed\<lparr> max_size := DEFAULT_SIZE \<rparr>"

definition is_full :: "MessageQueue \<Rightarrow> bool" where
  "is_full q = (max_size q \<le> length (queue q))"

definition push :: "MessageQueue \<Rightarrow> IpcMessage \<Rightarrow> MessageQueue \<times> bool" where
  "push q msg = (if is_full q then (q, False) else (q\<lparr> queue := queue q @ [msg] \<rparr>, True))"

definition pop :: "MessageQueue \<Rightarrow> MessageQueue \<times> IpcMessage option" where
  "pop q = (case queue q of [] \<Rightarrow> (q, None) | m # ms \<Rightarrow> (q\<lparr> queue := ms \<rparr>, Some m))"

definition is_empty :: "MessageQueue \<Rightarrow> bool" where "is_empty q = (queue q = [])"

definition len :: "MessageQueue \<Rightarrow> nat" where "len q = length (queue q)"

definition clear :: "MessageQueue \<Rightarrow> MessageQueue" where "clear q = q\<lparr> queue := [] \<rparr>"

definition peek :: "MessageQueue \<Rightarrow> IpcMessage option" where
  "peek q = (case queue q of [] \<Rightarrow> None | m # _ \<Rightarrow> Some m)"

text \<open>Division by a zero capacity panics: \<open>None\<close>.\<close>

definition utilization :: "MessageQueue \<Rightarrow> u8 option" where
  "utilization q = (if max_size q = 0 then None else Some (of_nat ((len q * 100) div max_size q)))"

section \<open>Facts on tokens\<close>

lemma u16_mask: "(0xFFFF :: 'a::len word) = mask 16"
  by (simp add: mask_eq_exp_minus_1)

lemma u48_mask: "(0xFFFFFFFFFFFF :: 'a::len word) = mask 48"
  by (simp add: mask_eq_exp_minus_1)

lemma decode_new:
  "decode (CallerToken_new pid req) =
     (if pid AND mask 16 = 0 then None else Some (pid AND mask 16, req AND mask 48))"
proof -
  let ?raw = "(ucast pid AND mask 16 :: u64) OR push_bit 16 (req AND mask 48)"
  have x: "CallerToken_new pid req XOR OBFUSCATION_KEY = ?raw"
    by (simp add: CallerToken_new_def Let_def u16_mask u48_mask xor.assoc)
  have lo: "(ucast (?raw AND mask 16) :: TaskId) = pid AND mask 16"
    by (rule bit_word_eqI) (auto simp: bit_simps)
  have hi: "drop_bit 16 ?raw AND mask 48 = req AND mask 48"
    by (rule bit_word_eqI) (auto simp: bit_simps)
  show ?thesis
    unfolding decode_def Let_def u16_mask u48_mask x lo hi ..
qed

lemma and_mask_id: "unat (w :: 'a::len word) < 2 ^ n \<Longrightarrow> w AND mask n = w"
  unfolding take_bit_eq_mask[symmetric] word_unat_eq_iff unsigned_take_bit_eq
  by (rule take_bit_nat_eq_self)

lemma new_decode:
  assumes "decode token = Some (pid, req)"
  shows "CallerToken_new pid req = token"
proof -
  let ?raw = "token XOR OBFUSCATION_KEY"
  from assms have "pid = ucast (?raw AND mask 16)" "req = drop_bit 16 ?raw AND mask 48"
    unfolding decode_def Let_def u16_mask u48_mask by (auto split: if_splits)
  then have "(ucast pid AND mask 16) OR push_bit 16 (req AND mask 48) = ?raw"
    by (intro bit_word_eqI) (auto simp: bit_simps)
  then show ?thesis
    by (simp add: CallerToken_new_def Let_def u16_mask u48_mask xor.assoc)
qed

lemma decode_range:
  assumes "decode token = Some (pid, req)"
  shows "0 < unat pid \<and> unat pid < 2 ^ 16 \<and> unat req < 2 ^ 48"
proof -
  define raw where "raw = token XOR OBFUSCATION_KEY"
  from assms have d: "pid = ucast (take_bit 16 raw)" "req = take_bit 48 (drop_bit 16 raw)" "pid \<noteq> 0"
    unfolding decode_def Let_def u16_mask u48_mask take_bit_eq_mask[symmetric] raw_def
    by (auto split: if_splits)
  have "unat pid = take_bit 16 (unat raw)" "unat req = take_bit 48 (unat (drop_bit 16 raw))"
    unfolding d by (simp_all add: unsigned_ucast_eq unsigned_take_bit_eq)
  moreover have "unat pid \<noteq> 0" using d(3) by (simp add: unat_eq_0)
  ultimately show ?thesis by (metis neq0_conv take_bit_nat_less_exp)
qed

definition token_fields_ok :: "TaskId \<times> u64 \<Rightarrow> bool" where
  "token_fields_ok f \<longleftrightarrow> 0 < unat (fst f) \<and> unat (fst f) < 2 ^ 16 \<and> unat (snd f) < 2 ^ 48"

interpretation token: exact_encoding "\<lambda>f. CallerToken_new (fst f) (snd f)" decode token_fields_ok
proof unfold_locales
  fix f :: "TaskId \<times> u64"
  assume "token_fields_ok f"
  then have "fst f AND mask 16 = fst f" "snd f AND mask 48 = snd f" "fst f \<noteq> 0"
    by (auto simp: token_fields_ok_def and_mask_id)
  then show "decode (CallerToken_new (fst f) (snd f)) = Some f"
    by (simp add: decode_new)
next
  fix y x
  assume "decode y = Some x"
  then show "token_fields_ok x \<and> CallerToken_new (fst x) (snd x) = y"
    by (cases x) (auto simp: token_fields_ok_def dest: decode_range new_decode)
qed

section \<open>Facts on queues\<close>

interpretation mq: bounded_fifo push pop queue max_size "\<lambda>_. True"
  by unfold_locales (auto simp: push_def pop_def is_full_def split: list.splits)

lemma max_size_push [simp]: "max_size (fst (push q m)) = max_size q"
  by (simp add: push_def)

lemma max_size_pop [simp]: "max_size (fst (pop q)) = max_size q"
  by (simp add: pop_def split: list.splits)

lemma queue_push: "queue (fst (push q m)) = (if is_full q then queue q else queue q @ [m])"
  by (simp add: push_def)

lemma snd_push [simp]: "snd (push q m) = (\<not> is_full q)"
  by (simp add: push_def)

section \<open>Properties\<close>

text \<open>C33: a token decodes to the task and the request it was made from exactly when both fit the
  token's fields (a non-zero 16-bit task, a 48-bit request); in that range distinct pairs have
  distinct tokens, and every raw value that decodes at all is the token of what it decodes to.\<close>

theorem token_roundtrip:
  "(decode (CallerToken_new pid req) = Some (pid, req)
      \<longleftrightarrow> 0 < unat pid \<and> unat pid < 2 ^ 16 \<and> unat req < 2 ^ 48)
   \<and> (decode raw = Some (p, r) \<longleftrightarrow>
        0 < unat p \<and> unat p < 2 ^ 16 \<and> unat r < 2 ^ 48 \<and> CallerToken_new p r = raw)"
  using token.dec_eq_Some[of "CallerToken_new pid req" "(pid, req)"] token.dec_eq_Some[of raw "(p, r)"]
  by (auto simp: token_fields_ok_def)

text \<open>C32: a task's message queue is a bounded first-in first-out queue: over any sequence of pushes
  and pops the messages delivered, followed by those still queued, are those queued at the start
  followed by those accepted, in order; and it never holds more than its capacity.\<close>

theorem message_queue_fifo:
  assumes "queue_run push pop ops q = (q', ins, outs)" "length (queue q) \<le> max_size q"
  shows "queue q @ ins = outs @ queue q' \<and> length (queue q') \<le> max_size q \<and> max_size q' = max_size q"
  using mq.run_fifo[OF _ assms(1)] mq.run_bounded[where q = q and ops = ops]
    mq.run_cap[where q = q and ops = ops] assms by auto

theorem message_queue_fifo_witness:
  "queue (with_capacity 1) @ [new_request [1, 2, 3, 4]] = [new_request [1, 2, 3, 4]] @ queue (with_capacity 1)
   \<and> length (queue (with_capacity 1)) \<le> max_size (with_capacity 1)
   \<and> max_size (with_capacity 1) = max_size (with_capacity 1)"
  by (rule message_queue_fifo[of "[Push (new_request [1, 2, 3, 4]), Push (new_reply [5, 6, 7, 8]), Pop]"])
    (simp_all add: with_capacity_def push_def pop_def is_full_def)

end
