(* ===== verification/Buddy.thy ===== *)
theory Buddy
  imports Interfaces
begin

text \<open>
  The buddy allocator of kernel/src/memory/physical.rs.  A free list is the list
  of its block pointers, head first; a pointer is the block's virtual address in
  the higher-half direct map, whose offset is the argument \<open>off\<close>.  A panic of
  the code is the value \<open>None\<close>.
\<close>

unbundle bit_operations_syntax

section \<open>State and operations\<close>

definition PAGE_SIZE :: usize where "PAGE_SIZE = 4096"

definition MAX_ORDER :: nat where "MAX_ORDER = 10"

record BuddyAllocator =
  free_lists :: "usize list list"
  base_addr :: usize
  total_pages :: usize
  free_pages_count :: usize

definition BuddyAllocator_new :: BuddyAllocator where
  "BuddyAllocator_new =
     \<lparr> free_lists = replicate (MAX_ORDER + 1) [], base_addr = 0, total_pages = 0, free_pages_count = 0 \<rparr>"

definition phys_to_virt :: "usize \<Rightarrow> usize \<Rightarrow> usize" where
  "phys_to_virt off phys = off + phys"

definition virt_to_phys :: "usize \<Rightarrow> usize \<Rightarrow> usize option" where
  "virt_to_phys off virt = (if off \<le> virt then Some (virt - off) else None)"

definition free_block_unchecked :: "usize \<Rightarrow> BuddyAllocator \<Rightarrow> usize \<Rightarrow> nat \<Rightarrow> BuddyAllocator" where
  "free_block_unchecked off st addr order =
     (let virt_addr = phys_to_virt off addr in
      if virt_addr < 0xFFFF800000000000 then st
      else st\<lparr> free_lists := (free_lists st)[order := virt_addr # free_lists st ! order] \<rparr>)"

function buddy_alloc_pages :: "usize \<Rightarrow> BuddyAllocator \<Rightarrow> nat \<Rightarrow> BuddyAllocator \<times> usize option" where
  "buddy_alloc_pages off st order =
     (if MAX_ORDER < order then (st, None)
      else case free_lists st ! order of
        block # next_blocks \<Rightarrow>
          (st\<lparr> free_lists := (free_lists st)[order := next_blocks],
               free_pages_count := free_pages_count st - 2 ^ order \<rparr>,
           virt_to_phys off block)
      | [] \<Rightarrow>
          if order < MAX_ORDER then
            (case buddy_alloc_pages off st (order + 1) of
               (st', Some larger_block_addr) \<Rightarrow>
                 (let buddy_addr = larger_block_addr + 2 ^ order * PAGE_SIZE;
                      st'' = free_block_unchecked off st' buddy_addr order
                  in (st''\<lparr> free_pages_count := free_pages_count st'' + 2 ^ order \<rparr>,
                      Some larger_block_addr))
             | (st', None) \<Rightarrow> (st', None))
          else (st, None))"
  by pat_completeness auto
termination
  by (relation "measure (\<lambda>(off, st, order). MAX_ORDER + 1 - order)") auto

declare buddy_alloc_pages.simps [simp del]

definition buddy_address :: "usize \<Rightarrow> nat \<Rightarrow> usize" where
  "buddy_address addr order = addr XOR (PAGE_SIZE * 2 ^ order)"

text \<open>The two walks along a free list, with the count of hops that stops them at a million.\<close>

fun free_walk :: "nat \<Rightarrow> usize list \<Rightarrow> usize \<Rightarrow> bool" where
  "free_walk hops [] v = False"
| "free_walk hops (b # bs) v =
     (if 1000000 \<le> hops then False else if b = v then True else free_walk (hops + 1) bs v)"

definition is_block_free :: "usize \<Rightarrow> BuddyAllocator \<Rightarrow> usize \<Rightarrow> nat \<Rightarrow> bool" where
  "is_block_free off st addr order = free_walk 0 (free_lists st ! order) (phys_to_virt off addr)"

fun unlink_walk :: "nat \<Rightarrow> usize list \<Rightarrow> usize \<Rightarrow> usize list option" where
  "unlink_walk hops [] v = None"
| "unlink_walk hops (b # bs) v =
     (if 1000000 \<le> hops then Some (b # bs)
      else if b = v then Some bs
      else map_option (\<lambda>r. b # r) (unlink_walk (hops + 1) bs v))"

definition remove_from_free_list :: "usize \<Rightarrow> BuddyAllocator \<Rightarrow> usize \<Rightarrow> nat \<Rightarrow> BuddyAllocator option" where
  "remove_from_free_list off st addr order =
     map_option (\<lambda>l. st\<lparr> free_lists := (free_lists st)[order := l] \<rparr>)
       (unlink_walk 0 (free_lists st ! order) (phys_to_virt off addr))"

function buddy_free_pages :: "usize \<Rightarrow> BuddyAllocator \<Rightarrow> usize \<Rightarrow> nat \<Rightarrow> BuddyAllocator option" where
  "buddy_free_pages off st addr order =
     (if MAX_ORDER < order then None
      else if is_block_free off st addr order then None
      else if order < MAX_ORDER \<and> is_block_free off st (buddy_address addr order) order then
        (case remove_from_free_list off st (buddy_address addr order) order of
           None \<Rightarrow> None
         | Some st' \<Rightarrow>
             buddy_free_pages off
               (st'\<lparr> free_pages_count := free_pages_count st' - 2 ^ order \<rparr>)
               (min addr (buddy_address addr order)) (order + 1))
      else
        (let st' = free_block_unchecked off st addr order
         in Some (st'\<lparr> free_pages_count := free_pages_count st' + 2 ^ order \<rparr>)))"
  by pat_completeness auto
termination
  by (relation "measure (\<lambda>(off, st, addr, order). MAX_ORDER + 1 - order)") auto

declare buddy_free_pages.simps [simp del]

definition trailing_zeros :: "usize \<Rightarrow> nat" where
  "trailing_zeros w = (case find (\<lambda>i. bit w i) [0..<64] of Some i \<Rightarrow> i | None \<Rightarrow> 64)"

lemma trailing_zeros_dvd: "w \<noteq> 0 \<Longrightarrow> aligned (trailing_zeros w) w \<and> trailing_zeros w < 64"
proof -
  assume "w \<noteq> 0"
  then obtain n where n: "bit w n" "n < 64"
    using bit_word_eqI[of w 0] by auto
  let ?P = "\<lambda>i. bit w i"
  obtain i where i: "find ?P [0..<64] = Some i"
    using n by (cases "find ?P [0..<64]") (auto simp: find_None_iff)
  then have "i < 64" "\<forall>j<i. \<not> bit w j"
    unfolding find_Some_iff by auto
  moreover have "(\<forall>j<i. \<not> bit w j) \<Longrightarrow> aligned i w" for i
  proof (induction i)
    case (Suc i)
    then show ?case using aligned_bit_clear[of i w] by simp
  qed (simp add: aligned_def)
  ultimately show ?thesis using i by (simp add: trailing_zeros_def)
qed

text \<open>The order of the block that \<open>add_region\<close> cuts next from a region.\<close>

definition region_order :: "usize \<Rightarrow> usize \<Rightarrow> nat" where
  "region_order base num_pages =
     (let order = min (trailing_zeros num_pages) MAX_ORDER;
          aligned_order = min (trailing_zeros (base div PAGE_SIZE)) order
      in min aligned_order order)"

lemma region_order_le:
  assumes "num_pages \<noteq> 0"
  shows "region_order base num_pages \<le> MAX_ORDER" "(2 :: nat) ^ region_order base num_pages \<le> unat num_pages"
proof -
  let ?o = "region_order base num_pages"
  have "?o \<le> trailing_zeros num_pages" by (simp add: region_order_def Let_def)
  then have "aligned ?o num_pages" using trailing_zeros_dvd[OF assms] aligned_mono by blast
  moreover have "0 < unat num_pages" using assms by (simp add: unat_gt_0)
  ultimately show "(2 :: nat) ^ ?o \<le> unat num_pages" by (auto simp: aligned_def dvd_imp_le)
  show "?o \<le> MAX_ORDER" by (simp add: region_order_def Let_def)
qed

lemma region_order_decreases:
  assumes "num_pages \<noteq> 0"
  shows "unat (num_pages - 2 ^ region_order base num_pages :: usize) = unat num_pages - 2 ^ region_order base num_pages"
proof -
  have "region_order base num_pages < LENGTH(64)"
    using region_order_le(1)[OF assms, of base] by (simp add: MAX_ORDER_def)
  note p = unat_pow2[OF this]
  then show ?thesis using region_order_le(2)[OF assms, of base] by (subst unat_sub) (simp_all add: word_le_nat_alt)
qed

function buddy_add_region :: "usize \<Rightarrow> BuddyAllocator \<Rightarrow> usize \<Rightarrow> usize \<Rightarrow> BuddyAllocator" where
  "buddy_add_region off st base num_pages =
     (if num_pages = 0 then st
      else
        (let actual_order = region_order base num_pages;
             actual_pages = 2 ^ actual_order;
             st' = free_block_unchecked off st base actual_order
         in buddy_add_region off
              (st'\<lparr> total_pages := total_pages st' + actual_pages,
                   free_pages_count := free_pages_count st' + actual_pages \<rparr>)
              (base + actual_pages * PAGE_SIZE) (num_pages - actual_pages)))"
  by pat_completeness auto
termination
  by (relation "measure (\<lambda>(off, st, base, num_pages). unat num_pages)")
    (auto simp: region_order_decreases unat_gt_0)

declare buddy_add_region.simps [simp del]

record MemoryStats =
  total_bytes :: usize
  free_bytes :: usize
  used_bytes :: usize

definition buddy_stats :: "BuddyAllocator \<Rightarrow> MemoryStats" where
  "buddy_stats st =
     \<lparr> total_bytes = total_pages st * PAGE_SIZE,
       free_bytes = free_pages_count st * PAGE_SIZE,
       used_bytes = (total_pages st - free_pages_count st) * PAGE_SIZE \<rparr>"

section \<open>The memory that is free\<close>

definition block_range :: "usize \<Rightarrow> nat \<Rightarrow> nat set" where
  "block_range a order = {unat a ..< unat a + 2 ^ (order + 12)}"

definition block_ok :: "usize \<Rightarrow> usize \<Rightarrow> nat \<Rightarrow> bool" where
  "block_ok off a order \<longleftrightarrow>
     order \<le> MAX_ORDER \<and> aligned (order + 12) a \<and> unat off + unat a + 2 ^ (order + 12) \<le> 2 ^ 64"

definition hhdm_ok :: "usize \<Rightarrow> bool" where
  "hhdm_ok off = (0xFFFF800000000000 \<le> off)"

definition free_blocks :: "usize \<Rightarrow> BuddyAllocator \<Rightarrow> (usize \<times> nat) set" where
  "free_blocks off st = {(a, order). order \<le> MAX_ORDER \<and> phys_to_virt off a \<in> set (free_lists st ! order)}"

definition free_memory :: "usize \<Rightarrow> BuddyAllocator \<Rightarrow> nat set" where
  "free_memory off st = (\<Union>b \<in> free_blocks off st. block_range (fst b) (snd b))"

definition disjoint_blocks :: "(usize \<times> nat) set \<Rightarrow> bool" where
  "disjoint_blocks B \<longleftrightarrow>
     (\<forall>x \<in> B. \<forall>y \<in> B. x \<noteq> y \<longrightarrow> block_range (fst x) (snd x) \<inter> block_range (fst y) (snd y) = {})"

definition buddy_ok :: "usize \<Rightarrow> BuddyAllocator \<Rightarrow> bool" where
  "buddy_ok off st \<longleftrightarrow> length (free_lists st) = MAX_ORDER + 1
     \<and> (\<forall>order \<le> MAX_ORDER. distinct (free_lists st ! order))
     \<and> (\<forall>b \<in> free_blocks off st. block_ok off (fst b) (snd b))
     \<and> disjoint_blocks (free_blocks off st)"

text \<open>The pages on the free lists, counted with the width of the code's counter.\<close>

definition listed_pages :: "BuddyAllocator \<Rightarrow> usize" where
  "listed_pages st = (\<Sum>order \<le> MAX_ORDER. of_nat (length (free_lists st ! order)) * 2 ^ order)"

definition count_slack :: "BuddyAllocator \<Rightarrow> usize" where
  "count_slack st = free_pages_count st - listed_pages st"

section \<open>Halves and buddies\<close>

lemma page_pow2: "2 ^ order * PAGE_SIZE = 2 ^ (order + 12)" "PAGE_SIZE * 2 ^ order = 2 ^ (order + 12)"
  by (simp_all add: PAGE_SIZE_def power_add)

lemma pow2_halves: "(2 :: nat) ^ (Suc order + 12) = 2 ^ (order + 12) + 2 ^ (order + 12)"
  by (simp add: power_add)

lemma block_range_nonempty: "block_range a order \<noteq> {}"
  by (simp add: block_range_def)

lemma phys_to_virt_eq [simp]: "phys_to_virt off a = phys_to_virt off b \<longleftrightarrow> a = b"
  by (simp add: phys_to_virt_def)

lemma phys_to_virt_surj: "\<exists>a. v = phys_to_virt off a"
  by (rule exI[of _ "v - off"]) (simp add: phys_to_virt_def)

lemma unat_phys_to_virt: "block_ok off a order \<Longrightarrow> unat (phys_to_virt off a) = unat off + unat a"
proof -
  assume b: "block_ok off a order"
  have "(0 :: nat) < 2 ^ (order + 12)" by simp
  with b have "unat off + unat a < 2 ^ 64" unfolding block_ok_def by linarith
  then show ?thesis by (simp add: phys_to_virt_def unat_word_ariths)
qed

lemma virt_to_phys_inverse: "block_ok off a order \<Longrightarrow> virt_to_phys off (phys_to_virt off a) = Some a"
  using unat_phys_to_virt[of off a order]
  by (simp add: virt_to_phys_def word_le_nat_alt) (simp add: phys_to_virt_def)

lemma virt_in_higher_half:
  "hhdm_ok off \<Longrightarrow> block_ok off a order \<Longrightarrow> \<not> phys_to_virt off a < 0xFFFF800000000000"
  using unat_phys_to_virt[of off a order] by (simp add: hhdm_ok_def word_le_nat_alt word_less_nat_alt)

text \<open>A block of order \<open>n + 1\<close> is its lower half and its upper half, both blocks of order \<open>n\<close>.\<close>

lemma block_halves:
  assumes "block_ok off a (Suc order)"
  shows "block_ok off a order" "block_ok off (a + 2 ^ (order + 12)) order"
    "block_range a (Suc order) = block_range a order \<union> block_range (a + 2 ^ (order + 12)) order"
    "block_range a order \<inter> block_range (a + 2 ^ (order + 12)) order = {}"
proof -
  from assms have al: "aligned (Suc (order + 12)) a" and le: "order + 12 < LENGTH(64)"
    and b: "unat off + unat a + 2 ^ (Suc order + 12) \<le> 2 ^ 64" "Suc order \<le> MAX_ORDER"
    by (simp_all add: block_ok_def MAX_ORDER_def)
  note h = aligned_add_half[OF al le]
  note d = pow2_halves[of order]
  show "block_ok off a order"
    using al b aligned_mono[of "Suc (order + 12)" a "order + 12"] unfolding block_ok_def d by simp
  show "block_ok off (a + 2 ^ (order + 12)) order"
    using h b unfolding block_ok_def d by simp
  show "block_range a (Suc order) = block_range a order \<union> block_range (a + 2 ^ (order + 12)) order"
    unfolding block_range_def h(1) d by auto
  show "block_range a order \<inter> block_range (a + 2 ^ (order + 12)) order = {}"
    unfolding block_range_def h(1) by auto
qed

text \<open>A block and its buddy are the two halves of the block at the smaller of their addresses.\<close>

lemma buddy_halves:
  assumes "block_ok off a order" "block_ok off (buddy_address a order) order" "order < MAX_ORDER"
  defines "m \<equiv> min a (buddy_address a order)"
  shows "block_ok off m (Suc order)"
    "block_range m (Suc order) = block_range a order \<union> block_range (buddy_address a order) order"
    "block_range a order \<inter> block_range (buddy_address a order) order = {}"
proof -
  let ?k = "order + 12"
  have k: "?k < LENGTH(64)" using assms(3) by (simp add: MAX_ORDER_def)
  have al: "aligned ?k a" using assms(1) by (simp add: block_ok_def)
  have b: "buddy_address a order = (if bit a ?k then a - 2 ^ ?k else a + 2 ^ ?k)"
    by (simp add: buddy_address_def page_pow2 xor_pow2)
  have "\<exists>l. aligned (Suc ?k) l \<and> block_ok off (l + 2 ^ ?k) order \<and>
    {a, buddy_address a order} = {l, l + 2 ^ ?k} \<and> m = l"
  proof (cases "bit a ?k")
    case True
    note h = aligned_sub_half[OF al True k]
    then have "m = a - 2 ^ ?k" using True b by (simp add: m_def min_def word_le_nat_alt)
    then show ?thesis using True b h assms(1) by (intro exI[of _ m]) auto
  next
    case False
    note h = aligned_add_half[OF aligned_bit_clear[OF al False] k]
    then have "m = a" using False b by (simp add: m_def min_def word_le_nat_alt)
    then show ?thesis using False b assms(2) aligned_bit_clear[OF al False] by (intro exI[of _ m]) auto
  qed
  then obtain l where l: "aligned (Suc ?k) l" "block_ok off (l + 2 ^ ?k) order"
    "{a, buddy_address a order} = {l, l + 2 ^ ?k}" "m = l" by blast
  note d = pow2_halves[of order]
  have ok: "block_ok off l (Suc order)"
    using l(1,2) assms(3) unfolding block_ok_def d aligned_add_half(1)[OF l(1) k] by simp
  then show "block_ok off m (Suc order)" by (simp add: l(4))
  note h = block_halves[OF ok]
  from l(3) have "(a = l \<and> buddy_address a order = l + 2 ^ ?k) \<or> (a = l + 2 ^ ?k \<and> buddy_address a order = l)"
    by (metis doubleton_eq_iff)
  then show "block_range m (Suc order) = block_range a order \<union> block_range (buddy_address a order) order"
    "block_range a order \<inter> block_range (buddy_address a order) order = {}"
    using h(3,4) l(4) by auto
qed

section \<open>Adding and removing one block\<close>

lemma free_blocks_cong: "free_lists st = free_lists st' \<Longrightarrow> free_blocks off st = free_blocks off st'"
  by (simp add: free_blocks_def)

lemma buddy_ok_cong: "free_lists st = free_lists st' \<Longrightarrow> buddy_ok off st = buddy_ok off st'"
  unfolding buddy_ok_def by (simp add: free_blocks_def)

lemma free_memory_cong: "free_lists st = free_lists st' \<Longrightarrow> free_memory off st = free_memory off st'"
  by (simp add: free_memory_def free_blocks_def)

lemma block_in_free_memory: "b \<in> free_blocks off st \<Longrightarrow> block_range (fst b) (snd b) \<subseteq> free_memory off st"
  by (auto simp: free_memory_def)

lemma free_blocks_update:
  assumes "length (free_lists st) = MAX_ORDER + 1" "order \<le> MAX_ORDER"
  shows "free_blocks off (st\<lparr> free_lists := (free_lists st)[order := l] \<rparr>) =
    {(b, p). (b, p) \<in> free_blocks off st \<and> p \<noteq> order} \<union> {(b, order) | b. phys_to_virt off b \<in> set l}"
  using assms by (auto simp: free_blocks_def nth_list_update split: if_splits)

lemma listed_pages_update:
  assumes "length (free_lists st) = MAX_ORDER + 1" "order \<le> MAX_ORDER"
  shows "listed_pages (st\<lparr> free_lists := (free_lists st)[order := l] \<rparr>) =
    listed_pages st - of_nat (length (free_lists st ! order)) * 2 ^ order + of_nat (length l) * 2 ^ order"
proof -
  let ?f = "\<lambda>ls p. (of_nat (length (ls ! p)) :: usize) * 2 ^ p"
  have "sum (?f (free_lists st)) {..MAX_ORDER} =
      ?f (free_lists st) order + sum (?f (free_lists st)) ({..MAX_ORDER} - {order})"
    using assms(2) by (intro sum.remove) auto
  moreover have "sum (?f ((free_lists st)[order := l])) ({..MAX_ORDER} - {order}) =
      sum (?f (free_lists st)) ({..MAX_ORDER} - {order})"
    by (intro sum.cong) auto
  moreover have "sum (?f ((free_lists st)[order := l])) {..MAX_ORDER} =
      ?f ((free_lists st)[order := l]) order + sum (?f ((free_lists st)[order := l])) ({..MAX_ORDER} - {order})"
    using assms(2) by (intro sum.remove) auto
  ultimately show ?thesis using assms unfolding listed_pages_def by (simp add: algebra_simps)
qed

lemma disjoint_blocks_insert:
  assumes "disjoint_blocks B" "\<And>b. b \<in> B \<Longrightarrow> block_range (fst x) (snd x) \<inter> block_range (fst b) (snd b) = {}"
  shows "disjoint_blocks (insert x B)"
  using assms unfolding disjoint_blocks_def by (metis Int_commute insertE)

lemma buddy_push:
  assumes "buddy_ok off st" "hhdm_ok off" "block_ok off a order" "block_range a order \<inter> free_memory off st = {}"
  defines "st' \<equiv> free_block_unchecked off st a order"
  shows "buddy_ok off st'" "free_memory off st' = free_memory off st \<union> block_range a order"
    "listed_pages st' = listed_pages st + 2 ^ order" "free_pages_count st' = free_pages_count st"
proof -
  have st': "st' = st\<lparr> free_lists := (free_lists st)[order := phys_to_virt off a # free_lists st ! order] \<rparr>"
    using virt_in_higher_half[OF assms(2,3)] by (simp add: st'_def free_block_unchecked_def Let_def)
  have len: "length (free_lists st) = MAX_ORDER + 1" and o: "order \<le> MAX_ORDER"
    using assms(1,3) by (simp_all add: buddy_ok_def block_ok_def)
  have fb: "free_blocks off st' = insert (a, order) (free_blocks off st)"
    unfolding st' free_blocks_update[OF len o] using o by (auto simp: free_blocks_def)
  have new: "(a, order) \<notin> free_blocks off st"
    using assms(4) block_in_free_memory[of "(a, order)" off st] block_range_nonempty[of a order] by auto
  have "\<forall>p \<le> MAX_ORDER. distinct (free_lists st' ! p)"
    using assms(1) new o len by (auto simp: st' buddy_ok_def free_blocks_def nth_list_update)
  moreover have "disjoint_blocks (free_blocks off st')"
    unfolding fb
  proof (rule disjoint_blocks_insert)
    show "disjoint_blocks (free_blocks off st)" using assms(1) by (simp add: buddy_ok_def)
    show "block_range (fst (a, order)) (snd (a, order)) \<inter> block_range (fst b) (snd b) = {}"
      if "b \<in> free_blocks off st" for b
      using assms(4) block_in_free_memory[OF that] by auto
  qed
  ultimately show "buddy_ok off st'"
    using assms(1,3) len unfolding buddy_ok_def fb by (auto simp: st')
  show "free_memory off st' = free_memory off st \<union> block_range a order"
    unfolding free_memory_def fb by auto
  show "listed_pages st' = listed_pages st + 2 ^ order" "free_pages_count st' = free_pages_count st"
    using listed_pages_update[OF len o, of "phys_to_virt off a # free_lists st ! order"]
    by (simp_all add: st' algebra_simps)
qed

lemma buddy_take:
  assumes "buddy_ok off st" "(a, order) \<in> free_blocks off st"
    and "l = remove1 (phys_to_virt off a) (free_lists st ! order)"
  defines "st' \<equiv> st\<lparr> free_lists := (free_lists st)[order := l] \<rparr>"
  shows "buddy_ok off st'" "block_ok off a order" "block_range a order \<subseteq> free_memory off st"
    "free_memory off st' = free_memory off st - block_range a order"
    "listed_pages st' = listed_pages st - 2 ^ order"
proof -
  have len: "length (free_lists st) = MAX_ORDER + 1" and o: "order \<le> MAX_ORDER"
    and v: "phys_to_virt off a \<in> set (free_lists st ! order)" and d: "distinct (free_lists st ! order)"
    using assms(1,2) by (auto simp: buddy_ok_def free_blocks_def)
  have l: "set l = set (free_lists st ! order) - {phys_to_virt off a}" "distinct l"
    "length l = length (free_lists st ! order) - 1"
    using d v by (simp_all add: assms(3) distinct_remove1 set_remove1_eq length_remove1)
  have fb: "free_blocks off st' = free_blocks off st - {(a, order)}"
    unfolding st'_def free_blocks_update[OF len o] using o l(1) by (auto simp: free_blocks_def)
  show "buddy_ok off st'"
    using assms(1) l(2) len o unfolding buddy_ok_def fb disjoint_blocks_def
    by (auto simp: st'_def nth_list_update)
  show "block_ok off a order" using assms(1,2) by (auto simp: buddy_ok_def)
  show "block_range a order \<subseteq> free_memory off st" using block_in_free_memory[OF assms(2)] by simp
  have "\<forall>b \<in> free_blocks off st - {(a, order)}. block_range (fst b) (snd b) \<inter> block_range a order = {}"
    using assms(1,2) unfolding buddy_ok_def disjoint_blocks_def by (metis DiffE fst_conv snd_conv singletonI)
  then show "free_memory off st' = free_memory off st - block_range a order"
    unfolding free_memory_def fb using assms(2) by fastforce
  have "of_nat (length l) = (of_nat (length (free_lists st ! order)) :: usize) - 1"
    using l(3) v by (cases "free_lists st ! order") auto
  then show "listed_pages st' = listed_pages st - 2 ^ order"
    unfolding st'_def listed_pages_update[OF len o, of l] by (simp add: left_diff_distrib)
qed

section \<open>Allocation and release\<close>

text \<open>Allocation takes exactly the returned block out of the free memory.\<close>

definition alloc_post :: "usize \<Rightarrow> BuddyAllocator \<Rightarrow> nat \<Rightarrow> BuddyAllocator \<Rightarrow> usize option \<Rightarrow> bool" where
  "alloc_post off st order st' r \<longleftrightarrow> buddy_ok off st' \<and> count_slack st' = count_slack st \<and>
    (case r of
       None \<Rightarrow> st' = st \<and> (\<forall>p. order \<le> p \<and> p \<le> MAX_ORDER \<longrightarrow> free_lists st ! p = [])
     | Some a \<Rightarrow> block_ok off a order \<and> block_range a order \<subseteq> free_memory off st \<and>
         free_memory off st' = free_memory off st - block_range a order)"

lemma alloc_post_cong:
  assumes "free_lists s1 = free_lists s2" "count_slack s1 = count_slack st"
    "buddy_ok off s2" "block_ok off a order" "block_range a order \<subseteq> free_memory off st"
    "free_memory off s2 = free_memory off st - block_range a order"
  shows "alloc_post off st order s1 (Some a)"
  using assms buddy_ok_cong[OF assms(1), of off] free_memory_cong[OF assms(1), of off]
  by (simp add: alloc_post_def)

lemma listed_pages_cong: "free_lists s1 = free_lists s2 \<Longrightarrow> listed_pages s1 = listed_pages s2"
  by (simp add: listed_pages_def)

lemma alloc_pop_post:
  assumes "buddy_ok off st" "order \<le> MAX_ORDER" "free_lists st ! order = v # vs"
  shows "\<exists>st' a. buddy_alloc_pages off st order = (st', Some a) \<and> alloc_post off st order st' (Some a)"
proof -
  obtain a where a: "v = phys_to_virt off a" using phys_to_virt_surj by blast
  have fb: "(a, order) \<in> free_blocks off st" using assms(2,3) a by (simp add: free_blocks_def)
  have r: "vs = remove1 (phys_to_virt off a) (free_lists st ! order)" using assms(3) a by simp
  note t = buddy_take[OF assms(1) fb r]
  let ?s = "st\<lparr> free_lists := (free_lists st)[order := vs] \<rparr>"
  let ?st' = "?s\<lparr> free_pages_count := free_pages_count st - 2 ^ order \<rparr>"
  have "listed_pages ?st' = listed_pages ?s" by (rule listed_pages_cong) simp
  then have "alloc_post off st order ?st' (Some a)"
    using t by (intro alloc_post_cong[of _ ?s]) (simp_all add: count_slack_def)
  moreover have "buddy_alloc_pages off st order = (?st', Some a)"
    using assms(2,3) a virt_to_phys_inverse[OF t(2)] by (simp add: buddy_alloc_pages.simps[of off st])
  ultimately show ?thesis by blast
qed

lemma alloc_split_post:
  assumes "hhdm_ok off" "order < MAX_ORDER" "free_lists st ! order = []"
    and "buddy_alloc_pages off st (order + 1) = (s1, Some a)" "alloc_post off st (order + 1) s1 (Some a)"
  shows "\<exists>st'. buddy_alloc_pages off st order = (st', Some a) \<and> alloc_post off st order st' (Some a)"
proof -
  let ?b = "a + 2 ^ (order + 12)"
  have c: "buddy_ok off s1" "count_slack s1 = count_slack st" "block_ok off a (Suc order)"
    "block_range a (Suc order) \<subseteq> free_memory off st"
    "free_memory off s1 = free_memory off st - block_range a (Suc order)"
    using assms(5) by (simp_all add: alloc_post_def)
  note h = block_halves[OF c(3)]
  have "block_range ?b order \<inter> free_memory off s1 = {}" using c(5) h(3) by auto
  note p = buddy_push[OF c(1) assms(1) h(2) this]
  let ?s2 = "free_block_unchecked off s1 ?b order"
  let ?st' = "?s2\<lparr> free_pages_count := free_pages_count ?s2 + 2 ^ order \<rparr>"
  have "listed_pages ?st' = listed_pages ?s2" by (rule listed_pages_cong) simp
  moreover have "free_memory off ?s2 = free_memory off st - block_range a order"
    using p(2) c(4,5) h(3,4) by auto
  ultimately have "alloc_post off st order ?st' (Some a)"
    using p c h by (intro alloc_post_cong[of _ ?s2]) (auto simp: count_slack_def)
  moreover have "buddy_alloc_pages off st order = (?st', Some a)"
    using assms(2-4) by (simp add: buddy_alloc_pages.simps[of off st order] Let_def page_pow2)
  ultimately show ?thesis by blast
qed

lemma alloc_post_None:
  assumes "buddy_ok off st" "\<And>p. order \<le> p \<Longrightarrow> p \<le> MAX_ORDER \<Longrightarrow> free_lists st ! p = []"
  shows "alloc_post off st order st None"
  using assms by (simp add: alloc_post_def)

lemma buddy_alloc_contract:
  assumes "buddy_ok off st" "hhdm_ok off" "buddy_alloc_pages off st order = (st', r)"
  shows "alloc_post off st order st' r"
  using assms
proof (induction off st order arbitrary: st' r rule: buddy_alloc_pages.induct)
  case (1 off st order)
  consider "MAX_ORDER < order" | v vs where "order \<le> MAX_ORDER" "free_lists st ! order = v # vs"
    | "order = MAX_ORDER" "free_lists st ! order = []" | "order < MAX_ORDER" "free_lists st ! order = []"
    by (metis le_neq_implies_less linorder_not_less list.exhaust)
  then show ?case
  proof cases
    case 2
    then show ?thesis using alloc_pop_post[OF 1(2)] 1(4) by fastforce
  next
    case 4
    obtain s1 r1 where rec: "buddy_alloc_pages off st (order + 1) = (s1, r1)" by fastforce
    have IH: "alloc_post off st (order + 1) s1 r1" using 1(1)[OF _ 4(2,1) 1(2,3) rec] 4(1) by simp
    show ?thesis
    proof (cases r1)
      case None
      then have "st' = s1" "r = None" "s1 = st"
        using 1(4) 4 rec IH by (auto simp: buddy_alloc_pages.simps[of off st order] alloc_post_def)
      moreover have "free_lists st ! p = []" if "order \<le> p" "p \<le> MAX_ORDER" for p
        using IH None that 4(2) by (cases "p = order") (auto simp: alloc_post_def)
      ultimately show ?thesis using alloc_post_None[OF 1(2)] by blast
    next
      case (Some a)
      then show ?thesis using alloc_split_post[OF 1(3) 4 rec[unfolded Some]] IH 1(4) by fastforce
    qed
  qed (use 1(2,4) in \<open>auto simp: buddy_alloc_pages.simps[of off st] alloc_post_def le_antisym\<close>)
qed

lemma free_walk_mem: "free_walk hops xs v \<Longrightarrow> v \<in> set xs"
  by (induction hops xs v rule: free_walk.induct) (auto split: if_splits)

lemma unlink_walk_found: "free_walk hops xs v \<Longrightarrow> unlink_walk hops xs v = Some (remove1 v xs)"
  by (induction hops xs v rule: free_walk.induct) (auto split: if_splits)

lemma is_block_free_mem: "is_block_free off st a order \<Longrightarrow> order \<le> MAX_ORDER \<Longrightarrow> (a, order) \<in> free_blocks off st"
  by (simp add: is_block_free_def free_blocks_def free_walk_mem)

text \<open>Release returns exactly the block to the free memory and does not panic.\<close>

definition free_post :: "usize \<Rightarrow> BuddyAllocator \<Rightarrow> usize \<Rightarrow> nat \<Rightarrow> BuddyAllocator option \<Rightarrow> bool" where
  "free_post off st a order r \<longleftrightarrow>
     (\<exists>st'. r = Some st' \<and> buddy_ok off st' \<and> count_slack st' = count_slack st \<and>
        free_memory off st' = free_memory off st \<union> block_range a order)"

lemma buddy_free_contract:
  assumes "buddy_ok off st" "hhdm_ok off" "block_ok off a order" "block_range a order \<inter> free_memory off st = {}"
  shows "free_post off st a order (buddy_free_pages off st a order)"
  using assms
proof (induction off st a order rule: buddy_free_pages.induct)
  case (1 off st a order)
  let ?b = "buddy_address a order"
  have o: "order \<le> MAX_ORDER" using 1(4) by (simp add: block_ok_def)
  have nf: "\<not> is_block_free off st a order"
  proof
    assume "is_block_free off st a order"
    from block_in_free_memory[OF is_block_free_mem[OF this o]] show False
      using 1(5) block_range_nonempty[of a order] by (simp add: Int_absorb2)
  qed
  show ?case
  proof (cases "order < MAX_ORDER \<and> is_block_free off st ?b order")
    case True
    then have fb: "(?b, order) \<in> free_blocks off st" using is_block_free_mem o by blast
    note t = buddy_take[OF 1(2) fb refl]
    let ?s = "st\<lparr> free_lists := (free_lists st)[order := remove1 (phys_to_virt off ?b) (free_lists st ! order)] \<rparr>"
    let ?s1 = "?s\<lparr> free_pages_count := free_pages_count st - 2 ^ order \<rparr>"
    have rm: "remove_from_free_list off st ?b order = Some ?s"
      using True unlink_walk_found[of 0 "free_lists st ! order" "phys_to_virt off ?b"]
      by (simp add: remove_from_free_list_def is_block_free_def)
    have l: "free_lists ?s1 = free_lists ?s" by simp
    note c = buddy_ok_cong[OF l] free_memory_cong[OF l] listed_pages_cong[OF l]
    note h = buddy_halves[OF 1(4) t(2) conjunct1[OF True]]
    have "block_range (min a ?b) (order + 1) \<inter> free_memory off ?s1 = {}"
      using h(2) t(4) 1(5) c(2)[of off] by auto
    then have "free_post off ?s1 (min a ?b) (order + 1) (buddy_free_pages off ?s1 (min a ?b) (order + 1))"
      using 1(1)[OF _ nf True rm] 1(3) o c(1)[of off] t(1) h(1) by simp
    moreover have "count_slack ?s1 = count_slack st" using c(3) t(5) by (simp add: count_slack_def)
    moreover have "free_memory off ?s1 \<union> block_range (min a ?b) (order + 1) = free_memory off st \<union> block_range a order"
      using h(2) t(3,4) c(2)[of off] by auto
    ultimately have "free_post off st a order (buddy_free_pages off ?s1 (min a ?b) (order + 1))"
      by (auto simp: free_post_def)
    then show ?thesis
      using True nf o rm by (simp add: buddy_free_pages.simps[of off st a order])
  next
    case False
    let ?s = "free_block_unchecked off st a order"
    let ?s1 = "?s\<lparr> free_pages_count := free_pages_count ?s + 2 ^ order \<rparr>"
    have l: "free_lists ?s1 = free_lists ?s" by simp
    note p = buddy_push[OF 1(2,3,4,5)]
    have "buddy_free_pages off st a order = Some ?s1"
      using False nf o by (auto simp: buddy_free_pages.simps[of off st a order] Let_def)
    then show ?thesis
      using p buddy_ok_cong[OF l] free_memory_cong[OF l] listed_pages_cong[OF l]
      by (simp add: free_post_def count_slack_def)
  qed
qed

interpretation buddy: block_allocator "buddy_alloc_pages off" "buddy_free_pages off" "\<lambda>n. n" MAX_ORDER
  "free_memory off" block_range "\<lambda>_. block_ok off" "\<lambda>st. hhdm_ok off \<and> buddy_ok off st" for off
proof unfold_locales
  fix st st' and order and a r
  show "hhdm_ok off \<and> buddy_ok off st \<Longrightarrow> order \<le> MAX_ORDER \<Longrightarrow>
      buddy_alloc_pages off st order = (st', Some a) \<Longrightarrow>
      (hhdm_ok off \<and> buddy_ok off st') \<and> block_ok off a order \<and> block_range a order \<subseteq> free_memory off st \<and>
      free_memory off st' \<subseteq> free_memory off st - block_range a order"
    using buddy_alloc_contract[of off st order st' "Some a"] by (simp add: alloc_post_def)
  show "hhdm_ok off \<and> buddy_ok off st \<Longrightarrow> order \<le> MAX_ORDER \<Longrightarrow>
      buddy_alloc_pages off st order = (st', None) \<Longrightarrow>
      (hhdm_ok off \<and> buddy_ok off st') \<and> free_memory off st' = free_memory off st"
    using buddy_alloc_contract[of off st order st' None] by (simp add: alloc_post_def)
  show "hhdm_ok off \<and> buddy_ok off st \<Longrightarrow> block_ok off a order \<Longrightarrow> block_range a order \<inter> free_memory off st = {} \<Longrightarrow>
      \<exists>st'. buddy_free_pages off st a order = Some st' \<and> (hhdm_ok off \<and> buddy_ok off st') \<and>
        free_memory off st' = free_memory off st \<union> block_range a order \<and> block_ok off = block_ok off"
    using buddy_free_contract[of off st a order] by (auto simp: free_post_def)
qed simp

end
