(* ===== verification/PhysMem.thy ===== *)
theory PhysMem
  imports Buddy
begin

text \<open>
  The physical memory manager of kernel/src/memory/physical.rs: the bump
  allocator for the memory that was never released, the boot-time scan of the
  memory map, and the module's entry points, which try the buddy allocator
  first.  The bootloader's memory map is data: base, length and whether the
  entry is usable.
\<close>

section \<open>State\<close>

record BootstrapRegion =
  next_page :: usize
  end_page :: usize

definition MAX_REGIONS :: nat where "MAX_REGIONS = 16"

record BootstrapAllocator =
  regions :: "BootstrapRegion list"
  region_count :: nat

record MapEntry =
  entry_base :: u64
  entry_length :: u64
  entry_usable :: bool

text \<open>The statics of the module: the direct-map offset, the two allocators and the counters.\<close>

record Pmm =
  hhdm_offset :: usize
  allocator :: BuddyAllocator
  bootstrap :: "BootstrapAllocator option"
  total_ram_pages :: usize
  allocated_pages :: usize

section \<open>The bump allocator\<close>

definition BootstrapAllocator_new :: BootstrapAllocator where
  "BootstrapAllocator_new =
     \<lparr> regions = replicate MAX_REGIONS \<lparr> next_page = 0, end_page = 0 \<rparr>, region_count = 0 \<rparr>"

definition boot_add_region :: "BootstrapAllocator \<Rightarrow> usize \<Rightarrow> usize \<Rightarrow> BootstrapAllocator" where
  "boot_add_region b start num_pages =
     (if MAX_REGIONS \<le> region_count b then b
      else b\<lparr> regions := (regions b)[region_count b :=
                \<lparr> next_page = start, end_page = start + num_pages * PAGE_SIZE \<rparr>],
              region_count := region_count b + 1 \<rparr>)"

text \<open>Both allocations return the new state, the pages to add to the counter, and the address.\<close>

definition boot_alloc_page :: "BootstrapAllocator \<Rightarrow> BootstrapAllocator \<times> usize \<times> usize option" where
  "boot_alloc_page b =
     (case find (\<lambda>i. next_page (regions b ! i) < end_page (regions b ! i)) [0..<region_count b] of
        None \<Rightarrow> (b, 0, None)
      | Some i \<Rightarrow>
          (let r = regions b ! i; page = next_page r
           in (b\<lparr> regions := (regions b)[i := r\<lparr> next_page := page + PAGE_SIZE \<rparr>] \<rparr>, 1, Some page)))"

text \<open>The part of a region that a block of the given size would take, if it fits.\<close>

definition region_fit :: "BootstrapRegion \<Rightarrow> usize \<Rightarrow> (usize \<times> usize) option" where
  "region_fit r block_size =
     (let aligned_start = align_up (next_page r) block_size
      in case checked_add aligned_start block_size of
           None \<Rightarrow> None
         | Some aligned_end \<Rightarrow>
             if aligned_end \<le> end_page r then Some (aligned_start, aligned_end) else None)"

definition boot_alloc_block :: "BootstrapAllocator \<Rightarrow> nat \<Rightarrow> BootstrapAllocator \<times> usize \<times> usize option" where
  "boot_alloc_block b order =
     (let block_size = PAGE_SIZE * 2 ^ order in
      case find (\<lambda>i. region_fit (regions b ! i) block_size \<noteq> None) [0..<region_count b] of
        None \<Rightarrow> (b, 0, None)
      | Some i \<Rightarrow>
          (case region_fit (regions b ! i) block_size of
             Some (aligned_start, aligned_end) \<Rightarrow>
               (b\<lparr> regions := (regions b)[i := (regions b ! i)\<lparr> next_page := aligned_end \<rparr>] \<rparr>,
                2 ^ order, Some aligned_start)
           | None \<Rightarrow> (b, 0, None)))"

section \<open>Boot\<close>

definition entry_span :: "MapEntry \<Rightarrow> usize \<times> usize" where
  "entry_span e = (align_up (entry_base e) PAGE_SIZE, align_up (entry_base e + entry_length e) PAGE_SIZE)"

text \<open>The first scan: all pages of usable entries, and those at or above one mebibyte.\<close>

definition scan_entry :: "MapEntry \<Rightarrow> usize \<times> usize \<Rightarrow> usize \<times> usize" where
  "scan_entry e acc =
     (case acc of (total_mem, usable_mem) \<Rightarrow>
        if entry_usable e then
          (case entry_span e of (aligned_base, aligned_end) \<Rightarrow>
             if aligned_base < aligned_end then
               (let num_pages = (aligned_end - aligned_base) div PAGE_SIZE
                in (total_mem + num_pages,
                    if 0x100000 \<le> aligned_base then usable_mem + num_pages else usable_mem))
             else acc)
        else acc)"

text \<open>The second scan collects at most \<open>MAX_REGIONS\<close> regions.\<close>

definition collect_entry :: "MapEntry \<Rightarrow> (usize \<times> usize) list \<Rightarrow> (usize \<times> usize) list" where
  "collect_entry e rs =
     (if entry_usable e \<and> length rs < MAX_REGIONS then
        (case entry_span e of (aligned_base, aligned_end) \<Rightarrow>
           if aligned_base < aligned_end \<and> 0x100000 \<le> aligned_base
           then rs @ [(aligned_base, (aligned_end - aligned_base) div PAGE_SIZE)] else rs)
      else rs)"

definition max_index :: "(usize \<times> usize) list \<Rightarrow> nat \<Rightarrow> nat" where
  "max_index rs i =
     foldl (\<lambda>max_j j. if snd (rs ! max_j) < snd (rs ! j) then j else max_j) i [i + 1..<length rs]"

definition swap :: "'a list \<Rightarrow> nat \<Rightarrow> nat \<Rightarrow> 'a list" where
  "swap xs i j = xs[i := xs ! j, j := xs ! i]"

definition sort_step :: "(usize \<times> usize) list \<Rightarrow> nat \<Rightarrow> (usize \<times> usize) list" where
  "sort_step rs i = (let max_j = max_index rs i in if max_j \<noteq> i then swap rs i max_j else rs)"

definition selection_sort :: "(usize \<times> usize) list \<Rightarrow> (usize \<times> usize) list" where
  "selection_sort rs = foldl sort_step rs [0..<length rs]"

definition pmm_init :: "Pmm \<Rightarrow> MapEntry list \<Rightarrow> Pmm" where
  "pmm_init p memory_map =
     (let (total_mem, usable_mem) = fold scan_entry memory_map (0, 0);
          rs = selection_sort (fold collect_entry memory_map []);
          b = foldl (\<lambda>b r. boot_add_region b (fst r) (snd r)) BootstrapAllocator_new rs
      in p\<lparr> allocator := (allocator p)\<lparr> total_pages := total_mem, free_pages_count := usable_mem \<rparr>,
            total_ram_pages := total_mem,
            bootstrap := Some b \<rparr>)"

definition Pmm_boot :: "usize \<Rightarrow> Pmm" where
  "Pmm_boot off = \<lparr> hhdm_offset = off, allocator = BuddyAllocator_new, bootstrap = None,
     total_ram_pages = 0, allocated_pages = 0 \<rparr>"

section \<open>Entry points\<close>

definition alloc_pages :: "Pmm \<Rightarrow> nat \<Rightarrow> Pmm \<times> usize option" where
  "alloc_pages p order =
     (case buddy_alloc_pages (hhdm_offset p) (allocator p) order of
        (st, Some addr) \<Rightarrow> (p\<lparr> allocator := st \<rparr>, Some addr)
      | (st, None) \<Rightarrow>
          (let p' = p\<lparr> allocator := st \<rparr> in
           if 0 < order then
             (case bootstrap p' of
                None \<Rightarrow> (p', None)
              | Some b \<Rightarrow>
                  (case boot_alloc_block b order of
                     (b', n, r) \<Rightarrow>
                       (p'\<lparr> bootstrap := Some b', allocated_pages := allocated_pages p' + n \<rparr>, r)))
           else (p', None)))"

definition alloc_page :: "Pmm \<Rightarrow> Pmm \<times> usize option" where
  "alloc_page p =
     (case alloc_pages p 0 of
        (p', Some page) \<Rightarrow> (p', Some page)
      | (p', None) \<Rightarrow>
          (case bootstrap p' of
             None \<Rightarrow> (p', None)
           | Some b \<Rightarrow>
               (case boot_alloc_page b of
                  (b', n, r) \<Rightarrow>
                    (p'\<lparr> bootstrap := Some b', allocated_pages := allocated_pages p' + n \<rparr>, r))))"

definition free_pages :: "Pmm \<Rightarrow> usize \<Rightarrow> nat \<Rightarrow> Pmm option" where
  "free_pages p addr order =
     map_option (\<lambda>st. p\<lparr> allocator := st \<rparr>) (buddy_free_pages (hhdm_offset p) (allocator p) addr order)"

definition free_page :: "Pmm \<Rightarrow> usize \<Rightarrow> Pmm option" where
  "free_page p addr = free_pages p addr 0"

text \<open>The loop \<open>while (1 << order) < num_pages && order < 10\<close> of \<open>alloc_contiguous\<close>.\<close>

function contiguous_order :: "usize \<Rightarrow> nat \<Rightarrow> nat" where
  "contiguous_order num_pages order =
     (if (2 ^ order :: usize) < num_pages \<and> order < 10 then contiguous_order num_pages (order + 1) else order)"
  by pat_completeness auto
termination by (relation "measure (\<lambda>(n, order). 10 - order)") auto

declare contiguous_order.simps [simp del]

definition alloc_contiguous :: "Pmm \<Rightarrow> usize \<Rightarrow> Pmm \<times> usize option" where
  "alloc_contiguous p num_pages =
     (if num_pages = 0 then (p, None) else alloc_pages p (contiguous_order num_pages 0))"

definition stats :: "Pmm \<Rightarrow> MemoryStats" where
  "stats p = buddy_stats (allocator p)"

definition memory_stats :: "Pmm \<Rightarrow> usize \<times> usize" where
  "memory_stats p = (total_ram_pages p, saturating_sub (total_ram_pages p) (allocated_pages p))"

section \<open>The memory map\<close>

definition entry_range :: "MapEntry \<Rightarrow> nat set" where
  "entry_range e = {unat (entry_base e) ..< unat (entry_base e) + unat (entry_length e)}"

text \<open>What the boot protocol guarantees of usable entries: page aligned, mapped by the direct
  map, and not overlapping one another.\<close>

definition map_ok :: "usize \<Rightarrow> MapEntry list \<Rightarrow> bool" where
  "map_ok off mm \<longleftrightarrow>
     (\<forall>e \<in> set mm. entry_usable e \<longrightarrow> aligned 12 (entry_base e) \<and> aligned 12 (entry_length e) \<and>
        unat off + unat (entry_base e) + unat (entry_length e) \<le> 2 ^ 64) \<and>
     sorted_wrt (\<lambda>x y. entry_usable x \<longrightarrow> entry_usable y \<longrightarrow> entry_range x \<inter> entry_range y = {}) mm"

definition map_memory :: "MapEntry list \<Rightarrow> nat set" where
  "map_memory mm = (\<Union>e \<in> {e \<in> set mm. entry_usable e}. entry_range e)"

section \<open>The memory the bump allocator still holds\<close>

definition region_tail :: "BootstrapRegion \<Rightarrow> nat set" where
  "region_tail r = {unat (next_page r) ..< unat (end_page r)}"

definition region_ok :: "usize \<Rightarrow> BootstrapRegion \<Rightarrow> bool" where
  "region_ok off r \<longleftrightarrow> aligned 12 (next_page r) \<and> aligned 12 (end_page r) \<and>
     unat (next_page r) \<le> unat (end_page r) \<and> unat off + unat (end_page r) \<le> 2 ^ 64"

definition boot_memory :: "BootstrapAllocator \<Rightarrow> nat set" where
  "boot_memory b = (\<Union>i < region_count b. region_tail (regions b ! i))"

definition boot_ok :: "usize \<Rightarrow> BootstrapAllocator \<Rightarrow> bool" where
  "boot_ok off b \<longleftrightarrow> length (regions b) = MAX_REGIONS \<and> region_count b \<le> MAX_REGIONS \<and>
     (\<forall>i < region_count b. region_ok off (regions b ! i)) \<and>
     (\<forall>i < region_count b. \<forall>j < region_count b. i \<noteq> j \<longrightarrow>
        region_tail (regions b ! i) \<inter> region_tail (regions b ! j) = {})"

definition boot_part :: "Pmm \<Rightarrow> nat set" where
  "boot_part p = (case bootstrap p of None \<Rightarrow> {} | Some b \<Rightarrow> boot_memory b)"

definition pmm_avail :: "Pmm \<Rightarrow> nat set" where
  "pmm_avail p = free_memory (hhdm_offset p) (allocator p) \<union> boot_part p"

definition pmm_ok :: "Pmm \<Rightarrow> bool" where
  "pmm_ok p \<longleftrightarrow> hhdm_ok (hhdm_offset p) \<and> buddy_ok (hhdm_offset p) (allocator p) \<and>
     (case bootstrap p of None \<Rightarrow> True | Some b \<Rightarrow> boot_ok (hhdm_offset p) b) \<and>
     boot_part p \<inter> free_memory (hhdm_offset p) (allocator p) = {}"

text \<open>The entry points as requests of one client interface.\<close>

datatype request = Pages nat | Page | Contiguous usize

fun request_order :: "request \<Rightarrow> nat" where
  "request_order (Pages n) = n"
| "request_order Page = 0"
| "request_order (Contiguous n) = contiguous_order n 0"

fun pmm_alloc :: "Pmm \<Rightarrow> request \<Rightarrow> Pmm \<times> usize option" where
  "pmm_alloc p (Pages n) = alloc_pages p n"
| "pmm_alloc p Page = alloc_page p"
| "pmm_alloc p (Contiguous n) = alloc_contiguous p n"

lemma hhdm_room: "hhdm_ok off \<Longrightarrow> unat off + x \<le> 2 ^ 64 \<Longrightarrow> x \<le> 2 ^ 47"
  by (simp add: hhdm_ok_def word_le_nat_alt)

text \<open>What one region gives up when it serves a block.\<close>

lemma region_fit_block:
  assumes "region_ok off r" "hhdm_ok off" "order \<le> MAX_ORDER"
    and "region_fit r (PAGE_SIZE * 2 ^ order) = Some (s, e)"
  shows "block_ok off s order" "block_range s order \<subseteq> region_tail r"
    "region_ok off (r\<lparr> next_page := e \<rparr>)"
    "region_tail (r\<lparr> next_page := e \<rparr>) \<subseteq> region_tail r - block_range s order"
proof -
  let ?k = "order + 12"
  have k: "?k < LENGTH(64)" "?k \<le> 22" using assms(3) by (simp_all add: MAX_ORDER_def)
  have n: "unat (next_page r) \<le> 2 ^ 47"
    using assms(1,2) hhdm_room[of off "unat (end_page r)"] by (simp add: region_ok_def)
  have "(2 :: nat) ^ ?k \<le> 2 ^ 22" using k(2) by (intro power_increasing) simp_all
  then have nk: "unat (next_page r) + 2 ^ ?k \<le> 2 ^ LENGTH(64)" using n by simp
  note a = align_up_bounds[OF nk k(1)]
  have s: "s = align_up (next_page r) (2 ^ ?k)" "checked_add s (2 ^ ?k) = Some e" "e \<le> end_page r"
    using assms(4) by (auto simp: region_fit_def page_pow2 Let_def split: option.splits if_splits)
  have e: "unat e = unat s + 2 ^ ?k"
    using checked_add_SomeD[OF s(2)] unat_pow2[OF k(1)] by simp
  have end_le: "unat e \<le> unat (end_page r)" using s(3) by (simp add: word_le_nat_alt)
  have al: "aligned ?k s" using a(1) s(1) by simp
  have off: "unat off + unat s + 2 ^ ?k \<le> 2 ^ 64"
    using assms(1) end_le e unfolding region_ok_def by linarith
  show "block_ok off s order" using al off assms(3) by (simp add: block_ok_def)
  show "block_range s order \<subseteq> region_tail r"
    using a(2) s(1) e end_le by (auto simp: block_range_def region_tail_def)
  have "aligned 12 s" by (rule aligned_mono[OF al]) simp
  moreover have "(2 :: nat) ^ 12 dvd 2 ^ ?k" by (rule le_imp_power_dvd) simp
  ultimately have "aligned 12 e" using e unfolding aligned_def by (metis dvd_add)
  then show "region_ok off (r\<lparr> next_page := e \<rparr>)" using assms(1) end_le by (simp add: region_ok_def)
  show "region_tail (r\<lparr> next_page := e \<rparr>) \<subseteq> region_tail r - block_range s order"
    using a(2) s(1) e by (auto simp: block_range_def region_tail_def)
qed

text \<open>A single page is the block that the region would serve for order 0.\<close>

lemma region_page_block:
  assumes "region_ok off r" "hhdm_ok off" "next_page r < end_page r"
  shows "region_fit r (PAGE_SIZE * 2 ^ 0) = Some (next_page r, next_page r + PAGE_SIZE)"
proof -
  have le: "unat (next_page r) < unat (end_page r)" "unat (end_page r) \<le> 2 ^ 47"
    using assms hhdm_room[of off "unat (end_page r)"] by (simp_all add: region_ok_def word_less_nat_alt)
  have al: "aligned 12 (next_page r)" "aligned 12 (end_page r)" using assms(1) by (simp_all add: region_ok_def)
  have "2 ^ 12 dvd unat (end_page r) - unat (next_page r)"
    using al unfolding aligned_def by (intro dvd_diff_nat)
  then have room: "unat (next_page r) + 2 ^ 12 \<le> unat (end_page r)"
    using dvd_imp_le[of "2 ^ 12" "unat (end_page r) - unat (next_page r)"] le(1) by linarith
  have lt: "unat (next_page r) + 4096 < 2 ^ 64" using room le(2) by simp
  have "align_up (next_page r) (2 ^ 12) = next_page r"
    using al(1) le by (intro align_up_aligned) simp_all
  moreover have "checked_add (next_page r) PAGE_SIZE = Some (next_page r + PAGE_SIZE)"
    using lt by (simp add: checked_add_def PAGE_SIZE_def)
  moreover have "unat (next_page r + PAGE_SIZE) = unat (next_page r) + 4096"
    using lt by (simp add: unat_word_ariths PAGE_SIZE_def)
  ultimately show ?thesis
    using room by (simp add: region_fit_def PAGE_SIZE_def word_le_nat_alt Let_def)
qed

text \<open>What an allocation from the bump allocator does, for any region that serves it.\<close>

definition boot_post :: "usize \<Rightarrow> BootstrapAllocator \<Rightarrow> nat \<Rightarrow> BootstrapAllocator \<Rightarrow> usize option \<Rightarrow> bool" where
  "boot_post off b order b' r \<longleftrightarrow> boot_ok off b' \<and>
     (case r of
        None \<Rightarrow> b' = b
      | Some a \<Rightarrow> block_ok off a order \<and> block_range a order \<subseteq> boot_memory b \<and>
          boot_memory b' \<subseteq> boot_memory b - block_range a order)"

lemma boot_serve:
  assumes "boot_ok off b" "hhdm_ok off" "order \<le> MAX_ORDER" "i < region_count b"
    and "region_fit (regions b ! i) (PAGE_SIZE * 2 ^ order) = Some (s, e)"
  shows "boot_post off b order (b\<lparr> regions := (regions b)[i := (regions b ! i)\<lparr> next_page := e \<rparr>] \<rparr>) (Some s)"
proof -
  let ?r = "regions b ! i" and ?b' = "b\<lparr> regions := (regions b)[i := (regions b ! i)\<lparr> next_page := e \<rparr>] \<rparr>"
  have ok: "region_ok off ?r" "i < length (regions b)" using assms(1,4) by (auto simp: boot_ok_def)
  note f = region_fit_block[OF ok(1) assms(2,3,5)]
  have t: "region_tail (regions ?b' ! j) =
      (if j = i then region_tail (?r\<lparr> next_page := e \<rparr>) else region_tail (regions b ! j))" for j
    using ok(2) by (simp add: nth_list_update)
  have sub: "region_tail (regions ?b' ! j) \<subseteq> region_tail (regions b ! j)" for j
    using t[of j] f(4) by auto
  have apart: "j < region_count b \<Longrightarrow> j \<noteq> i \<Longrightarrow> region_tail (regions b ! j) \<inter> block_range s order = {}" for j
    using assms(1,4) f(2) unfolding boot_ok_def by blast
  have "\<forall>j < region_count b. region_ok off (regions ?b' ! j)"
    using assms(1) f(3) ok(2) by (auto simp: boot_ok_def nth_list_update)
  moreover have "\<forall>j < region_count b. \<forall>l < region_count b. j \<noteq> l \<longrightarrow>
      region_tail (regions ?b' ! j) \<inter> region_tail (regions ?b' ! l) = {}"
    using assms(1) sub unfolding boot_ok_def by (meson disjoint_iff subsetD)
  ultimately have "boot_ok off ?b'" using assms(1) by (simp add: boot_ok_def)
  moreover have "block_range s order \<subseteq> boot_memory b"
    using f(2) assms(4) by (auto simp: boot_memory_def)
  moreover have "region_tail (regions ?b' ! j) \<subseteq> boot_memory b - block_range s order" if "j < region_count b" for j
    using that t[of j] f(4) apart[of j] assms(4) by (cases "j = i") (auto simp: boot_memory_def)
  then have "boot_memory ?b' \<subseteq> boot_memory b - block_range s order"
    unfolding boot_memory_def[of ?b'] by auto
  ultimately show ?thesis using f(1) by (simp add: boot_post_def)
qed

lemma find_upt_SomeD: "find P [0..<n] = Some i \<Longrightarrow> i < n \<and> P i"
  by (auto simp: find_Some_iff)

lemma boot_alloc_block_post:
  assumes "boot_ok off b" "hhdm_ok off" "order \<le> MAX_ORDER" "boot_alloc_block b order = (b', n, r)"
  shows "boot_post off b order b' r"
proof (cases "find (\<lambda>i. region_fit (regions b ! i) (PAGE_SIZE * 2 ^ order) \<noteq> None) [0..<region_count b]")
  case None
  then show ?thesis using assms by (auto simp: boot_alloc_block_def boot_post_def)
next
  case (Some i)
  from find_upt_SomeD[OF this] obtain s e where
    "i < region_count b" "region_fit (regions b ! i) (PAGE_SIZE * 2 ^ order) = Some (s, e)" by auto
  then show ?thesis
    using boot_serve[OF assms(1-3)] Some assms(4) by (auto simp: boot_alloc_block_def)
qed

lemma boot_alloc_page_post:
  assumes "boot_ok off b" "hhdm_ok off" "boot_alloc_page b = (b', n, r)"
  shows "boot_post off b 0 b' r"
proof (cases "find (\<lambda>i. next_page (regions b ! i) < end_page (regions b ! i)) [0..<region_count b]")
  case None
  then show ?thesis using assms by (auto simp: boot_alloc_page_def boot_post_def)
next
  case (Some i)
  from find_upt_SomeD[OF this] have i: "i < region_count b" "next_page (regions b ! i) < end_page (regions b ! i)"
    by auto
  then have "region_fit (regions b ! i) (PAGE_SIZE * 2 ^ 0) =
      Some (next_page (regions b ! i), next_page (regions b ! i) + PAGE_SIZE)"
    using assms(1,2) by (intro region_page_block) (auto simp: boot_ok_def)
  from boot_serve[OF assms(1,2) _ i(1) this] show ?thesis
    using Some assms(3) by (auto simp: boot_alloc_page_def Let_def)
qed

section \<open>The entry points\<close>

definition pmm_post :: "Pmm \<Rightarrow> nat \<Rightarrow> Pmm \<Rightarrow> usize option \<Rightarrow> bool" where
  "pmm_post p order p' r \<longleftrightarrow> pmm_ok p' \<and> hhdm_offset p' = hhdm_offset p \<and>
     count_slack (allocator p') = count_slack (allocator p) \<and>
     (case r of
        None \<Rightarrow> pmm_avail p' = pmm_avail p
      | Some a \<Rightarrow> block_ok (hhdm_offset p) a order \<and> block_range a order \<subseteq> pmm_avail p \<and>
          pmm_avail p' \<subseteq> pmm_avail p - block_range a order)"

lemma pmm_from_boot:
  assumes "pmm_ok p" "bootstrap p = Some b" "boot_post (hhdm_offset p) b order b' r"
  shows "pmm_post p order (p\<lparr> bootstrap := Some b', allocated_pages := allocated_pages p + n \<rparr>) r"
proof -
  let ?F = "free_memory (hhdm_offset p) (allocator p)"
  have "boot_memory b' \<subseteq> boot_memory b" using assms(3) by (auto simp: boot_post_def split: option.splits)
  moreover have "boot_memory b \<inter> ?F = {}" using assms(1,2) by (simp add: pmm_ok_def boot_part_def)
  ultimately show ?thesis
    using assms by (auto simp: pmm_post_def pmm_ok_def pmm_avail_def boot_part_def boot_post_def split: option.splits)
qed

lemma pmm_from_buddy:
  assumes "pmm_ok p" "buddy_alloc_pages (hhdm_offset p) (allocator p) order = (st, r)"
  shows "pmm_post p order (p\<lparr> allocator := st \<rparr>) r"
proof -
  have "alloc_post (hhdm_offset p) (allocator p) order st r"
    using buddy_alloc_contract[OF _ _ assms(2)] assms(1) by (simp add: pmm_ok_def)
  then show ?thesis
    using assms(1) by (auto simp: alloc_post_def pmm_post_def pmm_ok_def pmm_avail_def boot_part_def split: option.splits)
qed

lemma pmm_post_None_trans:
  assumes "pmm_post p order p' None" "pmm_post p' order p'' r"
  shows "pmm_post p order p'' r"
  using assms by (auto simp: pmm_post_def split: option.splits)

lemma alloc_pages_post:
  assumes "pmm_ok p" "order \<le> MAX_ORDER" "alloc_pages p order = (p', r)"
  shows "pmm_post p order p' r"
proof -
  obtain st r1 where b: "buddy_alloc_pages (hhdm_offset p) (allocator p) order = (st, r1)" by fastforce
  note bp = pmm_from_buddy[OF assms(1) b]
  show ?thesis
  proof (cases "r1 = None \<and> 0 < order \<and> bootstrap p \<noteq> None")
    case False
    then have "p' = p\<lparr> allocator := st \<rparr> \<and> r = r1"
      using assms(3) b by (auto simp: alloc_pages_def Let_def split: option.splits if_splits)
    then show ?thesis using bp by simp
  next
    case True
    then obtain bs b' n where bs: "bootstrap p = Some bs" "boot_alloc_block bs order = (b', n, r)"
      "p' = p\<lparr> allocator := st, bootstrap := Some b', allocated_pages := allocated_pages p + n \<rparr>"
      using assms(3) b by (auto simp: alloc_pages_def split: prod.splits)
    let ?q = "p\<lparr> allocator := st \<rparr>"
    have q: "pmm_ok ?q" using bp by (simp add: pmm_post_def)
    then have "boot_post (hhdm_offset ?q) bs order b' r"
      using bs(1,2) assms(2) by (intro boot_alloc_block_post) (auto simp: pmm_ok_def)
    from pmm_from_boot[OF q _ this, of n] have "pmm_post ?q order p' r" using bs by simp
    then show ?thesis using bp True pmm_post_None_trans by blast
  qed
qed

lemma alloc_page_post:
  assumes "pmm_ok p" "alloc_page p = (p', r)"
  shows "pmm_post p 0 p' r"
proof -
  obtain q r1 where a: "alloc_pages p 0 = (q, r1)" by fastforce
  note ap = alloc_pages_post[OF assms(1) _ a]
  show ?thesis
  proof (cases "r1 = None \<and> bootstrap q \<noteq> None")
    case False
    then have "p' = q \<and> r = r1" using assms(2) a by (auto simp: alloc_page_def split: option.splits)
    then show ?thesis using ap by simp
  next
    case True
    then obtain bs b' n where bs: "bootstrap q = Some bs" "boot_alloc_page bs = (b', n, r)"
      "p' = q\<lparr> bootstrap := Some b', allocated_pages := allocated_pages q + n \<rparr>"
      using assms(2) a by (auto simp: alloc_page_def split: prod.splits)
    have q: "pmm_ok q" using ap by (simp add: pmm_post_def)
    then have "boot_post (hhdm_offset q) bs 0 b' r"
      using bs(1,2) by (intro boot_alloc_page_post) (auto simp: pmm_ok_def)
    from pmm_from_boot[OF q bs(1) this, of n] have "pmm_post q 0 p' r" using bs(3) by simp
    then show ?thesis using ap True pmm_post_None_trans by fastforce
  qed
qed

lemma contiguous_order_bounds:
  assumes "k \<le> 10"
  shows "k \<le> contiguous_order n k \<and> contiguous_order n k \<le> 10
    \<and> (contiguous_order n k < 10 \<longrightarrow> n \<le> 2 ^ contiguous_order n k)
    \<and> (\<forall>j. k \<le> j \<longrightarrow> j < contiguous_order n k \<longrightarrow> (2 ^ j :: usize) < n)"
  using assms
proof (induction n k rule: contiguous_order.induct)
  case (1 n k)
  show ?case
  proof (cases "(2 ^ k :: usize) < n \<and> k < 10")
    case True
    then have eq: "contiguous_order n k = contiguous_order n (Suc k)"
      by (simp add: contiguous_order.simps[of n k])
    have "k \<le> j \<Longrightarrow> Suc k \<le> j \<or> j = k" for j by auto
    then show ?thesis using 1(1)[OF True] True unfolding eq by auto
  next
    case False
    then show ?thesis using 1(2) by (auto simp: contiguous_order.simps[of n k] not_less)
  qed
qed

lemma hhdm_alloc_pages: "hhdm_offset (fst (alloc_pages p order)) = hhdm_offset p"
  by (simp add: alloc_pages_def Let_def split: prod.splits option.splits)

lemma hhdm_alloc_page: "hhdm_offset (fst (alloc_page p)) = hhdm_offset p"
  using hhdm_alloc_pages[of p 0] by (auto simp: alloc_page_def split: prod.splits option.splits)

lemma hhdm_pmm_alloc: "hhdm_offset (fst (pmm_alloc p r)) = hhdm_offset p"
  by (cases r) (simp_all add: alloc_contiguous_def hhdm_alloc_pages hhdm_alloc_page)

lemma pmm_alloc_post:
  assumes "pmm_ok p" "request_order r \<le> MAX_ORDER" "pmm_alloc p r = (p', x)"
  shows "pmm_post p (request_order r) p' x"
proof (cases r)
  case (Pages n)
  then show ?thesis using assms alloc_pages_post[of p n p' x] by simp
next
  case Page
  then show ?thesis using assms alloc_page_post[of p p' x] by simp
next
  case (Contiguous n)
  show ?thesis
  proof (cases "n = 0")
    case True
    then have "p' = p" "x = None" using assms(3) Contiguous by (simp_all add: alloc_contiguous_def)
    then show ?thesis using assms(1) by (simp add: pmm_post_def)
  next
    case False
    then show ?thesis
      using assms Contiguous alloc_pages_post[of p "contiguous_order n 0" p' x] by (simp add: alloc_contiguous_def)
  qed
qed

lemma free_pages_post:
  assumes "pmm_ok p" "block_ok (hhdm_offset p) a n" "block_range a n \<inter> pmm_avail p = {}"
  shows "\<exists>p'. free_pages p a n = Some p' \<and> pmm_ok p' \<and> pmm_avail p' = pmm_avail p \<union> block_range a n
    \<and> hhdm_offset p' = hhdm_offset p \<and> count_slack (allocator p') = count_slack (allocator p)"
proof -
  have "free_post (hhdm_offset p) (allocator p) a n (buddy_free_pages (hhdm_offset p) (allocator p) a n)"
    using assms by (intro buddy_free_contract) (auto simp: pmm_ok_def pmm_avail_def)
  then obtain st where "buddy_free_pages (hhdm_offset p) (allocator p) a n = Some st"
    "buddy_ok (hhdm_offset p) st" "count_slack st = count_slack (allocator p)"
    "free_memory (hhdm_offset p) st = free_memory (hhdm_offset p) (allocator p) \<union> block_range a n"
    by (auto simp: free_post_def)
  then show ?thesis
    using assms by (auto simp: free_pages_def pmm_ok_def pmm_avail_def boot_part_def split: option.splits)
qed

interpretation pmm: block_allocator pmm_alloc free_pages request_order MAX_ORDER pmm_avail block_range
  "\<lambda>p. block_ok (hhdm_offset p)" pmm_ok
proof unfold_locales
  fix p p' r a n x
  show "pmm_ok p \<Longrightarrow> request_order r \<le> MAX_ORDER \<Longrightarrow> pmm_alloc p r = (p', Some a) \<Longrightarrow>
      pmm_ok p' \<and> block_ok (hhdm_offset p') a (request_order r) \<and>
      block_range a (request_order r) \<subseteq> pmm_avail p \<and> pmm_avail p' \<subseteq> pmm_avail p - block_range a (request_order r)"
    using pmm_alloc_post[of p r p' "Some a"] by (simp add: pmm_post_def)
  show "pmm_ok p \<Longrightarrow> request_order r \<le> MAX_ORDER \<Longrightarrow> pmm_alloc p r = (p', None) \<Longrightarrow>
      pmm_ok p' \<and> pmm_avail p' = pmm_avail p"
    using pmm_alloc_post[of p r p' None] by (simp add: pmm_post_def)
  show "pmm_ok p \<Longrightarrow> pmm_alloc p r = (p', x) \<Longrightarrow> block_ok (hhdm_offset p') = block_ok (hhdm_offset p)"
    using hhdm_pmm_alloc[of p r] by simp
  show "pmm_ok p \<Longrightarrow> block_ok (hhdm_offset p) a n \<Longrightarrow> block_range a n \<inter> pmm_avail p = {} \<Longrightarrow>
      \<exists>p'. free_pages p a n = Some p' \<and> pmm_ok p' \<and> pmm_avail p' = pmm_avail p \<union> block_range a n \<and>
        block_ok (hhdm_offset p') = block_ok (hhdm_offset p)"
    using free_pages_post[of p a n] by auto
qed

end
