(* ===== verification/PhysBoot.thy ===== *)
theory PhysBoot
  imports PhysMem
begin

text \<open>
  The boot-time part of the physical memory manager: the scan of the memory map
  establishes the manager's invariant, and the properties of the manager from
  boot on.
\<close>

section \<open>Selection sort\<close>

lemma max_index_spec:
  assumes "i < length rs"
  shows "i \<le> max_index rs i \<and> max_index rs i < length rs
    \<and> (\<forall>j. i \<le> j \<longrightarrow> j < length rs \<longrightarrow> snd (rs ! j) \<le> snd (rs ! max_index rs i))"
proof -
  let ?f = "\<lambda>max_j j. if snd (rs ! max_j) < snd (rs ! j) then j else max_j"
  have "i \<le> foldl ?f i [i + 1..<n] \<and> foldl ?f i [i + 1..<n] < n
    \<and> (\<forall>j. i \<le> j \<longrightarrow> j < n \<longrightarrow> snd (rs ! j) \<le> snd (rs ! foldl ?f i [i + 1..<n]))"
    if "i < n" for n
    using that
  proof (induction n)
    case (Suc n)
    show ?case
    proof (cases "i = n")
      case False
      then have IH: "i \<le> foldl ?f i [i + 1..<n]" "foldl ?f i [i + 1..<n] < n"
        "\<forall>j. i \<le> j \<longrightarrow> j < n \<longrightarrow> snd (rs ! j) \<le> snd (rs ! foldl ?f i [i + 1..<n])"
        using Suc by auto
      have "[i + 1..<Suc n] = [i + 1..<n] @ [n]" using False Suc.prems by simp
      then show ?thesis using IH by (auto simp: less_Suc_eq not_less elim!: order_trans)
    qed (auto simp: less_Suc_eq)
  qed simp
  then show ?thesis using assms by (simp add: max_index_def)
qed

lemma sort_step_mset: "i < length rs \<Longrightarrow> mset (sort_step rs i) = mset rs"
  using max_index_spec[of i rs] mset_swap[of "max_index rs i" rs i]
  by (simp add: sort_step_def swap_def Let_def)

lemma sort_step_length [simp]: "length (sort_step rs i) = length rs"
  by (simp add: sort_step_def swap_def Let_def)

lemma sort_step_nth:
  assumes "i < length rs" "j < length rs"
  shows "sort_step rs i ! j = (if j = i then rs ! max_index rs i
    else if j = max_index rs i then rs ! i else rs ! j)"
  using assms max_index_spec[of i rs] by (auto simp: sort_step_def swap_def Let_def nth_list_update)

text \<open>After \<open>k\<close> rounds every element of the first \<open>k\<close> is at least every element behind it.\<close>

lemma sort_rounds:
  assumes "k \<le> length rs"
  shows "mset (foldl sort_step rs [0..<k]) = mset rs \<and>
    (\<forall>a < k. \<forall>b. a < b \<longrightarrow> b < length rs \<longrightarrow>
       snd (foldl sort_step rs [0..<k] ! b) \<le> snd (foldl sort_step rs [0..<k] ! a))"
  using assms
proof (induction k)
  case (Suc k)
  let ?xs = "foldl sort_step rs [0..<k]"
  have IH: "mset ?xs = mset rs" "\<And>a b. a < k \<Longrightarrow> a < b \<Longrightarrow> b < length rs \<Longrightarrow> snd (?xs ! b) \<le> snd (?xs ! a)"
    using Suc by auto
  have len: "length ?xs = length rs" using IH(1) by (rule mset_eq_length)
  have k: "k < length ?xs" using Suc.prems len by simp
  note m = max_index_spec[OF k]
  have "snd (sort_step ?xs k ! b) \<le> snd (sort_step ?xs k ! a)" if "a < Suc k" "a < b" "b < length rs" for a b
  proof (cases "a = k")
    case True
    then show ?thesis using that m k len by (simp add: sort_step_nth)
  next
    case False
    then have "a < k" using that by simp
    moreover have "a \<noteq> max_index ?xs k" using m \<open>a < k\<close> by auto
    ultimately show ?thesis
      using that m k len IH(2)[of a] by (auto simp: sort_step_nth)
  qed
  then show ?case using IH(1) sort_step_mset[OF k] by simp
qed simp

lemma selection_sort_mset: "mset (selection_sort rs) = mset rs"
  using sort_rounds[of "length rs" rs] by (simp add: selection_sort_def)

lemma selection_sort_sorted: "sorted_wrt (\<lambda>x y. snd y \<le> snd x) (selection_sort rs)"
proof -
  have "length (selection_sort rs) = length rs" using selection_sort_mset by (rule mset_eq_length)
  then show ?thesis
    using sort_rounds[of "length rs" rs] by (simp add: selection_sort_def sorted_wrt_iff_nth_less)
qed

lemma sorted_wrt_perm:
  assumes "\<And>x y. R x y \<Longrightarrow> R y x"
  shows "mset ys = mset xs \<Longrightarrow> sorted_wrt R xs \<Longrightarrow> sorted_wrt R ys"
proof (induction xs arbitrary: ys)
  case (Cons x xs)
  then obtain as bs where ys: "ys = as @ x # bs"
    by (metis list.set_intros(1) set_mset_mset split_list)
  with Cons.prems have m: "mset (as @ bs) = mset xs" by simp
  then have "sorted_wrt R (as @ bs)" using Cons by simp
  moreover have "set (as @ bs) = set xs" using m by (rule mset_eq_setD)
  ultimately show ?case using Cons.prems(2) assms unfolding ys sorted_wrt_append by auto
qed simp

section \<open>The boot scan\<close>

definition candidate :: "MapEntry \<Rightarrow> bool" where
  "candidate e \<longleftrightarrow> entry_usable e \<and> fst (entry_span e) < snd (entry_span e) \<and> 0x100000 \<le> fst (entry_span e)"

definition entry_region :: "MapEntry \<Rightarrow> usize \<times> usize" where
  "entry_region e = (fst (entry_span e), (snd (entry_span e) - fst (entry_span e)) div PAGE_SIZE)"

lemma collect_all:
  "length rs \<le> MAX_REGIONS \<Longrightarrow> fold collect_entry mm rs =
     rs @ take (MAX_REGIONS - length rs) (map entry_region (filter candidate mm))"
proof (induction mm arbitrary: rs)
  case (Cons e mm)
  show ?case
  proof (cases "candidate e \<and> length rs < MAX_REGIONS")
    case True
    then have "collect_entry e rs = rs @ [entry_region e]"
      by (simp add: collect_entry_def candidate_def entry_region_def split_beta)
    then show ?thesis using True Cons.IH[of "rs @ [entry_region e]"] by (simp add: take_Cons')
  next
    case False
    then have "collect_entry e rs = rs"
      by (auto simp: collect_entry_def candidate_def split_beta)
    then show ?thesis using False Cons by auto
  qed
qed simp

definition region_range :: "usize \<times> usize \<Rightarrow> nat set" where
  "region_range r = {unat (fst r) ..< unat (fst r + snd r * PAGE_SIZE)}"

definition region_valid :: "usize \<Rightarrow> usize \<times> usize \<Rightarrow> bool" where
  "region_valid off r \<longleftrightarrow> aligned 12 (fst r) \<and> aligned 12 (fst r + snd r * PAGE_SIZE) \<and>
     unat (fst r) \<le> unat (fst r + snd r * PAGE_SIZE) \<and> unat off + unat (fst r + snd r * PAGE_SIZE) \<le> 2 ^ 64"

lemma entry_region_valid:
  assumes "hhdm_ok off" "aligned 12 (entry_base e)" "aligned 12 (entry_length e)"
    and "unat off + unat (entry_base e) + unat (entry_length e) \<le> 2 ^ 64"
  shows "region_valid off (entry_region e)" "region_range (entry_region e) = entry_range e"
proof -
  let ?b = "entry_base e" and ?l = "entry_length e"
  have le: "unat ?b + unat ?l \<le> 2 ^ 47" using hhdm_room[OF assms(1)] assms(4) by (simp add: add.assoc)
  have sum: "unat (?b + ?l) = unat ?b + unat ?l" using le by (simp add: unat_word_ariths)
  then have al: "aligned 12 (?b + ?l)" using assms(2,3) by (simp add: aligned_def)
  have up: "align_up w PAGE_SIZE = w" if "aligned 12 w" "unat w \<le> 2 ^ 47" for w :: usize
    using align_up_aligned[of w 12] that by (simp add: PAGE_SIZE_def)
  have span: "entry_span e = (?b, ?b + ?l)"
    using up[OF assms(2)] up[OF al] le sum by (simp add: entry_span_def)
  have "?l div PAGE_SIZE * PAGE_SIZE = ?l"
  proof -
    have "unat (?l div PAGE_SIZE * PAGE_SIZE) = unat ?l div 4096 * 4096 mod 2 ^ 64"
      by (simp add: unat_word_ariths unat_div PAGE_SIZE_def mod_simps)
    also have "\<dots> = unat ?l" using assms(3) unat_lt2p[of ?l] by (simp add: aligned_def)
    finally show ?thesis by (simp only: unat_eq_unat_iff)
  qed
  then have r: "fst (entry_region e) = ?b" "?b + snd (entry_region e) * PAGE_SIZE = ?b + ?l"
    by (simp_all add: entry_region_def span)
  show "region_valid off (entry_region e)" "region_range (entry_region e) = entry_range e"
    using assms al sum unfolding region_valid_def region_range_def entry_range_def r by simp_all
qed

lemma boot_add_regions:
  assumes "length rs \<le> MAX_REGIONS"
  defines "b \<equiv> foldl (\<lambda>b r. boot_add_region b (fst r) (snd r)) BootstrapAllocator_new rs"
  shows "region_count b = length rs \<and> length (regions b) = MAX_REGIONS \<and>
    (\<forall>i < length rs. regions b ! i = \<lparr> next_page = fst (rs ! i), end_page = fst (rs ! i) + snd (rs ! i) * PAGE_SIZE \<rparr>)"
  using assms(1) unfolding b_def
proof (induction rs rule: rev_induct)
  case Nil
  then show ?case by (simp add: BootstrapAllocator_new_def)
next
  case (snoc r rs)
  then show ?case by (auto simp: boot_add_region_def nth_append less_Suc_eq nth_list_update)
qed

definition boot_regions :: "MapEntry list \<Rightarrow> (usize \<times> usize) list" where
  "boot_regions mm = selection_sort (fold collect_entry mm [])"

lemma boot_regions_ok:
  assumes "hhdm_ok off" "map_ok off mm"
  shows "length (boot_regions mm) \<le> MAX_REGIONS"
    and "\<And>r. r \<in> set (boot_regions mm) \<Longrightarrow> region_valid off r \<and> region_range r \<subseteq> map_memory mm"
    and "sorted_wrt (\<lambda>x y. region_range x \<inter> region_range y = {}) (boot_regions mm)"
proof -
  let ?cs = "filter candidate mm"
  have m: "mset (boot_regions mm) = mset (take MAX_REGIONS (map entry_region ?cs))"
    by (simp add: boot_regions_def selection_sort_mset collect_all)
  from mset_eq_length[OF m] show "length (boot_regions mm) \<le> MAX_REGIONS" by simp
  have e: "region_valid off (entry_region e) \<and> region_range (entry_region e) = entry_range e \<and> entry_usable e"
    if "e \<in> set ?cs" for e
    using that assms entry_region_valid[of off e] by (auto simp: map_ok_def candidate_def)
  show "region_valid off r \<and> region_range r \<subseteq> map_memory mm" if "r \<in> set (boot_regions mm)" for r
  proof -
    from that have "r \<in> set (map entry_region ?cs)"
      unfolding mset_eq_setD[OF m] by (rule in_set_takeD)
    then obtain x where "x \<in> set ?cs" "r = entry_region x" by auto
    then show ?thesis using e[of x] by (auto simp: map_memory_def)
  qed
  have "sorted_wrt (\<lambda>x y. entry_usable x \<longrightarrow> entry_usable y \<longrightarrow> entry_range x \<inter> entry_range y = {}) ?cs"
    using assms(2) by (intro sorted_wrt_filter) (simp add: map_ok_def)
  with e have "sorted_wrt (\<lambda>x y. region_range (entry_region x) \<inter> region_range (entry_region y) = {}) ?cs"
    unfolding sorted_wrt_iff_nth_less by (metis nth_mem order.strict_trans)
  then have s: "sorted_wrt (\<lambda>x y. region_range x \<inter> region_range y = {}) (take MAX_REGIONS (map entry_region ?cs))"
    by (simp add: sorted_wrt_map sorted_wrt_take)
  show "sorted_wrt (\<lambda>x y. region_range x \<inter> region_range y = {}) (boot_regions mm)"
    by (rule sorted_wrt_perm[OF _ m s]) (simp add: Int_commute)
qed

lemma boot_allocator_ok:
  assumes "length rs \<le> MAX_REGIONS" "\<And>r. r \<in> set rs \<Longrightarrow> region_valid off r"
    and "sorted_wrt (\<lambda>x y. region_range x \<inter> region_range y = {}) rs"
  defines "b \<equiv> foldl (\<lambda>b r. boot_add_region b (fst r) (snd r)) BootstrapAllocator_new rs"
  shows "boot_ok off b \<and> boot_memory b = (\<Union>r \<in> set rs. region_range r)"
proof -
  note a = boot_add_regions[OF assms(1), folded b_def]
  have t: "region_tail (regions b ! i) = region_range (rs ! i)" "region_ok off (regions b ! i)" if "i < length rs" for i
    using that a assms(2)[of "rs ! i"] by (simp_all add: region_tail_def region_range_def region_ok_def region_valid_def)
  have "region_range (rs ! i) \<inter> region_range (rs ! j) = {}" if "i < length rs" "j < length rs" "i \<noteq> j" for i j
    using that assms(3) unfolding sorted_wrt_iff_nth_less by (metis Int_commute linorder_neqE_nat)
  then have "boot_ok off b" using a t assms(1) by (simp add: boot_ok_def)
  moreover have "boot_memory b = (\<Union>i < length rs. region_range (rs ! i))"
    using a t(1) unfolding boot_memory_def by (intro SUP_cong) auto
  moreover have "\<dots> = (\<Union>r \<in> set rs. region_range r)" by (auto simp: set_conv_nth)
  ultimately show ?thesis by simp
qed

lemma buddy_ok_empty:
  assumes "free_lists st = replicate (MAX_ORDER + 1) []"
  shows "buddy_ok off st" "free_memory off st = {}" "listed_pages st = 0"
proof -
  have l: "free_lists st ! p = []" if "p \<le> MAX_ORDER" for p
    using that by (subst assms) (simp del: replicate_Suc add: nth_replicate)
  then have "free_blocks off st = {}" by (auto simp: free_blocks_def)
  then show "buddy_ok off st" "free_memory off st = {}"
    using assms l by (simp_all add: buddy_ok_def free_memory_def disjoint_blocks_def)
  show "listed_pages st = 0" using l by (simp add: listed_pages_def)
qed

lemma pmm_init_ok:
  assumes "hhdm_ok off" "map_ok off mm"
  defines "p \<equiv> pmm_init (Pmm_boot off) mm"
  shows "pmm_ok p" "pmm_avail p \<subseteq> map_memory mm" "hhdm_offset p = off"
    "count_slack (allocator p) = snd (fold scan_entry mm (0, 0))"
proof -
  let ?b = "foldl (\<lambda>b r. boot_add_region b (fst r) (snd r)) BootstrapAllocator_new (boot_regions mm)"
  note r = boot_regions_ok[OF assms(1,2)]
  note b = boot_allocator_ok[where off = off, OF r(1) _ r(3)]
  have p: "hhdm_offset p = off" "bootstrap p = Some ?b"
    "free_lists (allocator p) = replicate (MAX_ORDER + 1) []"
    "free_pages_count (allocator p) = snd (fold scan_entry mm (0, 0))"
    by (simp_all add: p_def pmm_init_def Pmm_boot_def boot_regions_def BuddyAllocator_new_def Let_def split_beta)
  note e = buddy_ok_empty(1,2)[OF p(3), of off] buddy_ok_empty(3)[OF p(3)]
  have "boot_ok off ?b" "boot_memory ?b = (\<Union>r \<in> set (boot_regions mm). region_range r)" using b r(2) by auto
  moreover from this(2) have "boot_memory ?b \<subseteq> map_memory mm" using r(2) by blast
  ultimately show "pmm_ok p" "pmm_avail p \<subseteq> map_memory mm" "hhdm_offset p = off"
    "count_slack (allocator p) = snd (fold scan_entry mm (0, 0))"
    using p e assms(1) by (simp_all add: pmm_ok_def pmm_avail_def boot_part_def count_slack_def)
qed

lemma count_slack_reach:
  assumes "client_reach pmm_alloc free_pages request_order MAX_ORDER p0 p outs" "pmm_ok p0"
  shows "count_slack (allocator p) = count_slack (allocator p0)"
  using assms(1)
proof (induction rule: client_reach.induct)
  case (obtain_block s outs r s' a)
  then show ?case
    using pmm.reach_inv[OF _ assms(2)] pmm_alloc_post[of s r s' "Some a"] by (auto simp: pmm.client_inv_def pmm_post_def)
next
  case (obtain_fails s outs r s')
  then show ?case
    using pmm.reach_inv[OF _ assms(2)] pmm_alloc_post[of s r s' None] by (auto simp: pmm.client_inv_def pmm_post_def)
next
  case (release_block s outs a n s')
  then have i: "pmm.client_inv p0 s outs" using pmm.reach_inv[OF _ assms(2)] by blast
  from free_pages_post[OF pmm.inv_held[OF i release_block.hyps(2)]] show ?case
    using release_block.hyps(3) release_block.IH by force
qed simp

lemma free_walk_found: "v \<in> set xs \<Longrightarrow> hops + length xs \<le> 1000000 \<Longrightarrow> free_walk hops xs v"
  by (induction hops xs v rule: free_walk.induct) auto

section \<open>An example machine\<close>

definition demo_map :: "MapEntry list" where
  "demo_map = [\<lparr> entry_base = 0, entry_length = 0x9F000, entry_usable = True \<rparr>,
               \<lparr> entry_base = 0x100000, entry_length = 0x800000, entry_usable = True \<rparr>,
               \<lparr> entry_base = 0x900000, entry_length = 0x1000, entry_usable = False \<rparr>]"

definition demo_pmm :: Pmm where "demo_pmm = pmm_init (Pmm_boot 0xFFFF800000000000) demo_map"

lemma demo_ok: "hhdm_ok 0xFFFF800000000000" "map_ok 0xFFFF800000000000 demo_map"
  by (simp_all add: hhdm_ok_def map_ok_def demo_map_def aligned_def entry_range_def)

lemma demo_bootstrap:
  "bootstrap demo_pmm = Some \<lparr> regions = (replicate 16 \<lparr> next_page = 0, end_page = 0 \<rparr>)[0 :=
     \<lparr> next_page = 0x100000, end_page = 0x900000 \<rparr>], region_count = 1 \<rparr>"
  by (simp add: demo_pmm_def pmm_init_def demo_map_def collect_entry_def entry_span_def align_up_def PAGE_SIZE_def
      selection_sort_def sort_step_def max_index_def boot_add_region_def BootstrapAllocator_new_def MAX_REGIONS_def
      Let_def split_beta)

lemma demo_lists: "free_lists (allocator demo_pmm) = replicate 11 []" "hhdm_offset demo_pmm = 0xFFFF800000000000"
  by (simp_all add: demo_pmm_def pmm_init_def Pmm_boot_def BuddyAllocator_new_def MAX_ORDER_def Let_def split_beta)

lemma demo_alloc: "snd (pmm_alloc demo_pmm (Pages 2)) = Some 0x100000"
  by (simp add: alloc_pages_def demo_lists buddy_alloc_pages.simps MAX_ORDER_def demo_bootstrap boot_alloc_block_def
      region_fit_def PAGE_SIZE_def align_up_def checked_add_def Let_def split_beta)

lemma demo_reach:
  "client_reach pmm_alloc free_pages request_order MAX_ORDER (pmm_init (Pmm_boot 0xFFFF800000000000) demo_map)
     (fst (pmm_alloc demo_pmm (Pages 2))) [(0x100000, 2)]"
proof -
  have a: "pmm_alloc demo_pmm (Pages 2) = (fst (pmm_alloc demo_pmm (Pages 2)), Some 0x100000)"
    using demo_alloc by (metis prod.collapse)
  have "client_reach pmm_alloc free_pages request_order MAX_ORDER demo_pmm (fst (pmm_alloc demo_pmm (Pages 2)))
      [(0x100000, request_order (Pages 2))]"
  proof (rule client_reach.obtain_block[where alloc = pmm_alloc and r = "Pages 2"])
    show "request_order (Pages 2) \<le> MAX_ORDER" by (simp add: MAX_ORDER_def)
  qed (rule client_reach.start, rule a)
  then show ?thesis by (simp add: demo_pmm_def)
qed

definition demo_buddy :: BuddyAllocator where
  "demo_buddy = free_block_unchecked 0xFFFF800000000000 BuddyAllocator_new 0x200000 1"

lemma demo_buddy_ok: "buddy_ok 0xFFFF800000000000 demo_buddy"
proof -
  have e: "free_lists BuddyAllocator_new = replicate (MAX_ORDER + 1) []" by (simp add: BuddyAllocator_new_def)
  show ?thesis
    unfolding demo_buddy_def
    by (rule buddy_push(1)[OF buddy_ok_empty(1)[OF e] demo_ok(1)])
      (simp_all add: buddy_ok_empty(2)[OF e] block_ok_def aligned_def MAX_ORDER_def)
qed

lemma demo_buddy_alloc: "snd (buddy_alloc_pages 0xFFFF800000000000 demo_buddy 0) = Some 0x200000"
  by (simp add: buddy_alloc_pages.simps[of _ _ 0] buddy_alloc_pages.simps[of _ _ "Suc 0"] demo_buddy_def
      free_block_unchecked_def BuddyAllocator_new_def MAX_ORDER_def phys_to_virt_def virt_to_phys_def Let_def)

section \<open>Properties\<close>

text \<open>C3: from boot on, whatever sequence of allocations and releases a client performs, the blocks
  it holds are aligned to their size, lie in usable memory of the boot map and do not overlap, and
  every one of them can be released without a panic.\<close>

theorem pmm_blocks_disjoint:
  assumes "hhdm_ok off" "map_ok off mm"
    and "client_reach pmm_alloc free_pages request_order MAX_ORDER (pmm_init (Pmm_boot off) mm) p outs"
  shows "sorted_wrt (\<lambda>x y. block_range (fst x) (snd x) \<inter> block_range (fst y) (snd y) = {}) outs \<and>
    (\<forall>b \<in> set outs. aligned (snd b + 12) (fst b) \<and> block_range (fst b) (snd b) \<subseteq> map_memory mm \<and>
       (\<exists>p'. free_pages p (fst b) (snd b) = Some p'))"
proof -
  note i = pmm_init_ok[OF assms(1,2)]
  have inv: "pmm.client_inv (pmm_init (Pmm_boot off) mm) p outs"
    using assms(3) i(1) by (rule pmm.reach_inv)
  have "aligned (n + 12) a \<and> block_range a n \<subseteq> map_memory mm \<and> (\<exists>p'. free_pages p a n = Some p')"
    if "(a, n) \<in> set outs" for a n
  proof (intro conjI)
    show "aligned (n + 12) a" using pmm.inv_held(2)[OF inv that] by (simp add: block_ok_def)
    show "block_range a n \<subseteq> map_memory mm" using pmm.inv_origin[OF inv that] i(2) by simp
    show "\<exists>p'. free_pages p a n = Some p'" using pmm.inv_release[OF inv that] by blast
  qed
  then have "\<forall>b \<in> set outs. aligned (snd b + 12) (fst b) \<and> block_range (fst b) (snd b) \<subseteq> map_memory mm \<and>
       (\<exists>p'. free_pages p (fst b) (snd b) = Some p')" by (metis prod.collapse)
  then show ?thesis using inv by (simp add: pmm.client_inv_def)
qed

theorem pmm_blocks_disjoint_witness:
  "aligned 14 (0x100000 :: usize) \<and> block_range 0x100000 2 \<subseteq> map_memory demo_map \<and>
     (\<exists>p'. free_pages (fst (pmm_alloc demo_pmm (Pages 2))) 0x100000 2 = Some p')"
  using pmm_blocks_disjoint[OF demo_ok demo_reach] by simp

text \<open>C24: the buddy allocator works on the set of free memory exactly: an allocation returns a block
  of free memory, aligned to its size, and removes exactly that block from the free memory; it fails
  only when no list of the requested order or above holds a block; and releasing the block again
  succeeds and restores the free memory.\<close>

theorem buddy_alloc_free_exact:
  assumes "hhdm_ok off" "buddy_ok off st" "buddy_alloc_pages off st order = (st', r)"
  shows "case r of
      None \<Rightarrow> st' = st \<and> (\<forall>p. order \<le> p \<and> p \<le> MAX_ORDER \<longrightarrow> free_lists st ! p = [])
    | Some a \<Rightarrow> buddy_ok off st' \<and> aligned (order + 12) a \<and> block_range a order \<subseteq> free_memory off st \<and>
        free_memory off st' = free_memory off st - block_range a order \<and>
        (\<exists>st''. buddy_free_pages off st' a order = Some st'' \<and> buddy_ok off st'' \<and>
           free_memory off st'' = free_memory off st)"
proof (cases r)
  case (Some a)
  have c: "buddy_ok off st'" "block_ok off a order" "block_range a order \<subseteq> free_memory off st"
    "free_memory off st' = free_memory off st - block_range a order"
    using buddy_alloc_contract[OF assms(2,1,3)] Some by (simp_all add: alloc_post_def)
  then have "free_post off st' a order (buddy_free_pages off st' a order)"
    by (intro buddy_free_contract[OF _ assms(1)]) auto
  then show ?thesis using c Some by (auto simp: free_post_def block_ok_def)
qed (use buddy_alloc_contract[OF assms(2,1,3)] in \<open>simp add: alloc_post_def\<close>)

theorem buddy_alloc_free_exact_witness:
  "case Some (0x200000 :: usize) of
      None \<Rightarrow> fst (buddy_alloc_pages 0xFFFF800000000000 demo_buddy 0) = demo_buddy \<and>
        (\<forall>p. 0 \<le> p \<and> p \<le> MAX_ORDER \<longrightarrow> free_lists demo_buddy ! p = [])
    | Some a \<Rightarrow> buddy_ok 0xFFFF800000000000 (fst (buddy_alloc_pages 0xFFFF800000000000 demo_buddy 0)) \<and>
        aligned (0 + 12) a \<and> block_range a 0 \<subseteq> free_memory 0xFFFF800000000000 demo_buddy \<and>
        free_memory 0xFFFF800000000000 (fst (buddy_alloc_pages 0xFFFF800000000000 demo_buddy 0)) =
          free_memory 0xFFFF800000000000 demo_buddy - block_range a 0 \<and>
        (\<exists>st''. buddy_free_pages 0xFFFF800000000000 (fst (buddy_alloc_pages 0xFFFF800000000000 demo_buddy 0)) a 0 =
             Some st'' \<and> buddy_ok 0xFFFF800000000000 st'' \<and>
           free_memory 0xFFFF800000000000 st'' = free_memory 0xFFFF800000000000 demo_buddy)"
  by (rule buddy_alloc_free_exact[OF demo_ok(1) demo_buddy_ok])
    (metis demo_buddy_alloc prod.collapse)

text \<open>Releasing a block that is already on the free list of its order is detected: the release
  panics, provided the list is within the walk's limit of a million blocks.\<close>

theorem double_free_panics:
  assumes "(a, order) \<in> free_blocks off st" "length (free_lists st ! order) \<le> 1000000"
  shows "buddy_free_pages off st a order = None"
proof -
  have "is_block_free off st a order"
    using assms free_walk_found[of "phys_to_virt off a" "free_lists st ! order" 0]
    by (simp add: is_block_free_def free_blocks_def)
  then show ?thesis by (simp add: buddy_free_pages.simps[of off st a order])
qed

theorem double_free_panics_witness:
  "buddy_free_pages 0xFFFF800000000000
     (BuddyAllocator_new\<lparr> free_lists := [[0xFFFF800000200000], [], [], [], [], [], [], [], [], [], []] \<rparr>) 0x200000 0 = None"
  by (rule double_free_panics) (simp_all add: free_blocks_def phys_to_virt_def)

text \<open>\<open>alloc_contiguous\<close> asks for the smallest power of two that covers the request, but only up
  to 1024 pages: the order it computes covers the request exactly when the request is at most 1024
  pages, so a larger request is answered with a block that is too small.\<close>

theorem contiguous_order_covers:
  "(unat n \<le> 2 ^ contiguous_order n 0 \<longleftrightarrow> unat n \<le> 1024)
   \<and> (\<forall>j < contiguous_order n 0. 2 ^ j < unat n) \<and> contiguous_order n 0 \<le> MAX_ORDER"
proof -
  let ?c = "contiguous_order n 0"
  note b = contiguous_order_bounds[of 0 n, simplified]
  have u: "unat (2 ^ j :: usize) = 2 ^ j" if "j \<le> 10" for j
    using that by (intro unat_pow2) simp
  have lt: "2 ^ j < unat n" if "j < ?c" for j
  proof -
    have "(2 ^ j :: usize) < n" "j \<le> 10" using b that by auto
    then show ?thesis using u[of j] by (simp only: word_less_nat_alt)
  qed
  have "unat n \<le> 2 ^ ?c \<longleftrightarrow> unat n \<le> 1024"
  proof (cases "?c < 10")
    case True
    then have "unat n \<le> 2 ^ ?c" using b u[of ?c] by (simp add: word_le_nat_alt)
    moreover have "(2 :: nat) ^ ?c \<le> 2 ^ 10" using b by (intro power_increasing) auto
    ultimately show ?thesis by simp
  next
    case False
    then have "?c = 10" using b by simp
    then show ?thesis by simp
  qed
  then show ?thesis using lt b by (simp add: MAX_ORDER_def)
qed

theorem contiguous_order_covers_witness:
  "(300 :: nat) \<le> 2 ^ contiguous_order 300 0 \<and> contiguous_order 300 0 = 9 \<and> (2 :: nat) ^ 8 < 300"
proof -
  have "contiguous_order 300 0 = 9" by (simp add: contiguous_order.simps)
  then show ?thesis using contiguous_order_covers[of 300] by simp
qed

text \<open>The free-page counter reported by \<open>stats\<close> exceeds the pages on the free lists, at every
  moment after boot, by the whole usable memory of the boot map: what the bump allocator hands out is
  never subtracted.\<close>

theorem stats_overcount:
  assumes "hhdm_ok off" "map_ok off mm"
    and "client_reach pmm_alloc free_pages request_order MAX_ORDER (pmm_init (Pmm_boot off) mm) p outs"
  shows "free_bytes (stats p) = (listed_pages (allocator p) + snd (fold scan_entry mm (0, 0))) * PAGE_SIZE"
proof -
  note i = pmm_init_ok[OF assms(1,2)]
  have "count_slack (allocator p) = snd (fold scan_entry mm (0, 0))"
    using count_slack_reach[OF assms(3) i(1)] i(4) by simp
  then have "free_pages_count (allocator p) = listed_pages (allocator p) + snd (fold scan_entry mm (0, 0))"
    by (simp add: count_slack_def algebra_simps)
  then show ?thesis by (simp add: stats_def buddy_stats_def)
qed

theorem stats_overcount_witness:
  "free_bytes (stats (fst (pmm_alloc demo_pmm (Pages 2)))) =
     (listed_pages (allocator (fst (pmm_alloc demo_pmm (Pages 2)))) + snd (fold scan_entry demo_map (0, 0))) * PAGE_SIZE"
  by (rule stats_overcount[OF demo_ok demo_reach])

text \<open>The boot scan hands the regions it collected to the bump allocator largest first, none lost
  and none added by the sort.\<close>

theorem boot_regions_sorted:
  "sorted_wrt (\<lambda>x y. snd y \<le> snd x) (selection_sort rs) \<and> mset (selection_sort rs) = mset rs"
  using selection_sort_sorted selection_sort_mset by blast

end
