(* ===== verification/Bridge.thy ===== *)
theory Bridge
  imports Prelude
begin

text \<open>
  The reader side of the brain bridge, kernel/src/bridge/types.rs and
  kernel/src/bridge/reader.rs: the page that userspace writes hints into, and the
  kernel's validation of them.  The page's atomic version is read once per call.
\<close>

section \<open>Data\<close>

datatype IntentType =
  Idle | Gaming | Coding | Rendering | Compiling | VideoEncoding | MLTraining | Browsing | VideoPlayback

datatype WorkloadType = CpuBound | IoBound | Mixed | MemoryBound | GpuBound

definition HINT_TIMEOUT_MS :: u64 where "HINT_TIMEOUT_MS = 5000"

definition MIN_CONFIDENCE :: u8 where "MIN_CONFIDENCE = 128"

text \<open>The fields of the shared page that the kernel reads.\<close>

record BrainBridge =
  bb_current_intent :: u8
  bb_expected_burst_sec :: u32
  bb_workload_type :: u8
  bb_confidence :: u8
  bb_predicted_cpu :: u8
  bb_predicted_memory :: u8
  bb_predicted_io :: u8
  bb_version :: u64
  bb_timestamp :: u64

record BrainBridgeSnapshot =
  current_intent :: IntentType
  expected_burst_sec :: u32
  workload_type :: WorkloadType
  predicted_cpu :: u8
  predicted_memory :: u8
  predicted_io :: u8
  confidence :: u8
  timestamp :: u64

record ReaderState =
  bridge_phys_addr :: usize
  last_read_version :: u64
  total_hints_read :: u64
  hints_rejected_confidence :: u64
  hints_rejected_timeout :: u64

section \<open>Operations\<close>

definition IntentType_from_u8 :: "u8 \<Rightarrow> IntentType" where
  "IntentType_from_u8 v =
     (if v = 0 then Idle else if v = 1 then Gaming else if v = 2 then Coding else if v = 3 then Rendering
      else if v = 4 then Compiling else if v = 5 then VideoEncoding else if v = 6 then MLTraining
      else if v = 7 then Browsing else if v = 8 then VideoPlayback else Idle)"

definition WorkloadType_from_u8 :: "u8 \<Rightarrow> WorkloadType" where
  "WorkloadType_from_u8 v =
     (if v = 0 then CpuBound else if v = 1 then IoBound else if v = 2 then Mixed
      else if v = 3 then MemoryBound else if v = 4 then GpuBound else Mixed)"

definition is_hint_valid :: "BrainBridge \<Rightarrow> u64 \<Rightarrow> bool" where
  "is_hint_valid b current_time_ms =
     (if bb_confidence b < MIN_CONFIDENCE then False
      else if HINT_TIMEOUT_MS < current_time_ms - bb_timestamp b then False
      else True)"

definition from_bridge :: "BrainBridge \<Rightarrow> BrainBridgeSnapshot" where
  "from_bridge b =
     \<lparr> current_intent = IntentType_from_u8 (bb_current_intent b),
       expected_burst_sec = bb_expected_burst_sec b,
       workload_type = WorkloadType_from_u8 (bb_workload_type b),
       predicted_cpu = bb_predicted_cpu b, predicted_memory = bb_predicted_memory b,
       predicted_io = bb_predicted_io b, confidence = bb_confidence b, timestamp = bb_timestamp b \<rparr>"

definition ReaderState_new :: ReaderState where
  "ReaderState_new = \<lparr> bridge_phys_addr = 0, last_read_version = 0, total_hints_read = 0,
     hints_rejected_confidence = 0, hints_rejected_timeout = 0 \<rparr>"

text \<open>\<open>reader::init\<close>; \<open>None\<close> is the failed alignment assertion.\<close>

definition reader_init :: "ReaderState \<Rightarrow> usize \<Rightarrow> ReaderState option" where
  "reader_init s phys_addr =
     (if phys_addr mod 4096 = 0 then Some (s\<lparr> bridge_phys_addr := phys_addr \<rparr>) else None)"

definition read_hints ::
  "ReaderState \<Rightarrow> BrainBridge \<Rightarrow> u64 \<Rightarrow> ReaderState \<times> BrainBridgeSnapshot option" where
  "read_hints s b current_time_ms =
     (if bridge_phys_addr s = 0 then (s, None)
      else if bb_version b \<le> last_read_version s then (s, None)
      else if bb_confidence b < MIN_CONFIDENCE then
        (s\<lparr> hints_rejected_confidence := hints_rejected_confidence s + 1,
            last_read_version := bb_version b \<rparr>, None)
      else if bb_timestamp b < current_time_ms \<and> HINT_TIMEOUT_MS < current_time_ms - bb_timestamp b then
        (s\<lparr> hints_rejected_timeout := hints_rejected_timeout s + 1,
            last_read_version := bb_version b \<rparr>, None)
      else
        (s\<lparr> last_read_version := bb_version b, total_hints_read := total_hints_read s + 1 \<rparr>,
         Some (from_bridge b)))"

section \<open>Properties\<close>

text \<open>A hint reaches the scheduler only when it is new, confident enough and at most five seconds
  old; and a page is delivered at most once: reading it again yields nothing.\<close>

theorem read_hints_fresh_once:
  assumes "read_hints s b now = (s', Some h)"
  shows "last_read_version s < bb_version b \<and> 128 \<le> unat (confidence h) \<and> h = from_bridge b
    \<and> unat now \<le> unat (timestamp h) + 5000 \<and> last_read_version s' = bb_version b
    \<and> snd (read_hints s' b now') = None"
proof -
  have "unat now \<le> unat (bb_timestamp b) + 5000"
    if "bb_timestamp b < now \<longrightarrow> \<not> HINT_TIMEOUT_MS < now - bb_timestamp b"
  proof (cases "bb_timestamp b < now")
    case True
    then have "unat (now - bb_timestamp b) = unat now - unat (bb_timestamp b)"
      by (intro unat_sub) (simp add: order_less_imp_le)
    then show ?thesis using that True by (simp add: HINT_TIMEOUT_MS_def word_less_nat_alt)
  qed (simp add: word_less_nat_alt not_less)
  then show ?thesis
    using assms
    by (auto simp: read_hints_def from_bridge_def MIN_CONFIDENCE_def word_less_nat_alt word_le_nat_alt not_less
        split: if_splits)
qed

definition demo_bridge :: BrainBridge where
  "demo_bridge = \<lparr> bb_current_intent = 4, bb_expected_burst_sec = 30, bb_workload_type = 0, bb_confidence = 200,
     bb_predicted_cpu = 90, bb_predicted_memory = 20, bb_predicted_io = 5, bb_version = 1, bb_timestamp = 1000 \<rparr>"

theorem read_hints_fresh_once_witness:
  "last_read_version (ReaderState_new\<lparr> bridge_phys_addr := 4096 \<rparr>) < bb_version demo_bridge
    \<and> 128 \<le> unat (confidence (from_bridge demo_bridge)) \<and> from_bridge demo_bridge = from_bridge demo_bridge
    \<and> unat (1500 :: u64) \<le> unat (timestamp (from_bridge demo_bridge)) + 5000
    \<and> last_read_version (fst (read_hints (ReaderState_new\<lparr> bridge_phys_addr := 4096 \<rparr>) demo_bridge 1500)) =
        bb_version demo_bridge
    \<and> snd (read_hints (fst (read_hints (ReaderState_new\<lparr> bridge_phys_addr := 4096 \<rparr>) demo_bridge 1500))
        demo_bridge 1510) = None"
proof (rule read_hints_fresh_once)
  show "read_hints (ReaderState_new\<lparr> bridge_phys_addr := 4096 \<rparr>) demo_bridge 1500 =
    (fst (read_hints (ReaderState_new\<lparr> bridge_phys_addr := 4096 \<rparr>) demo_bridge 1500),
     Some (from_bridge demo_bridge))"
    by (simp add: read_hints_def ReaderState_new_def demo_bridge_def MIN_CONFIDENCE_def HINT_TIMEOUT_MS_def)
qed

end
