(* ===== verification/Task.thy ===== *)
theory Task
  imports CapTypes IpcMessage Bridge OrdMap PhysBoot
begin

text \<open>
  Tasks, the task table and the kernel state: kernel/src/task/task.rs,
  kernel/src/task/statistics.rs and kernel/src/timer/mod.rs.  A task's raw
  machine areas (kernel stack, kernel context, FPU area) are not represented; its
  page table is known by its physical address.  The kernel state collects the statics of the modules modelled
  here; a handler that runs takes it and returns it.
\<close>

section \<open>Tasks\<close>

record Context =
  rsp :: u64
  rbp :: u64
  rax :: u64
  rbx :: u64
  rcx :: u64
  rdx :: u64
  rsi :: u64
  rdi :: u64
  r8 :: u64
  r9 :: u64
  r10 :: u64
  r11 :: u64
  r12 :: u64
  r13 :: u64
  r14 :: u64
  r15 :: u64
  rip :: u64
  rflags :: u64
  cs :: u64
  ss :: u64

datatype SandboxLevel = System | Trusted | Untrusted | Confined

record Credentials =
  uid :: u32
  gid :: u32
  sandbox_level :: SandboxLevel

record TaskStatistics =
  context_switches :: u64
  syscalls :: u64
  cpu_cycles :: u64
  created_at_ms :: u64
  total_runtime_ms :: u64
  ipc_sent :: u64
  ipc_received :: u64
  ipc_replied :: u64
  ipc_blocks :: u64
  page_faults :: u64
  heap_allocations :: u64
  heap_frees :: u64
  deadline_misses :: u64
  priority_boosts :: u64
  voluntary_yields :: u64
  preemptions :: u64

datatype TaskState =
    Runnable
  | Running
  | BlockedOnReceive
  | BlockedOnSend TaskId
  | WaitingForReply u64
  | Exited

type_synonym Priority = u8

definition PRIORITY_NORMAL :: Priority where "PRIORITY_NORMAL = 128"
definition PRIORITY_HIGH :: Priority where "PRIORITY_HIGH = 192"
definition PRIORITY_REALTIME :: Priority where "PRIORITY_REALTIME = 255"

record Task =
  task_id :: TaskId
  state :: TaskState
  page_table_phys :: u64
  ctx :: Context
  recv_queue :: MessageQueue
  ipc_reply :: "IpcMessage option"
  blocked_on :: "TaskId option"
  capabilities :: "CapabilityId list"
  credentials :: Credentials
  priority :: Priority
  base_priority :: Priority
  inherited_priority :: Priority
  deadline_ms :: "u64 option"
  cpu_time_used_ms :: u64
  last_scheduled_ms :: u64
  semantic_priority :: u8
  is_background_ai :: bool
  task_stats :: TaskStatistics
  interrupt_pending :: bool
  name :: "u8 list"

definition Context_zero :: Context where
  "Context_zero =
     \<lparr> rsp = 0, rbp = 0, rax = 0, rbx = 0, rcx = 0, rdx = 0, rsi = 0, rdi = 0, r8 =
     0, r9 = 0, r10 = 0, r11 = 0, r12 = 0, r13 = 0, r14 = 0, r15 = 0, rip = 0, rflags =
     0x202, cs = 0x08, ss = 0x10 \<rparr>"

definition TaskStatistics_zero :: TaskStatistics where
  "TaskStatistics_zero =
     \<lparr> context_switches = 0, syscalls = 0, cpu_cycles = 0, created_at_ms = 0,
     total_runtime_ms = 0, ipc_sent = 0, ipc_received = 0, ipc_replied = 0, ipc_blocks = 0,
     page_faults = 0, heap_allocations = 0, heap_frees = 0, deadline_misses = 0,
     priority_boosts = 0, voluntary_yields = 0, preemptions = 0 \<rparr>"

definition user_stack_top :: u64 where "user_stack_top = 0x00007FFFFFFFF000"

text \<open>\<open>Task::new\<close>: zeroed memory, then the fields written one by one.\<close>

definition Task_new :: "u64 \<Rightarrow> TaskId \<Rightarrow> u64 \<Rightarrow> Task" where
  "Task_new now tid entry_point =
     \<lparr> task_id = tid, state = Runnable, page_table_phys = 0,
       ctx =
         \<lparr> rsp = user_stack_top, rbp = user_stack_top, rax = 0, rbx = 0, rcx = 0, rdx
         = 0, rsi = 0, rdi = 0, r8 = 0, r9 = 0, r10 = 0, r11 = 0, r12 = 0, r13 = 0, r14 = 0,
         r15 = 0, rip = entry_point, rflags = 0x202, cs = 0x23, ss = 0x1B \<rparr>,
       recv_queue = init_at_ptr \<lparr> queue = [], max_size = 0 \<rparr>,
       ipc_reply = None, blocked_on = None, capabilities = [],
       credentials = \<lparr> uid = 0, gid = 0, sandbox_level = Untrusted \<rparr>,
       priority = PRIORITY_NORMAL, base_priority = PRIORITY_NORMAL, inherited_priority = 0,
       deadline_ms = None, cpu_time_used_ms = 0, last_scheduled_ms = 0,
       semantic_priority = 128, is_background_ai = False,
       task_stats = TaskStatistics_zero\<lparr> created_at_ms := now \<rparr>,
       interrupt_pending = False, name = replicate 16 0 \<rparr>"

text \<open>The name buffer has 16 bytes; at most 15 bytes of the name and a zero are written.\<close>

definition set_name :: "Task \<Rightarrow> u8 list \<Rightarrow> Task" where
  "set_name t nm =
     (let len = min (length nm) 15
      in t\<lparr> name := (take len nm @ drop len (name t))[len := 0] \<rparr>)"

section \<open>The scheduler's state\<close>

record EnhancedScheduler =
  run_queue :: "TaskId list"
  last_hint_check :: u64
  hint_check_interval :: u64
  current_cpu_boost :: bool
  current_workload :: IntentType
  aging_interval_ms :: u64
  last_aging_ms :: u64

definition EnhancedScheduler_new :: EnhancedScheduler where
  "EnhancedScheduler_new =
     \<lparr> run_queue = [], last_hint_check = 0, hint_check_interval = 10, current_cpu_boost = False,
       current_workload = Idle, aging_interval_ms = 100, last_aging_ms = 0 \<rparr>"

definition TIME_SLICE_TICKS :: usize where "TIME_SLICE_TICKS = 5"

section \<open>The kernel state\<close>

record SystemStatistics =
  total_context_switches :: u64
  total_syscalls :: u64
  total_ipc_messages :: u64
  total_page_faults :: u64
  scheduler_invocations :: u64

definition SystemStatistics_new :: SystemStatistics where
  "SystemStatistics_new =
     \<lparr> total_context_switches = 0, total_syscalls = 0, total_ipc_messages = 0,
     total_page_faults = 0, scheduler_invocations = 0 \<rparr>"

record Kernel =
  task_table :: "(TaskId, Task) btree_map"
  current_task_id :: TaskId
  next_task_id :: TaskId
  uptime_ms :: u64
  cap_table :: CapabilityTable
  scheduler :: EnhancedScheduler
  ticks_remaining :: usize
  bridge_reader :: ReaderState
  bridge_page :: BrainBridge
  next_message_id :: u64
  system_stats :: SystemStatistics
  pmm :: Pmm
  cr3 :: u64
  xsave_ptr :: "TaskId option"
  context_ptr :: "TaskId option"
  preempt_disable_count :: u32

text \<open>The initial values of the kernel's statics.\<close>

definition Kernel_boot :: "Pmm \<Rightarrow> BrainBridge \<Rightarrow> Kernel" where
  "Kernel_boot p b =
     \<lparr> task_table = [], current_task_id = 0, next_task_id = 1, uptime_ms = 0, cap_table = CapabilityTable_new,
       scheduler = EnhancedScheduler_new, ticks_remaining = TIME_SLICE_TICKS, bridge_reader = ReaderState_new,
       bridge_page = b, next_message_id = 1, system_stats = SystemStatistics_new, pmm = p, cr3 = 0,
       xsave_ptr = None, context_ptr = None, preempt_disable_count = 0 \<rparr>"

definition get_task :: "TaskId \<Rightarrow> Kernel \<Rightarrow> Task option" where
  "get_task tid k = bt_get tid (task_table k)"

text \<open>Locking a task of the table and changing it.\<close>

definition update_task :: "TaskId \<Rightarrow> (Task \<Rightarrow> Task) \<Rightarrow> Kernel \<Rightarrow> Kernel" where
  "update_task tid f k = k\<lparr> task_table := bt_modify tid f (task_table k) \<rparr>"

definition insert_task :: "Task \<Rightarrow> Kernel \<Rightarrow> Kernel \<times> TaskId" where
  "insert_task t k = (k\<lparr> task_table := bt_insert (task_id t) t (task_table k) \<rparr>, task_id t)"

definition remove_task :: "TaskId \<Rightarrow> Kernel \<Rightarrow> Kernel \<times> Task option" where
  "remove_task tid k = (k\<lparr> task_table := bt_remove tid (task_table k) \<rparr>, get_task tid k)"

text \<open>\<open>current_task\<close> panics when the current identifier is not in the table: \<open>None\<close>.\<close>

definition current_task :: "Kernel \<Rightarrow> Task option" where
  "current_task k = get_task (current_task_id k) k"

definition set_current_task :: "TaskId \<Rightarrow> Kernel \<Rightarrow> Kernel" where
  "set_current_task tid k = k\<lparr> current_task_id := tid \<rparr>"

definition allocate_task_id :: "Kernel \<Rightarrow> Kernel \<times> TaskId" where
  "allocate_task_id k = (k\<lparr> next_task_id := next_task_id k + 1 \<rparr>, next_task_id k)"

definition tick :: "Kernel \<Rightarrow> Kernel" where
  "tick k = k\<lparr> uptime_ms := uptime_ms k + 10 \<rparr>"

definition fresh_message_id :: "Kernel \<Rightarrow> Kernel \<times> u64" where
  "fresh_message_id k = (k\<lparr> next_message_id := next_message_id k + 1 \<rparr>, next_message_id k)"

section \<open>Statistics\<close>

definition record_context_switch :: "TaskId \<Rightarrow> Kernel \<Rightarrow> Kernel" where
  "record_context_switch tid k =
     (let k' = update_task tid (\<lambda>t. t\<lparr> task_stats := (task_stats t)\<lparr> context_switches := context_switches (task_stats t) + 1 \<rparr> \<rparr>) k
      in k'\<lparr> system_stats := (system_stats k')\<lparr> total_context_switches := total_context_switches (system_stats k') + 1 \<rparr> \<rparr>)"

definition record_syscall :: "TaskId \<Rightarrow> Kernel \<Rightarrow> Kernel" where
  "record_syscall tid k =
     (let k' = update_task tid (\<lambda>t. t\<lparr> task_stats := (task_stats t)\<lparr> syscalls := syscalls (task_stats t) + 1 \<rparr> \<rparr>) k
      in k'\<lparr> system_stats := (system_stats k')\<lparr> total_syscalls := total_syscalls (system_stats k') + 1 \<rparr> \<rparr>)"

definition record_ipc_sent :: "TaskId \<Rightarrow> Kernel \<Rightarrow> Kernel" where
  "record_ipc_sent tid k =
     (let k' = update_task tid (\<lambda>t. t\<lparr> task_stats := (task_stats t)\<lparr> ipc_sent := ipc_sent (task_stats t) + 1 \<rparr> \<rparr>) k
      in k'\<lparr> system_stats := (system_stats k')\<lparr> total_ipc_messages := total_ipc_messages (system_stats k') + 1 \<rparr> \<rparr>)"

definition record_ipc_received :: "TaskId \<Rightarrow> Kernel \<Rightarrow> Kernel" where
  "record_ipc_received tid k =
     update_task tid (\<lambda>t. t\<lparr> task_stats := (task_stats t)\<lparr> ipc_received := ipc_received (task_stats t) + 1 \<rparr> \<rparr>) k"

definition record_ipc_replied :: "TaskId \<Rightarrow> Kernel \<Rightarrow> Kernel" where
  "record_ipc_replied tid k =
     update_task tid (\<lambda>t. t\<lparr> task_stats := (task_stats t)\<lparr> ipc_replied := ipc_replied (task_stats t) + 1 \<rparr> \<rparr>) k"

definition record_ipc_block :: "TaskId \<Rightarrow> Kernel \<Rightarrow> Kernel" where
  "record_ipc_block tid k =
     update_task tid (\<lambda>t. t\<lparr> task_stats := (task_stats t)\<lparr> ipc_blocks := ipc_blocks (task_stats t) + 1 \<rparr> \<rparr>) k"

definition record_page_fault :: "TaskId \<Rightarrow> Kernel \<Rightarrow> Kernel" where
  "record_page_fault tid k =
     (let k' = update_task tid (\<lambda>t. t\<lparr> task_stats := (task_stats t)\<lparr> page_faults := page_faults (task_stats t) + 1 \<rparr> \<rparr>) k
      in k'\<lparr> system_stats := (system_stats k')\<lparr> total_page_faults := total_page_faults (system_stats k') + 1 \<rparr> \<rparr>)"

definition record_deadline_miss :: "TaskId \<Rightarrow> Kernel \<Rightarrow> Kernel" where
  "record_deadline_miss tid k =
     update_task tid (\<lambda>t. t\<lparr> task_stats := (task_stats t)\<lparr> deadline_misses := deadline_misses (task_stats t) + 1 \<rparr> \<rparr>) k"

definition record_priority_boost :: "TaskId \<Rightarrow> Kernel \<Rightarrow> Kernel" where
  "record_priority_boost tid k =
     update_task tid (\<lambda>t. t\<lparr> task_stats := (task_stats t)\<lparr> priority_boosts := priority_boosts (task_stats t) + 1 \<rparr> \<rparr>) k"

definition record_voluntary_yield :: "TaskId \<Rightarrow> Kernel \<Rightarrow> Kernel" where
  "record_voluntary_yield tid k =
     update_task tid (\<lambda>t. t\<lparr> task_stats := (task_stats t)\<lparr> voluntary_yields := voluntary_yields (task_stats t) + 1 \<rparr> \<rparr>) k"

definition record_preemption :: "TaskId \<Rightarrow> Kernel \<Rightarrow> Kernel" where
  "record_preemption tid k =
     update_task tid (\<lambda>t. t\<lparr> task_stats := (task_stats t)\<lparr> preemptions := preemptions (task_stats t) + 1 \<rparr> \<rparr>) k"

definition record_scheduler_invocation :: "Kernel \<Rightarrow> Kernel" where
  "record_scheduler_invocation k =
     k\<lparr> system_stats := (system_stats k)\<lparr> scheduler_invocations := scheduler_invocations (system_stats k) + 1 \<rparr> \<rparr>"

definition get_task_stats :: "TaskId \<Rightarrow> Kernel \<Rightarrow> TaskStatistics option" where
  "get_task_stats tid k = map_option task_stats (get_task tid k)"

definition get_all_task_stats :: "Kernel \<Rightarrow> (TaskId \<times> TaskStatistics) list" where
  "get_all_task_stats k = map (\<lambda>e. (fst e, task_stats (snd e))) (task_table k)"

section \<open>Facts on the task table\<close>

named_theorems kernel_simps \<open>reading the kernel state after an update\<close>

lemma get_task_update [simp, kernel_simps]:
  "get_task t (update_task t' f k) = (if t = t' then map_option f (get_task t k) else get_task t k)"
  by (simp add: get_task_def update_task_def)

lemma update_task_fields [simp, kernel_simps]:
  "current_task_id (update_task t f k) = current_task_id k"
  "next_task_id (update_task t f k) = next_task_id k"
  "uptime_ms (update_task t f k) = uptime_ms k"
  "cap_table (update_task t f k) = cap_table k"
  "scheduler (update_task t f k) = scheduler k"
  "ticks_remaining (update_task t f k) = ticks_remaining k"
  "bridge_reader (update_task t f k) = bridge_reader k"
  "bridge_page (update_task t f k) = bridge_page k"
  "next_message_id (update_task t f k) = next_message_id k"
  "system_stats (update_task t f k) = system_stats k"
  "pmm (update_task t f k) = pmm k"
  "cr3 (update_task t f k) = cr3 k"
  "xsave_ptr (update_task t f k) = xsave_ptr k"
  "context_ptr (update_task t f k) = context_ptr k"
  "preempt_disable_count (update_task t f k) = preempt_disable_count k"
  by (simp_all add: update_task_def)

lemma get_task_fields [simp, kernel_simps]:
  "get_task t (k\<lparr> current_task_id := x0 \<rparr>) = get_task t k"
  "get_task t (k\<lparr> next_task_id := x1 \<rparr>) = get_task t k"
  "get_task t (k\<lparr> uptime_ms := x2 \<rparr>) = get_task t k"
  "get_task t (k\<lparr> cap_table := x3 \<rparr>) = get_task t k"
  "get_task t (k\<lparr> scheduler := x4 \<rparr>) = get_task t k"
  "get_task t (k\<lparr> ticks_remaining := x5 \<rparr>) = get_task t k"
  "get_task t (k\<lparr> bridge_reader := x6 \<rparr>) = get_task t k"
  "get_task t (k\<lparr> bridge_page := x7 \<rparr>) = get_task t k"
  "get_task t (k\<lparr> next_message_id := x8 \<rparr>) = get_task t k"
  "get_task t (k\<lparr> system_stats := x9 \<rparr>) = get_task t k"
  "get_task t (k\<lparr> pmm := x10 \<rparr>) = get_task t k"
  "get_task t (k\<lparr> cr3 := x11 \<rparr>) = get_task t k"
  "get_task t (k\<lparr> xsave_ptr := x12 \<rparr>) = get_task t k"
  "get_task t (k\<lparr> context_ptr := x13 \<rparr>) = get_task t k"
  "get_task t (k\<lparr> preempt_disable_count := x14 \<rparr>) = get_task t k"
  by (simp_all add: get_task_def)

lemma get_task_keys: "t \<in> set (bt_keys (task_table k)) \<longleftrightarrow> get_task t k \<noteq> None"
  by (simp add: get_task_def bt_keys_get)

lemma keys_update_task [simp, kernel_simps]: "bt_keys (task_table (update_task t f k)) = bt_keys (task_table k)"
  by (simp add: update_task_def)

lemma get_task_remove [simp, kernel_simps]:
  "get_task t (fst (remove_task t' k)) = (if t = t' then None else get_task t k)"
  by (simp add: get_task_def remove_task_def)

lemma get_task_insert [simp, kernel_simps]:
  "get_task t (fst (insert_task x k)) = (if t = task_id x then Some x else get_task t k)"
  by (simp add: get_task_def insert_task_def)

lemma current_task_update [simp, kernel_simps]:
  "current_task (update_task t f k) =
     (if t = current_task_id k then map_option f (current_task k) else current_task k)"
  by (auto simp: current_task_def)

text \<open>The table is keyed by the tasks' identifiers and every queue is within its capacity.\<close>

definition tasks_ok :: "Kernel \<Rightarrow> bool" where
  "tasks_ok k \<longleftrightarrow> bt_wf (task_table k) \<and>
     (\<forall>tid t. get_task tid k = Some t \<longrightarrow> task_id t = tid \<and> length (queue (recv_queue t)) \<le> max_size (recv_queue t))"

lemma tasks_ok_update:
  assumes "tasks_ok k"
    and "\<And>t. get_task tid k = Some t \<Longrightarrow> task_id (f t) = tid \<and>
      length (queue (recv_queue (f t))) \<le> max_size (recv_queue (f t))"
  shows "tasks_ok (update_task tid f k)"
proof -
  have "bt_wf (task_table (update_task tid f k))"
    using assms(1) by (simp add: tasks_ok_def update_task_def bt.wf_modify)
  then show ?thesis using assms by (auto simp: tasks_ok_def)
qed

lemma tasks_ok_task_table: "task_table k' = task_table k \<Longrightarrow> tasks_ok k' = tasks_ok k"
  by (simp add: tasks_ok_def get_task_def)

section \<open>An example system\<close>

text \<open>A two-task system at boot, for the examples.\<close>

definition demo_kernel :: Kernel where
  "demo_kernel = fst (insert_task (Task_new 0 2 0x400000) (fst (insert_task (Task_new 0 1 0x400000)
     (Kernel_boot demo_pmm demo_bridge))))"

lemma demo_get_task: "get_task t demo_kernel = (if t = 1 \<or> t = 2 then Some (Task_new 0 t 0x400000) else None)"
proof -
  have "task_id (Task_new now tid e) = tid" for now tid e by (simp add: Task_new_def)
  moreover have "get_task t (Kernel_boot p b) = None" for p b by (simp add: Kernel_boot_def get_task_def)
  ultimately show ?thesis by (auto simp: demo_kernel_def)
qed

lemma demo_tasks:
  "cap_table demo_kernel = CapabilityTable_new" "pmm demo_kernel = demo_pmm" "uptime_ms demo_kernel = 0"
  "scheduler demo_kernel = EnhancedScheduler_new" "current_task_id demo_kernel = 0"
  by (simp_all add: demo_kernel_def insert_task_def Kernel_boot_def)

end
