(* ===== verification/Capability.thy ===== *)
theory Capability
  imports Task
begin

text \<open>
  The capability operations of kernel/src/capability/mod.rs that act on the
  capability table and on the tasks' capability lists: granting, checking,
  transferring and revoking.
\<close>

section \<open>Operations\<close>

definition grant :: "TaskId \<Rightarrow> CapabilityType \<Rightarrow> Kernel \<Rightarrow> Kernel \<times> (CapError, CapabilityId) result" where
  "grant tid ct k =
     (case allocate (cap_table k) (CapabilityEntry_new ct tid) of
        (tbl, Err e) \<Rightarrow> (k\<lparr> cap_table := tbl \<rparr>, Err e)
      | (tbl, Ok cid) \<Rightarrow>
          (update_task tid (\<lambda>t. t\<lparr> capabilities := capabilities t @ [cid] \<rparr>) (k\<lparr> cap_table := tbl \<rparr>), Ok cid))"

definition has_capability :: "TaskId \<Rightarrow> CapabilityType \<Rightarrow> Kernel \<Rightarrow> bool" where
  "has_capability tid required k =
     (case get_task tid k of
        None \<Rightarrow> False
      | Some t \<Rightarrow>
          list_ex (\<lambda>cid. case get (cap_table k) cid of
              Some entry \<Rightarrow> valid entry \<and> grants (cap_type entry) required
            | None \<Rightarrow> False) (capabilities t))"

definition has_ipc_send :: "TaskId \<Rightarrow> TaskId \<Rightarrow> Kernel \<Rightarrow> bool" where
  "has_ipc_send tid target k = (if tid = 0 then True else has_capability tid (IpcSend target) k)"

definition grant_ipc_send :: "TaskId \<Rightarrow> TaskId \<Rightarrow> Kernel \<Rightarrow> Kernel \<times> (CapError, CapabilityId) result" where
  "grant_ipc_send tid target k = grant tid (IpcSend target) k"

definition grant_ipc_send_any :: "TaskId \<Rightarrow> Kernel \<Rightarrow> Kernel \<times> (CapError, CapabilityId) result" where
  "grant_ipc_send_any tid k = grant tid IpcSendAny k"

definition grant_all :: "TaskId \<Rightarrow> Kernel \<Rightarrow> Kernel \<times> (CapError, CapabilityId) result" where
  "grant_all tid k = grant tid All k"

definition revoke :: "CapabilityId \<Rightarrow> Kernel \<Rightarrow> Kernel \<times> (CapError, unit) result" where
  "revoke cid k = (case table_revoke (cap_table k) cid of (tbl, r) \<Rightarrow> (k\<lparr> cap_table := tbl \<rparr>, r))"

text \<open>The pages of a DMA region go back to the page allocator; its panic is \<open>None\<close>.\<close>

definition revoke_with_cleanup :: "CapabilityId \<Rightarrow> Kernel \<Rightarrow> (Kernel \<times> (CapError, unit) result) option" where
  "revoke_with_cleanup cid k =
     (case map_option cap_type (get (cap_table k) cid) of
        Some (DmaRegion phys_base sz) \<Rightarrow>
          (let num_pages = (sz + 4095) div 4096; order = contiguous_order num_pages 0
           in case free_pages (pmm k) phys_base order of
                None \<Rightarrow> None
              | Some p \<Rightarrow> Some (revoke cid (k\<lparr> pmm := p \<rparr>)))
      | _ \<Rightarrow> Some (revoke cid k))"

definition grant_framebuffer :: "TaskId \<Rightarrow> u64 \<Rightarrow> u64 \<Rightarrow> Kernel \<Rightarrow> Kernel \<times> (CapError, CapabilityId) result" where
  "grant_framebuffer tid phys_base sz k = grant tid (Framebuffer phys_base sz) k"

definition has_framebuffer_access :: "TaskId \<Rightarrow> u64 \<Rightarrow> u64 \<Rightarrow> Kernel \<Rightarrow> bool" where
  "has_framebuffer_access tid phys_addr sz k = has_capability tid (Framebuffer phys_addr sz) k"

definition grant_dma_region :: "TaskId \<Rightarrow> u64 \<Rightarrow> u64 \<Rightarrow> Kernel \<Rightarrow> Kernel \<times> (CapError, CapabilityId) result" where
  "grant_dma_region tid phys_base sz k = grant tid (DmaRegion phys_base sz) k"

definition has_dma_access :: "TaskId \<Rightarrow> u64 \<Rightarrow> u64 \<Rightarrow> Kernel \<Rightarrow> bool" where
  "has_dma_access tid phys_addr sz k = has_capability tid (DmaRegion phys_addr sz) k"

definition grant_mmio_region :: "TaskId \<Rightarrow> u64 \<Rightarrow> u64 \<Rightarrow> Kernel \<Rightarrow> Kernel \<times> (CapError, CapabilityId) result" where
  "grant_mmio_region tid phys_base sz k = grant tid (MmioRegion phys_base sz) k"

definition has_mmio_access :: "TaskId \<Rightarrow> u64 \<Rightarrow> u64 \<Rightarrow> Kernel \<Rightarrow> bool" where
  "has_mmio_access tid phys_addr sz k = has_capability tid (MmioRegion phys_addr sz) k"

definition grant_io_port :: "TaskId \<Rightarrow> u16 \<Rightarrow> u16 \<Rightarrow> Kernel \<Rightarrow> Kernel \<times> (CapError, CapabilityId) result" where
  "grant_io_port tid base sz k = grant tid (IoPort base sz) k"

definition has_io_port_access :: "TaskId \<Rightarrow> u16 \<Rightarrow> u16 \<Rightarrow> Kernel \<Rightarrow> bool" where
  "has_io_port_access tid base sz k = has_capability tid (IoPort base sz) k"

definition grant_driver_privilege :: "TaskId \<Rightarrow> Kernel \<Rightarrow> Kernel \<times> (CapError, CapabilityId) result" where
  "grant_driver_privilege tid k = grant tid DriverPrivilege k"

definition has_driver_privilege :: "TaskId \<Rightarrow> Kernel \<Rightarrow> bool" where
  "has_driver_privilege tid k = has_capability tid DriverPrivilege k"

definition grant_raw_block_io :: "TaskId \<Rightarrow> Kernel \<Rightarrow> Kernel \<times> (CapError, CapabilityId) result" where
  "grant_raw_block_io tid k = grant tid RawBlockIO k"

definition has_raw_block_io :: "TaskId \<Rightarrow> Kernel \<Rightarrow> bool" where
  "has_raw_block_io tid k = has_capability tid RawBlockIO k"

fun is_non_transferable :: "CapabilityType \<Rightarrow> bool" where
  "is_non_transferable (DmaRegion _ _) = True"
| "is_non_transferable (MmioRegion _ _) = True"
| "is_non_transferable (IoPort _ _) = True"
| "is_non_transferable (Framebuffer _ _) = True"
| "is_non_transferable DriverPrivilege = True"
| "is_non_transferable RawBlockIO = True"
| "is_non_transferable _ = False"

definition TransferableCap_check :: "CapabilityId \<Rightarrow> Kernel \<Rightarrow> CapabilityId option" where
  "TransferableCap_check cid k =
     (case get (cap_table k) cid of
        None \<Rightarrow> None
      | Some entry \<Rightarrow> if is_non_transferable (cap_type entry) then None else Some cid)"

definition transfer ::
  "TaskId \<Rightarrow> TaskId \<Rightarrow> CapabilityId \<Rightarrow> Kernel \<Rightarrow> Kernel \<times> (CapError, CapabilityId) result" where
  "transfer from_task to_task cid k =
     (case (get_task from_task k, get_task to_task k) of
        (Some from, Some to) \<Rightarrow>
          if cid \<notin> set (capabilities from) then (k, Err PermissionDenied)
          else
            (case get (cap_table k) cid of
               None \<Rightarrow> (k, Err NotFound)
             | Some entry \<Rightarrow>
                 if is_non_transferable (cap_type entry) then (k, Err NonTransferable)
                 else grant to_task (cap_type entry) k)
      | _ \<Rightarrow> (k, Err NotFound))"

section \<open>Authority\<close>

text \<open>The entries a task holds: the live entries its identifiers refer to.\<close>

definition held :: "TaskId \<Rightarrow> Kernel \<Rightarrow> CapabilityEntry set" where
  "held tid k = {e. \<exists>t cid. get_task tid k = Some t \<and> cid \<in> set (capabilities t) \<and> get (cap_table k) cid = Some e}"

definition held_types :: "Kernel \<Rightarrow> CapabilityType set" where
  "held_types k = {ct. \<exists>tid e. e \<in> held tid k \<and> cap_type e = ct}"

text \<open>Well-formed authority: the table is well formed, and the tasks' lists contain only identifiers
  that were issued.\<close>

definition caps_ok :: "Kernel \<Rightarrow> bool" where
  "caps_ok k \<longleftrightarrow> table_ok (cap_table k) \<and>
     (\<forall>tid t cid. get_task tid k = Some t \<longrightarrow> cid \<in> set (capabilities t) \<longrightarrow> \<not> unissued (cap_table k) cid)"

lemma has_capability_held:
  "has_capability tid r k \<longleftrightarrow> (\<exists>e \<in> held tid k. valid e \<and> grants (cap_type e) r)"
  by (auto simp: has_capability_def held_def list_ex_iff split: option.splits)

lemma grant_cases:
  obtains (fails) x where "grant tid ct k = (k, Err x)"
  | (ok) cid where "snd (allocate (cap_table k) (CapabilityEntry_new ct tid)) = Ok cid"
      "grant tid ct k = (update_task tid (\<lambda>t. t\<lparr> capabilities := capabilities t @ [cid] \<rparr>)
         (k\<lparr> cap_table := fst (allocate (cap_table k) (CapabilityEntry_new ct tid)) \<rparr>), Ok cid)"
proof (cases "snd (allocate (cap_table k) (CapabilityEntry_new ct tid))")
  case (Inl x)
  then have "fst (allocate (cap_table k) (CapabilityEntry_new ct tid)) = cap_table k" by (rule cap_store.alloc_err)
  then have "grant tid ct k = (k, Err x)" using Inl by (auto simp: grant_def split: prod.splits)
  then show thesis by (rule fails)
next
  case (Inr cid)
  then show thesis by (intro ok) (auto simp: grant_def split: prod.splits)
qed

lemma grant_Err: "grant tid ct k = (k', Err x) \<Longrightarrow> k' = k"
  by (cases rule: grant_cases[of tid ct k]) simp_all

lemma held_grant:
  assumes "caps_ok k" "grant tid ct k = (k', Ok cid)"
  shows "held t k' = held t k \<union> (if t = tid \<and> get_task tid k \<noteq> None then {CapabilityEntry_new ct tid} else {})"
proof -
  let ?e = "CapabilityEntry_new ct tid" and ?tbl = "cap_table k"
  have tok: "table_ok ?tbl" using assms(1) by (simp add: caps_ok_def)
  have a: "snd (allocate ?tbl ?e) = Ok cid"
    and k': "k' = update_task tid (\<lambda>t. t\<lparr> capabilities := capabilities t @ [cid] \<rparr>) (k\<lparr> cap_table := fst (allocate ?tbl ?e) \<rparr>)"
    using assms(2) by (cases rule: grant_cases[of tid ct k]; simp)+
  note g = get_allocate[OF tok a]
  have fresh: "cid' \<noteq> cid" if "get_task t k = Some x" "cid' \<in> set (capabilities x)" for x cid'
    using that assms(1) cap_store.alloc_fresh[OF tok a] by (auto simp: caps_ok_def)
  show ?thesis
  proof (cases "get_task t k")
    case (Some a)
    have same: "get (cap_table k') i = get ?tbl i" if "i \<in> set (capabilities a)" for i
      using fresh[OF Some that] by (simp add: k' g)
    have "get (cap_table k') cid = Some ?e" by (simp add: k' g)
    then have "held t k' = {e. \<exists>i \<in> set (capabilities a). get (cap_table k') i = Some e} \<union> (if t = tid then {?e} else {})"
      using Some by (auto simp: held_def k')
    then show ?thesis using Some same by (auto simp: held_def)
  qed (auto simp: held_def k')
qed

lemma caps_ok_grant:
  assumes "caps_ok k" "grant tid ct k = (k', r)"
  shows "caps_ok k'"
proof (cases rule: grant_cases[of tid ct k])
  case (ok cid)
  let ?e = "CapabilityEntry_new ct tid" and ?tbl = "cap_table k"
  have tok: "table_ok ?tbl" using assms(1) by (simp add: caps_ok_def)
  have "\<not> unissued (fst (allocate ?tbl ?e)) cid'" if "\<not> unissued ?tbl cid' \<or> cid' = cid" for cid'
    using that cap_store.fresh_alloc[OF tok] cap_store.alloc_issued[OF tok ok(1)] by blast
  then show ?thesis
    using assms ok table_ok_allocate[OF tok] by (fastforce simp: caps_ok_def split: if_splits)
qed (use assms in simp)

lemma held_revoke:
  assumes "caps_ok k"
  shows "held t (fst (revoke cid k)) =
    {e. \<exists>x i. get_task t k = Some x \<and> i \<in> set (capabilities x) \<and> i \<noteq> cid \<and> get (cap_table k) i = Some e}"
  using assms cap_store.drop_lookup[of "cap_table k" cid]
  by (auto simp: held_def revoke_def caps_ok_def split_beta split: if_splits)

lemma caps_ok_revoke: "caps_ok k \<Longrightarrow> caps_ok (fst (revoke cid k))"
  by (auto simp: caps_ok_def revoke_def split_beta table_ok_revoke unissued_def)

lemma transfer_Ok:
  assumes "transfer a b cid k = (k', Ok i)"
  obtains ta tb e where "get_task a k = Some ta" "get_task b k = Some tb" "cid \<in> set (capabilities ta)"
    "get (cap_table k) cid = Some e" "\<not> is_non_transferable (cap_type e)" "grant b (cap_type e) k = (k', Ok i)"
  using assms by (auto simp: transfer_def split: option.splits if_splits)

lemma transfer_Err: "transfer a b cid k = (k', Err x) \<Longrightarrow> k' = k"
  by (auto simp: transfer_def dest: grant_Err split: option.splits if_splits)

section \<open>Authority never grows by transfers\<close>

datatype cap_op = OpTransfer TaskId TaskId CapabilityId | OpDrop CapabilityId

fun cap_step :: "cap_op \<Rightarrow> Kernel \<Rightarrow> Kernel" where
  "cap_step (OpTransfer a b cid) k = fst (transfer a b cid k)"
| "cap_step (OpDrop cid) k = fst (revoke cid k)"

definition confined :: "Kernel \<Rightarrow> Kernel \<Rightarrow> bool" where
  "confined k k' \<longleftrightarrow> held_types k' \<subseteq> held_types k \<and>
     (\<forall>tid. \<forall>e \<in> held tid k'. is_non_transferable (cap_type e) \<longrightarrow> e \<in> held tid k)"

lemma confined_refl [simp]: "confined k k"
  by (simp add: confined_def)

lemma confined_trans: "confined a b \<Longrightarrow> confined b c \<Longrightarrow> confined a c"
  unfolding confined_def by blast

lemma confined_held: "(\<And>tid. held tid k' \<subseteq> held tid k) \<Longrightarrow> confined k k'"
  unfolding confined_def held_types_def by blast

lemma transfer_confined:
  assumes "caps_ok k"
  shows "confined k (fst (transfer a b cid k)) \<and> caps_ok (fst (transfer a b cid k))"
proof (cases "snd (transfer a b cid k)")
  case (Inl x)
  then have "fst (transfer a b cid k) = k" by (intro transfer_Err[of a b cid k _ x]) (simp add: prod_eq_iff)
  then show ?thesis using assms by simp
next
  case (Inr i)
  then have "transfer a b cid k = (fst (transfer a b cid k), Ok i)" by (simp add: prod_eq_iff)
  then obtain ta tb e where t: "get_task a k = Some ta" "cid \<in> set (capabilities ta)"
    "get (cap_table k) cid = Some e" "\<not> is_non_transferable (cap_type e)"
    "grant b (cap_type e) k = (fst (transfer a b cid k), Ok i)"
    by (rule transfer_Ok)
  have e: "cap_type e \<in> held_types k" using t(1-3) by (auto simp: held_types_def held_def)
  have "held t (fst (transfer a b cid k)) \<subseteq> held t k \<union> {CapabilityEntry_new (cap_type e) b}" for t
    using held_grant[OF assms t(5)] by auto
  moreover have "cap_type (CapabilityEntry_new (cap_type e) b) = cap_type e" by (simp add: CapabilityEntry_new_def)
  ultimately have "confined k (fst (transfer a b cid k))"
    using e t(4) unfolding confined_def held_types_def by fastforce
  then show ?thesis using caps_ok_grant[OF assms t(5)] by simp
qed

lemma revoke_confined:
  assumes "caps_ok k"
  shows "confined k (fst (revoke cid k))"
  by (rule confined_held, unfold held_revoke[OF assms]) (auto simp: held_def)

lemma cap_step_confined: "caps_ok k \<Longrightarrow> confined k (cap_step op k) \<and> caps_ok (cap_step op k)"
  by (cases op) (simp_all add: transfer_confined revoke_confined caps_ok_revoke)

lemma cap_run_confined: "caps_ok k \<Longrightarrow> confined k (fold cap_step ops k) \<and> caps_ok (fold cap_step ops k)"
proof (induction ops arbitrary: k)
  case (Cons op ops)
  then show ?case using cap_step_confined[of k op] confined_trans by auto
qed simp

section \<open>Properties\<close>

lemma demo_caps_ok: "caps_ok demo_kernel"
  by (auto simp: caps_ok_def demo_tasks table_ok_new demo_get_task Task_new_def split: if_splits)

lemma demo_allocate: "snd (allocate CapabilityTable_new e) = Ok 1"
  by (subst allocate_cases[OF table_ok_new]) (simp add: CapabilityTable_new_def MAX_CAPABILITIES_def)

lemma demo_grant: "snd (grant 1 ct demo_kernel) = Ok 1"
  using demo_allocate[of "CapabilityEntry_new ct 1"] by (auto simp: grant_def demo_tasks split: prod.splits)

text \<open>Granting is exact: after a successful grant a task passes a capability check if and only
  if it passed before, or it is the task that received the grant and the granted type covers the
  required one. No other task and no other right is affected.\<close>

theorem grant_exact:
  assumes "caps_ok k" "get_task tid k \<noteq> None" "grant tid ct k = (k', Ok cid)"
  shows "has_capability t r k' \<longleftrightarrow> has_capability t r k \<or> (t = tid \<and> grants ct r)"
  using held_grant[OF assms(1,3), of t] assms(2)
  by (auto simp: has_capability_held CapabilityEntry_new_def)

theorem grant_exact_witness:
  "has_capability 1 (IpcSend 2) (fst (grant 1 IpcSendAny demo_kernel)) \<longleftrightarrow>
     has_capability 1 (IpcSend 2) demo_kernel \<or> ((1 :: TaskId) = 1 \<and> grants IpcSendAny (IpcSend 2))"
  by (rule grant_exact[OF demo_caps_ok]) (simp_all add: demo_get_task prod_eq_iff demo_grant)

text \<open>C6: confinement: no sequence of capability transfers and revocations creates a capability type
  that no task held at the start, and hardware-bound capabilities (DMA, MMIO, I/O ports, framebuffer,
  driver privilege, raw block I/O) never reach a task that did not already hold that very entry.\<close>

theorem transfers_confined:
  assumes "caps_ok k" "k' = fold cap_step ops k"
  shows "held_types k' \<subseteq> held_types k \<and>
    (\<forall>tid e. e \<in> held tid k' \<and> is_non_transferable (cap_type e) \<longrightarrow> e \<in> held tid k)"
  using cap_run_confined[OF assms(1), of ops] assms(2) unfolding confined_def by blast

theorem transfers_confined_witness:
  "let k' = fold cap_step [OpTransfer 1 2 1, OpDrop 7] (fst (grant 1 (IoPort 0x60 8) demo_kernel))
   in CapabilityEntry_new (IoPort 0x60 8) 1 \<notin> held 2 k' \<and> All \<notin> held_types k'"
proof -
  let ?k = "fst (grant 1 (IoPort 0x60 8) demo_kernel)"
  have "grant 1 (IoPort 0x60 8) demo_kernel = (?k, Ok 1)" by (simp add: prod_eq_iff demo_grant)
  note h = held_grant[OF demo_caps_ok this] and ok = caps_ok_grant[OF demo_caps_ok this]
  have e: "held t demo_kernel = {}" for t by (auto simp: held_def demo_get_task Task_new_def split: if_splits)
  have "CapabilityEntry_new (IoPort 0x60 8) 1 \<notin> held 2 ?k" "All \<notin> held_types ?k"
    by (auto simp: held_types_def h e CapabilityEntry_new_def split: if_splits)
  then show ?thesis
    using transfers_confined[OF ok refl, of "[OpTransfer 1 2 1, OpDrop 7]"]
    by (auto simp: Let_def CapabilityEntry_new_def)
qed

text \<open>C30: a transfer gives the receiver exactly the rights of the transferred capability and takes
  nothing from the sender; it succeeds only for an entry in the sender's own list, and every refused
  transfer leaves the kernel unchanged.\<close>

theorem transfer_exact:
  assumes "caps_ok k" "transfer a b cid k = (k', r)"
  shows "case r of
      Err _ \<Rightarrow> k' = k
    | Ok _ \<Rightarrow> (\<exists>e \<in> held a k. get (cap_table k) cid = Some e \<and> \<not> is_non_transferable (cap_type e) \<and>
        (\<forall>t req. has_capability t req k' \<longleftrightarrow> has_capability t req k \<or> (t = b \<and> grants (cap_type e) req)))"
proof (cases r)
  case (Inr i)
  obtain ta tb e where t: "get_task a k = Some ta" "get_task b k = Some tb" "cid \<in> set (capabilities ta)"
    "get (cap_table k) cid = Some e" "\<not> is_non_transferable (cap_type e)" "grant b (cap_type e) k = (k', Ok i)"
    using assms(2) unfolding Inr by (rule transfer_Ok)
  have "e \<in> held a k" using t(1,3,4) by (auto simp: held_def)
  moreover have "has_capability t req k' \<longleftrightarrow> has_capability t req k \<or> (t = b \<and> grants (cap_type e) req)" for t req
    using held_grant[OF assms(1) t(6), of t] t(2) by (auto simp: has_capability_held CapabilityEntry_new_def)
  ultimately show ?thesis using Inr t by auto
qed (use assms transfer_Err in auto)

theorem transfer_exact_witness:
  "let k = fst (grant 1 IpcSendAny demo_kernel); k' = fst (transfer 1 2 1 k)
   in (case snd (transfer 1 2 1 k) of
      Err _ \<Rightarrow> k' = k
    | Ok _ \<Rightarrow> (\<exists>e \<in> held 1 k. get (cap_table k) 1 = Some e \<and> \<not> is_non_transferable (cap_type e) \<and>
        (\<forall>t req. has_capability t req k' \<longleftrightarrow> has_capability t req k \<or> (t = 2 \<and> grants (cap_type e) req))))"
  unfolding Let_def
  by (rule transfer_exact[OF caps_ok_grant[OF demo_caps_ok prod.collapse[symmetric]] prod.collapse[symmetric]])

text \<open>C31: the pages of a DMA region come back in full: revoking the capability granted for an
  allocation of up to 256 contiguous pages computes the same block order as the allocation did,
  frees the block without a panic, and leaves the capability dead.\<close>

theorem dma_pages_returned:
  assumes "pmm_ok (pmm k)" "caps_ok k" "0 < n" "n \<le> 256" "alloc_contiguous (pmm k) n = (p, Some a)"
    and "grant_dma_region tid a (n * 4096) (k\<lparr> pmm := p \<rparr>) = (k1, Ok cid)"
  shows "\<exists>k2. revoke_with_cleanup cid k1 = Some (k2, Ok ()) \<and> pmm_ok (pmm k2) \<and> get (cap_table k2) cid = None \<and>
    pmm_avail (pmm k2) = pmm_avail p \<union> block_range a (contiguous_order n 0)"
proof -
  let ?o = "contiguous_order n 0" and ?e = "CapabilityEntry_new (DmaRegion a (n * 4096)) tid"
  have "pmm_alloc (pmm k) (Contiguous n) = (p, Some a)" using assms(5) by simp
  then have pp: "pmm_post (pmm k) ?o p (Some a)"
    using pmm_alloc_post[OF assms(1), of "Contiguous n" p "Some a"] contiguous_order_bounds[of 0 n]
    by (simp add: MAX_ORDER_def)
  then obtain p2 where p2: "free_pages p a ?o = Some p2" "pmm_ok p2" "pmm_avail p2 = pmm_avail p \<union> block_range a ?o"
    using free_pages_post[of p a ?o] by (auto simp: pmm_post_def)
  have n: "(n * 4096 + 4095) div 4096 = n"
    using assms(4) by (simp add: word_le_nat_alt unat_div unat_word_ariths flip: unat_eq_unat_iff)
  have tok: "table_ok (cap_table k)" using assms(2) by (simp add: caps_ok_def)
  have a: "snd (allocate (cap_table k) ?e) = Ok cid"
    and k1: "k1 = update_task tid (\<lambda>t. t\<lparr> capabilities := capabilities t @ [cid] \<rparr>)
      (k\<lparr> pmm := p, cap_table := fst (allocate (cap_table k) ?e) \<rparr>)"
    using assms(6) unfolding grant_dma_region_def
    by (cases rule: grant_cases[of tid "DmaRegion a (n * 4096)" "k\<lparr> pmm := p \<rparr>"]; simp)+
  have g: "get (cap_table k1) cid = Some ?e" using get_allocate[OF tok a] by (simp add: k1)
  have tok1: "table_ok (cap_table k1)" using table_ok_allocate[OF tok] by (simp add: k1)
  have r: "snd (table_revoke (cap_table k1) cid) = Ok ()"
    using g by (auto simp: get_def table_revoke_def split: if_splits)
  have "pmm k1 = p" by (simp add: k1)
  then have "revoke_with_cleanup cid k1 = Some (revoke cid (k1\<lparr> pmm := p2 \<rparr>))"
    by (simp add: revoke_with_cleanup_def g CapabilityEntry_new_def n Let_def p2)
  moreover have "get (fst (table_revoke (cap_table k1) cid)) cid = None"
    using cap_store.drop_lookup[OF tok1, of cid cid] by simp
  ultimately show ?thesis using r p2 by (auto simp: revoke_def split_beta)
qed

lemma demo_contiguous:
  "alloc_contiguous (pmm demo_kernel) 4 = (fst (pmm_alloc demo_pmm (Pages 2)), Some 0x100000)"
proof -
  have "contiguous_order 4 0 = 2" by (simp add: contiguous_order.simps)
  then show ?thesis using demo_alloc by (simp add: alloc_contiguous_def demo_tasks prod_eq_iff)
qed

lemma demo_grant_dma:
  "grant_dma_region 1 a sz (demo_kernel\<lparr> pmm := p \<rparr>) = (fst (grant_dma_region 1 a sz (demo_kernel\<lparr> pmm := p \<rparr>)), Ok 1)"
  using demo_allocate[of "CapabilityEntry_new (DmaRegion a sz) 1"]
  by (auto simp: grant_dma_region_def grant_def demo_tasks split: prod.splits)

theorem dma_pages_returned_witness:
  "let p = fst (pmm_alloc demo_pmm (Pages 2));
       k1 = fst (grant_dma_region 1 0x100000 (4 * 4096) (demo_kernel\<lparr> pmm := p \<rparr>))
   in \<exists>k2. revoke_with_cleanup 1 k1 = Some (k2, Ok ()) \<and> pmm_ok (pmm k2) \<and> get (cap_table k2) 1 = None \<and>
    pmm_avail (pmm k2) = pmm_avail p \<union> block_range 0x100000 (contiguous_order 4 0)"
proof -
  have "pmm_ok (pmm demo_kernel)" using pmm_init_ok[OF demo_ok] by (simp add: demo_tasks demo_pmm_def)
  then show ?thesis
    using dma_pages_returned[OF _ demo_caps_ok _ _ demo_contiguous demo_grant_dma] by (simp add: Let_def)
qed

end
