(* ===== verification/Scheduler.thy ===== *)
theory Scheduler
  imports Task
begin

text \<open>
  The scheduler of kernel/src/task/scheduler.rs with its aging and its use of the
  bridge's hints, the voluntary yield, the switch to a task of
  kernel/src/task/switch.rs and the timer preemption of kernel/src/task/preempt.rs.

  A pointer to a task's context or to its FPU save area is modelled by the task's
  identifier, the null pointer by \<open>None\<close>. The frequency change of the CPU and the
  serial log have no state in the model.
\<close>

unbundle bit_operations_syntax

section \<open>Selecting a task\<close>

definition add_task :: "TaskId \<Rightarrow> EnhancedScheduler \<Rightarrow> EnhancedScheduler" where
  "add_task tid s = s\<lparr> run_queue := run_queue s @ [tid] \<rparr>"

definition enqueue :: "TaskId \<Rightarrow> Kernel \<Rightarrow> Kernel" where
  "enqueue tid k = k\<lparr> scheduler := add_task tid (scheduler k) \<rparr>"

text \<open>The priority of a runnable task at a given time, in a queue of the given length. The semantic
  delta is added in 16-bit signed arithmetic.\<close>

definition semantic_adjust :: "u16 \<Rightarrow> u8 \<Rightarrow> u16" where
  "semantic_adjust p semantic =
     (let semantic_delta = (ucast semantic :: u16) - 128; w = p + semantic_delta
      in if sint w < 0 then 0 else w)"

definition effective_priority :: "u64 \<Rightarrow> nat \<Rightarrow> Task \<Rightarrow> u16" where
  "effective_priority current_time queue_len t =
     (let p = (if priority t < inherited_priority t then ucast (inherited_priority t) else ucast (priority t));
          p = semantic_adjust p (semantic_priority t);
          p = (if is_background_ai t \<and> 2 < queue_len then saturating_sub p 50 else p)
      in case deadline_ms t of
           None \<Rightarrow> p
         | Some deadline \<Rightarrow>
             (let time_to_deadline = saturating_sub deadline current_time
              in if time_to_deadline < 10 then 0xFFFF
                 else if time_to_deadline < 50 then saturating_add p 100
                 else if time_to_deadline < 200 then saturating_add p 50
                 else p))"

text \<open>One round of the selection loop, on the best task, its priority and the best deadline so far.\<close>

definition consider_task ::
  "u64 \<Rightarrow> nat \<Rightarrow> Kernel \<Rightarrow> TaskId option \<times> u16 \<times> u64 \<Rightarrow> TaskId \<Rightarrow> TaskId option \<times> u16 \<times> u64" where
  "consider_task current_time queue_len k best tid =
     (case get_task tid k of
        None \<Rightarrow> best
      | Some t \<Rightarrow>
          if state t \<noteq> Runnable then best
          else
            (let p = effective_priority current_time queue_len t;
                 (best_id, best_p, best_d) = best;
                 (best_id, best_d) =
                   (case deadline_ms t of
                      Some d \<Rightarrow> if p = best_p \<and> d < best_d then (Some tid, d) else (best_id, best_d)
                    | None \<Rightarrow> (best_id, best_d))
             in if best_p < p
                then (Some tid, p, case deadline_ms t of Some d \<Rightarrow> d | None \<Rightarrow> best_d)
                else (best_id, best_p, best_d)))"

definition select_best :: "u64 \<Rightarrow> Kernel \<Rightarrow> TaskId option" where
  "select_best current_time k =
     (let q = run_queue (scheduler k)
      in fst (foldl (consider_task current_time (length q) k) (None, 0, 0xFFFFFFFFFFFFFFFF) q))"

section \<open>Aging and hints\<close>

definition age_task :: "u64 \<Rightarrow> Task \<Rightarrow> Task" where
  "age_task current_time t =
     (if state t \<noteq> Runnable then t
      else
        (let wait_time = saturating_sub current_time (last_scheduled_ms t)
         in if 1000 < wait_time \<and> priority t < PRIORITY_REALTIME then
              (let boost = (ucast (wait_time div 1000) :: u8) * 10
               in t\<lparr> priority := min (saturating_add (priority t) boost) 200 \<rparr>)
            else t))"

definition age_tasks :: "Kernel \<Rightarrow> Kernel" where
  "age_tasks k = fold (\<lambda>tid. update_task tid (age_task (uptime_ms k))) (run_queue (scheduler k)) k"

definition apply_brain_hint :: "BrainBridgeSnapshot \<Rightarrow> bool \<Rightarrow> bool" where
  "apply_brain_hint hint cpu_boost =
     (if current_intent hint = Compiling \<and> 180 < confidence hint then True
      else if current_intent hint = Idle then False
      else cpu_boost)"

definition adjust_priorities_for_workload :: "BrainBridgeSnapshot \<Rightarrow> Kernel \<Rightarrow> Kernel" where
  "adjust_priorities_for_workload hint k =
     (let for_each = (\<lambda>f. fold (\<lambda>tid. update_task tid f) (run_queue (scheduler k)) k)
      in if confidence hint < 180 then k
         else (case current_intent hint of
             Compiling \<Rightarrow> for_each (\<lambda>t. t\<lparr> priority := saturating_add (base_priority t) 30 \<rparr>)
           | MLTraining \<Rightarrow> for_each (\<lambda>t. t\<lparr> priority := saturating_add (base_priority t) 30 \<rparr>)
           | Gaming \<Rightarrow> for_each (\<lambda>t. t\<lparr> priority := PRIORITY_HIGH \<rparr>)
           | Idle \<Rightarrow> for_each (\<lambda>t. t\<lparr> priority := base_priority t \<rparr>)
           | _ \<Rightarrow> k))"

definition check_brain_hints :: "Kernel \<Rightarrow> Kernel" where
  "check_brain_hints k =
     (case read_hints (bridge_reader k) (bridge_page k) (uptime_ms k) of
        (r, None) \<Rightarrow> k\<lparr> bridge_reader := r \<rparr>
      | (r, Some hint) \<Rightarrow>
          adjust_priorities_for_workload hint
            (k\<lparr> bridge_reader := r,
                scheduler := (scheduler k)\<lparr> current_workload := current_intent hint,
                  current_cpu_boost := apply_brain_hint hint (current_cpu_boost (scheduler k)) \<rparr> \<rparr>))"

section \<open>Scheduling\<close>

text \<open>The periodic work at the head of \<open>schedule_next\<close>.\<close>

definition sched_upkeep :: "Kernel \<Rightarrow> Kernel" where
  "sched_upkeep k0 =
     (let current_time = uptime_ms k0; k = record_scheduler_invocation k0;
          k = (if hint_check_interval (scheduler k) \<le> current_time - last_hint_check (scheduler k)
               then check_brain_hints (k\<lparr> scheduler := (scheduler k)\<lparr> last_hint_check := current_time \<rparr> \<rparr>)
               else k)
      in if aging_interval_ms (scheduler k) \<le> current_time - last_aging_ms (scheduler k)
         then age_tasks (k\<lparr> scheduler := (scheduler k)\<lparr> last_aging_ms := current_time \<rparr> \<rparr>)
         else k)"

text \<open>Fairness: the selected task moves to the back of the queue.\<close>

definition move_to_back :: "TaskId \<Rightarrow> TaskId list \<Rightarrow> TaskId list" where
  "move_to_back tid q = (if tid \<in> set q then remove1 tid q @ [tid] else q)"

definition schedule_next :: "Kernel \<Rightarrow> Kernel \<times> TaskId option" where
  "schedule_next k0 =
     (let current_time = uptime_ms k0; k = sched_upkeep k0; q = run_queue (scheduler k)
      in if q = [] then (k, None)
         else
           (case select_best current_time k of
              None \<Rightarrow> (k, None)
            | Some selected_id \<Rightarrow>
                (update_task selected_id (\<lambda>t. t\<lparr> last_scheduled_ms := current_time \<rparr>)
                   (k\<lparr> scheduler := (scheduler k)\<lparr> run_queue := move_to_back selected_id q \<rparr> \<rparr>),
                 Some selected_id)))"

section \<open>Switching\<close>

text \<open>What a kernel path does: it returns to its caller, it jumps into another task and never
  returns, it panics, or it waits for a lock it holds itself.\<close>

datatype 'a outcome = Returns Kernel 'a | Switches Kernel | Panics | Deadlocks

definition switch_page_table :: "Task \<Rightarrow> Kernel \<Rightarrow> Kernel" where
  "switch_page_table t k = (if page_table_phys t \<noteq> 0 then k\<lparr> cr3 := page_table_phys t \<rparr> else k)"

definition yield_cpu :: "Kernel \<Rightarrow> unit outcome" where
  "yield_cpu k0 =
     (case schedule_next (record_voluntary_yield (current_task_id k0) k0) of
        (k, None) \<Rightarrow> Returns k ()
      | (k, Some nxt) \<Rightarrow>
          (let current_id = current_task_id k
           in if current_id = nxt then
                (case get_task current_id k of
                   Some _ \<Rightarrow> Returns (k\<lparr> context_ptr := Some current_id \<rparr>) ()
                 | None \<Rightarrow> Returns k ())
              else
                (case get_task nxt k of
                   None \<Rightarrow> Panics
                 | Some target \<Rightarrow>
                     Switches ((record_context_switch nxt
                       (set_current_task nxt (switch_page_table target k)))
                         \<lparr> xsave_ptr := Some nxt, context_ptr := Some nxt \<rparr>))))"

text \<open>\<open>switch_to\<close>; the register exchange of its last step is not part of the state.\<close>

definition switch_to :: "TaskId \<Rightarrow> Kernel \<Rightarrow> unit outcome" where
  "switch_to target_id k =
     (let current_id = current_task_id k
      in if current_id \<noteq> 0 \<and> current_id = target_id then
           (case get_task target_id k of
              None \<Rightarrow> Returns k ()
            | Some _ \<Rightarrow> Returns (k\<lparr> context_ptr := Some target_id \<rparr>) ())
         else
           (case get_task target_id k of
              None \<Rightarrow> Returns k ()
            | Some target \<Rightarrow>
                Switches ((set_current_task target_id (switch_page_table target k))
                  \<lparr> context_ptr := Some target_id \<rparr>)))"

section \<open>Preemption\<close>

definition timer_tick_preempt :: "Kernel \<Rightarrow> Kernel \<times> bool" where
  "timer_tick_preempt k =
     (let remaining = ticks_remaining k; k = k\<lparr> ticks_remaining := remaining - 1 \<rparr>
      in if remaining \<le> 1
         then (record_preemption (current_task_id k) (k\<lparr> ticks_remaining := TIME_SLICE_TICKS \<rparr>), True)
         else (k, False))"

definition reset_time_slice :: "Kernel \<Rightarrow> Kernel" where
  "reset_time_slice k = k\<lparr> ticks_remaining := TIME_SLICE_TICKS \<rparr>"

record SavedInterruptContext =
  s_r15 :: u64
  s_r14 :: u64
  s_r13 :: u64
  s_r12 :: u64
  s_r11 :: u64
  s_r10 :: u64
  s_r9 :: u64
  s_r8 :: u64
  s_rbp :: u64
  s_rdi :: u64
  s_rsi :: u64
  s_rdx :: u64
  s_rcx :: u64
  s_rbx :: u64
  s_rax :: u64
  s_rip :: u64
  s_cs :: u64
  s_rflags :: u64
  s_rsp :: u64
  s_ss :: u64

definition save_context :: "SavedInterruptContext \<Rightarrow> Context \<Rightarrow> Context" where
  "save_context s c = c\<lparr>
     rax := s_rax s, rbx := s_rbx s, rcx := s_rcx s, rdx := s_rdx s, rsi := s_rsi s, rdi := s_rdi s,
     rbp := s_rbp s, r8 := s_r8 s, r9 := s_r9 s, r10 := s_r10 s, r11 := s_r11 s, r12 := s_r12 s,
     r13 := s_r13 s, r14 := s_r14 s, r15 := s_r15 s, rip := s_rip s, rsp := s_rsp s,
     rflags := s_rflags s, cs := s_cs s, ss := s_ss s \<rparr>"

text \<open>Which context the timer interrupt returns to: a task's, or the 160 bytes on the stack
  read with the layout of \<open>Context\<close>.\<close>

datatype restore = TaskContext TaskId | StackAsContext Context

definition reinterpret :: "SavedInterruptContext \<Rightarrow> Context" where
  "reinterpret s =
     \<lparr> rsp = s_r15 s, rbp = s_r14 s, rax = s_r13 s, rbx = s_r12 s, rcx = s_r11 s, rdx = s_r10 s, rsi = s_r9 s,
       rdi = s_r8 s, r8 = s_rbp s, r9 = s_rdi s, r10 = s_rsi s, r11 = s_rdx s, r12 = s_rcx s, r13 = s_rbx s,
       r14 = s_rax s, r15 = s_rip s, rip = s_cs s, rflags = s_rflags s, cs = s_rsp s, ss = s_ss s \<rparr>"

definition timer_preempt_handler :: "SavedInterruptContext \<Rightarrow> Kernel \<Rightarrow> Kernel \<times> restore" where
  "timer_preempt_handler saved k0 =
     (let k = tick k0; current_id = current_task_id k
      in if current_id = 0 then (k, StackAsContext (reinterpret saved))
         else if get_task current_id k = None then (k, StackAsContext (reinterpret saved))
         else
           (case schedule_next (update_task current_id (\<lambda>t. t\<lparr> ctx := save_context saved (ctx t) \<rparr>) k) of
              (k, None) \<Rightarrow> (k, TaskContext current_id)
            | (k, Some nxt) \<Rightarrow>
                if nxt = current_id then (k\<lparr> xsave_ptr := Some current_id \<rparr>, TaskContext current_id)
                else
                  (let k = record_context_switch nxt (record_preemption current_id k)
                   in case get_task nxt k of
                        None \<Rightarrow> (k, TaskContext current_id)
                      | Some target \<Rightarrow>
                          ((set_current_task nxt (switch_page_table target k))
                             \<lparr> xsave_ptr := Some nxt, context_ptr := Some nxt \<rparr>,
                           TaskContext nxt))))"

text \<open>The preemption lock, and the timer interrupt: only an interrupt from user mode (privilege
  level 3) with the lock free reaches the handler; otherwise the interrupt only counts the tick.\<close>

definition preempt_disable :: "Kernel \<Rightarrow> Kernel" where
  "preempt_disable k = k\<lparr> preempt_disable_count := preempt_disable_count k + 1 \<rparr>"

definition preempt_enable :: "Kernel \<Rightarrow> Kernel" where
  "preempt_enable k = k\<lparr> preempt_disable_count := preempt_disable_count k - 1 \<rparr>"

definition is_preemption_enabled :: "Kernel \<Rightarrow> bool" where
  "is_preemption_enabled k = (preempt_disable_count k = 0)"

definition irq_timer :: "SavedInterruptContext \<Rightarrow> Kernel \<Rightarrow> Kernel \<times> restore option" where
  "irq_timer saved k =
     (if s_cs saved AND 3 \<noteq> 3 then (tick k, None)
      else if preempt_disable_count k \<noteq> 0 then (tick k, None)
      else (case timer_preempt_handler saved k of (k', r) \<Rightarrow> (k', Some r)))"

section \<open>What scheduling leaves alone\<close>

text \<open>The part of a task that neither scheduling nor accounting changes, and the kernel states that
  agree on it.\<close>

definition core :: "Task \<Rightarrow> Task" where
  "core t = t\<lparr> priority := 0, last_scheduled_ms := 0, task_stats := TaskStatistics_zero \<rparr>"

definition same_core :: "Kernel \<Rightarrow> Kernel \<Rightarrow> bool" where
  "same_core k k' \<longleftrightarrow>
     (\<forall>tid. map_option core (get_task tid k') = map_option core (get_task tid k)) \<and>
     bt_keys (task_table k') = bt_keys (task_table k) \<and> cap_table k' = cap_table k \<and> pmm k' = pmm k \<and>
     next_message_id k' = next_message_id k \<and> next_task_id k' = next_task_id k"

definition same_cpu :: "Kernel \<Rightarrow> Kernel \<Rightarrow> bool" where
  "same_cpu k k' \<longleftrightarrow> current_task_id k' = current_task_id k \<and> cr3 k' = cr3 k \<and> xsave_ptr k' = xsave_ptr k \<and>
     context_ptr k' = context_ptr k \<and> uptime_ms k' = uptime_ms k \<and>
     mset (run_queue (scheduler k')) = mset (run_queue (scheduler k))"

definition sched_frame :: "Kernel \<Rightarrow> Kernel \<Rightarrow> bool" where
  "sched_frame k k' \<longleftrightarrow> same_core k k' \<and> same_cpu k k'"

lemma core_simps [simp]:
  "core (t\<lparr> priority := p \<rparr>) = core t" "core (t\<lparr> last_scheduled_ms := m \<rparr>) = core t"
  "core (t\<lparr> task_stats := st \<rparr>) = core t"
  by (simp_all add: core_def)

lemma core_fields [simp]:
  "state (core t) = state t" "capabilities (core t) = capabilities t" "recv_queue (core t) = recv_queue t"
  "task_id (core t) = task_id t" "ipc_reply (core t) = ipc_reply t" "blocked_on (core t) = blocked_on t"
  "page_table_phys (core t) = page_table_phys t" "ctx (core t) = ctx t"
  "inherited_priority (core t) = inherited_priority t"
  by (simp_all add: core_def)

lemma core_eqD:
  assumes "core a = core b"
  shows "state a = state b" "capabilities a = capabilities b" "recv_queue a = recv_queue b" "task_id a = task_id b"
    "ipc_reply a = ipc_reply b" "blocked_on a = blocked_on b" "page_table_phys a = page_table_phys b" "ctx a = ctx b"
  using assms by (metis core_fields)+

lemma same_core_refl [simp]: "same_core k k"
  by (simp add: same_core_def)

lemma same_core_trans [trans]: "same_core a b \<Longrightarrow> same_core b c \<Longrightarrow> same_core a c"
  by (simp add: same_core_def)

lemma sched_frame_refl [simp]: "sched_frame k k"
  by (simp add: sched_frame_def same_cpu_def)

lemma sched_frame_trans [trans]: "sched_frame a b \<Longrightarrow> sched_frame b c \<Longrightarrow> sched_frame a c"
  by (simp add: sched_frame_def same_cpu_def same_core_def)

lemma same_core_get:
  assumes "same_core k k'" "get_task tid k = Some t"
  obtains t' where "get_task tid k' = Some t'" "core t' = core t"
proof -
  have "map_option core (get_task tid k') = Some (core t)" using assms by (simp add: same_core_def)
  then show thesis using that by auto
qed

lemma same_core_get':
  assumes "same_core k k'" "get_task tid k' = Some t'"
  obtains t where "get_task tid k = Some t" "core t' = core t"
proof -
  have "map_option core (get_task tid k) = map_option core (get_task tid k')" using assms(1) by (simp add: same_core_def)
  then have "map_option core (get_task tid k) = Some (core t')" using assms(2) by simp
  then show thesis using that by auto
qed

lemma same_core_map:
  assumes "same_core k k'" "\<And>t. g (core t) = g t"
  shows "map_option g (get_task i k') = map_option g (get_task i k)"
proof -
  have "map_option g x = map_option g (map_option core x)" for x by (cases x) (simp_all add: assms(2))
  then show ?thesis using assms(1) unfolding same_core_def by metis
qed

lemma sched_frame_update:
  assumes "\<And>t. core (f t) = core t"
  shows "sched_frame k (update_task tid f k)"
  using assms by (auto simp: sched_frame_def same_core_def same_cpu_def option.map_comp comp_def)

lemma sched_frame_fold_update:
  assumes "\<And>t. core (f t) = core t"
  shows "sched_frame k (fold (\<lambda>tid. update_task tid f) xs k)"
proof (induction xs arbitrary: k)
  case (Cons x xs)
  show ?case using sched_frame_trans[OF sched_frame_update[OF assms] Cons.IH] by simp
qed simp

lemma sched_frame_fields:
  "sched_frame k (k\<lparr> bridge_reader := r \<rparr>)" "sched_frame k (k\<lparr> system_stats := s \<rparr>)"
  "sched_frame k (k\<lparr> ticks_remaining := n \<rparr>)"
  "mset (run_queue sc) = mset (run_queue (scheduler k)) \<Longrightarrow> sched_frame k (k\<lparr> scheduler := sc \<rparr>)"
  by (simp_all add: sched_frame_def same_core_def same_cpu_def)

lemma record_frame:
  "sched_frame k (record_voluntary_yield t k)" "sched_frame k (record_preemption t k)"
  "sched_frame k (record_ipc_received t k)" "sched_frame k (record_ipc_replied t k)"
  "sched_frame k (record_ipc_block t k)" "sched_frame k (record_scheduler_invocation k)"
  by (simp_all add: record_voluntary_yield_def record_preemption_def record_ipc_received_def record_ipc_replied_def
      record_ipc_block_def record_scheduler_invocation_def sched_frame_update sched_frame_fields)

lemma record_frame_counted:
  "sched_frame k (record_context_switch t k)" "sched_frame k (record_ipc_sent t k)" "sched_frame k (record_syscall t k)"
  unfolding record_context_switch_def record_ipc_sent_def record_syscall_def Let_def
  by (rule sched_frame_trans[OF sched_frame_update sched_frame_fields(2)]; simp)+

lemma age_task_core [simp]: "core (age_task now t) = core t"
  by (simp add: age_task_def Let_def)

lemma age_tasks_frame: "sched_frame k (age_tasks k)"
  unfolding age_tasks_def by (rule sched_frame_fold_update) simp

lemma adjust_priorities_frame: "sched_frame k (adjust_priorities_for_workload hint k)"
  by (simp add: adjust_priorities_for_workload_def Let_def sched_frame_fold_update split: IntentType.split)

lemma check_brain_hints_frame: "sched_frame k (check_brain_hints k)"
proof -
  have "sched_frame k (k\<lparr> bridge_reader := r, scheduler := (scheduler k)\<lparr> current_workload := w, current_cpu_boost := b \<rparr> \<rparr>)"
    for r w b by (simp add: sched_frame_def same_core_def same_cpu_def)
  then show ?thesis
    using sched_frame_trans[OF _ adjust_priorities_frame]
    by (auto simp: check_brain_hints_def sched_frame_fields split: prod.splits option.splits)
qed

lemma sched_upkeep_frame: "sched_frame k (sched_upkeep k)"
proof -
  have h: "sched_frame a (check_brain_hints (a\<lparr> scheduler := (scheduler a)\<lparr> last_hint_check := n \<rparr> \<rparr>))" for a n
    by (rule sched_frame_trans[OF _ check_brain_hints_frame]) (simp add: sched_frame_fields)
  have g: "sched_frame a (age_tasks (a\<lparr> scheduler := (scheduler a)\<lparr> last_aging_ms := n \<rparr> \<rparr>))" for a n
    by (rule sched_frame_trans[OF _ age_tasks_frame]) (simp add: sched_frame_fields)
  show ?thesis
    unfolding sched_upkeep_def Let_def
    using record_frame(6)[of k] sched_frame_trans[OF record_frame(6) h] sched_frame_trans[OF _ g] by auto
qed

lemma mset_move_to_back [simp]: "mset (move_to_back tid q) = mset q"
  by (simp add: move_to_back_def)

lemma schedule_next_frame:
  assumes "schedule_next k = (k', r)"
  shows "sched_frame k k'"
proof -
  let ?k = "sched_upkeep k"
  have u: "sched_frame k ?k" by (rule sched_upkeep_frame)
  have "sched_frame ?k (update_task i (\<lambda>t. t\<lparr> last_scheduled_ms := n \<rparr>)
      (?k\<lparr> scheduler := (scheduler ?k)\<lparr> run_queue := move_to_back i (run_queue (scheduler ?k)) \<rparr> \<rparr>))" for i n
    by (rule sched_frame_trans[OF _ sched_frame_update]) (simp_all add: sched_frame_fields mset_move_to_back)
  then show ?thesis
    using assms u sched_frame_trans[OF u] by (auto simp: schedule_next_def Let_def split: if_splits option.splits)
qed

section \<open>The selection loop\<close>

text \<open>The runnable tasks of a queue with their effective priorities.\<close>

definition candidate_task :: "Kernel \<Rightarrow> TaskId \<Rightarrow> Task \<Rightarrow> bool" where
  "candidate_task k tid t \<longleftrightarrow> get_task tid k = Some t \<and> state t = Runnable"

text \<open>The loop invariant: the best so far is a candidate of the highest priority seen, and while there
  is none every candidate had priority zero and no deadline below the initial bound.\<close>

definition best_inv :: "u64 \<Rightarrow> nat \<Rightarrow> Kernel \<Rightarrow> TaskId list \<Rightarrow> TaskId option \<times> u16 \<times> u64 \<Rightarrow> bool" where
  "best_inv now n k seen best \<longleftrightarrow>
     (case best of (b, p, d) \<Rightarrow>
       (\<forall>tid \<in> set seen. \<forall>t. candidate_task k tid t \<longrightarrow> effective_priority now n t \<le> p) \<and>
       (case b of
          Some tid \<Rightarrow> tid \<in> set seen \<and> (\<exists>t. candidate_task k tid t \<and> effective_priority now n t = p)
        | None \<Rightarrow> p = 0 \<and> d = 0xFFFFFFFFFFFFFFFF \<and>
            (\<forall>tid \<in> set seen. \<forall>t. candidate_task k tid t \<longrightarrow> deadline_ms t \<in> {None, Some 0xFFFFFFFFFFFFFFFF})))"

lemma word64_max: "(w :: u64) < 0xFFFFFFFFFFFFFFFF \<longleftrightarrow> w \<noteq> 0xFFFFFFFFFFFFFFFF"
proof -
  have "w \<le> 0xFFFFFFFFFFFFFFFF" using unat_lt2p[of w] by (simp add: word_le_nat_alt)
  then show ?thesis by auto
qed

lemma best_inv_step:
  assumes "best_inv now n k seen best"
  shows "best_inv now n k (seen @ [tid]) (consider_task now n k best tid)"
proof (cases "\<exists>t. candidate_task k tid t")
  case False
  then have "consider_task now n k best tid = best"
    by (auto simp: consider_task_def candidate_task_def split: option.splits)
  then show ?thesis using assms False by (auto simp: best_inv_def split: option.splits)
next
  case True
  then obtain t where t: "candidate_task k tid t" by blast
  then have uniq: "candidate_task k tid u \<longleftrightarrow> u = t" for u by (auto simp: candidate_task_def)
  obtain b p d where best: "best = (b, p, d)" by (cases best)
  let ?p = "effective_priority now n t"
  have seen: "\<forall>i \<in> set seen. \<forall>u. candidate_task k i u \<longrightarrow> effective_priority now n u \<le> p"
    using assms by (simp add: best_inv_def best)
  consider (better) "p < ?p" | (tie) e where "?p = p" "deadline_ms t = Some e" "e < d"
    | (worse) "?p \<le> p" "\<not> (?p = p \<and> (\<exists>e. deadline_ms t = Some e \<and> e < d))"
    by (metis not_less)
  then show ?thesis
  proof cases
    case better
    then have "consider_task now n k best tid = (Some tid, ?p, case deadline_ms t of Some e \<Rightarrow> e | None \<Rightarrow> d)"
      using t by (auto simp: consider_task_def candidate_task_def best Let_def split: option.splits)
    moreover have "\<forall>i \<in> set seen. \<forall>u. candidate_task k i u \<longrightarrow> effective_priority now n u \<le> ?p"
      using seen better by fastforce
    ultimately show ?thesis by (simp add: best_inv_def uniq)
  next
    case tie
    then have "consider_task now n k best tid = (Some tid, p, e)"
      using t by (auto simp: consider_task_def candidate_task_def best Let_def)
    then show ?thesis using tie seen by (simp add: best_inv_def uniq)
  next
    case worse
    then have "consider_task now n k best tid = best"
      using t by (auto simp: consider_task_def candidate_task_def best Let_def split: option.splits)
    then show ?thesis
      using assms worse by (cases b; cases "deadline_ms t") (auto simp: best_inv_def best word64_max uniq)
  qed
qed

lemma best_inv_foldl:
  "best_inv now n k seen best \<Longrightarrow> best_inv now n k (seen @ q) (foldl (consider_task now n k) best q)"
proof (induction q arbitrary: seen best)
  case (Cons tid q)
  then show ?case using best_inv_step[of now n k seen best tid] by fastforce
qed simp

lemma select_best_inv:
  "best_inv now (length (run_queue (scheduler k))) k (run_queue (scheduler k))
     (foldl (consider_task now (length (run_queue (scheduler k))) k) (None, 0, 0xFFFFFFFFFFFFFFFF) (run_queue (scheduler k)))"
  using best_inv_foldl[of now _ k "[]" "(None, 0, 0xFFFFFFFFFFFFFFFF)"] by (simp add: best_inv_def)

lemma select_best_Some:
  assumes "select_best now k = Some tid"
  shows "tid \<in> set (run_queue (scheduler k)) \<and> (\<exists>t. candidate_task k tid t \<and>
    (\<forall>i \<in> set (run_queue (scheduler k)). \<forall>u. candidate_task k i u \<longrightarrow>
      effective_priority now (length (run_queue (scheduler k))) u \<le>
      effective_priority now (length (run_queue (scheduler k))) t))"
proof -
  obtain b p d where e: "foldl (consider_task now (length (run_queue (scheduler k))) k)
      (None, 0, 0xFFFFFFFFFFFFFFFF) (run_queue (scheduler k)) = (b, p, d)"
    by (metis prod_cases3)
  then have "b = Some tid" using assms by (simp add: select_best_def Let_def)
  then show ?thesis using select_best_inv[of now k] unfolding e best_inv_def by auto
qed

lemma select_best_None:
  "select_best now k = None \<longleftrightarrow>
     (\<forall>i \<in> set (run_queue (scheduler k)). \<forall>u. candidate_task k i u \<longrightarrow>
        effective_priority now (length (run_queue (scheduler k))) u = 0 \<and>
        deadline_ms u \<in> {None, Some 0xFFFFFFFFFFFFFFFF})"
  (is "?l \<longleftrightarrow> ?r")
proof -
  let ?n = "length (run_queue (scheduler k))"
  obtain b p d where e: "foldl (consider_task now ?n k) (None, 0, 0xFFFFFFFFFFFFFFFF) (run_queue (scheduler k)) = (b, p, d)"
    by (metis prod_cases3)
  have b: "select_best now k = b" using e by (simp add: select_best_def Let_def)
  have none: ?r if "b = None" using that select_best_inv[of now k] unfolding e best_inv_def by auto
  have "foldl (consider_task now n k) (None, 0, 0xFFFFFFFFFFFFFFFF) q = (None, 0, 0xFFFFFFFFFFFFFFFF)"
    if "\<forall>i \<in> set q. \<forall>u. candidate_task k i u \<longrightarrow> effective_priority now n u = 0 \<and>
        deadline_ms u \<in> {None, Some 0xFFFFFFFFFFFFFFFF}" for n q
    using that by (induction q) (auto simp: consider_task_def candidate_task_def Let_def split: option.splits)
  then have "b = None" if ?r using that e by (metis prod.inject)
  then show ?thesis using b none by blast
qed

section \<open>Consistency of the CPU state\<close>

text \<open>The page table root and the pointers the interrupt entry uses belong to the current task; the
  pointers may still be null before the first switch, and a task without a page table of its own runs
  on whatever table is loaded.\<close>

definition cpu_ok :: "Kernel \<Rightarrow> bool" where
  "cpu_ok k \<longleftrightarrow> xsave_ptr k \<in> {None, Some (current_task_id k)} \<and> context_ptr k \<in> {None, Some (current_task_id k)} \<and>
     (case get_task (current_task_id k) k of
        None \<Rightarrow> True
      | Some t \<Rightarrow> page_table_phys t = 0 \<or> cr3 k = page_table_phys t)"

lemma sched_frame_page_table:
  "sched_frame k k' \<Longrightarrow> map_option page_table_phys (get_task t k') = map_option page_table_phys (get_task t k)"
  by (simp add: sched_frame_def same_core_map)

lemma sched_frame_ctx:
  "sched_frame k k' \<Longrightarrow> map_option ctx (get_task t k') = map_option ctx (get_task t k)"
  by (simp add: sched_frame_def same_core_map)

lemma cpu_ok_alt:
  "cpu_ok k \<longleftrightarrow> xsave_ptr k \<in> {None, Some (current_task_id k)} \<and> context_ptr k \<in> {None, Some (current_task_id k)} \<and>
     (\<forall>a. map_option page_table_phys (get_task (current_task_id k) k) = Some a \<longrightarrow> a = 0 \<or> cr3 k = a)"
  by (auto simp: cpu_ok_def split: option.splits)

lemma cpu_ok_frame:
  assumes "sched_frame k k'" "cpu_ok k"
  shows "cpu_ok k'"
proof -
  have c: "current_task_id k' = current_task_id k" "xsave_ptr k' = xsave_ptr k" "context_ptr k' = context_ptr k"
    "cr3 k' = cr3 k"
    using assms(1) by (simp_all add: sched_frame_def same_cpu_def)
  show ?thesis using assms(2) unfolding cpu_ok_alt c sched_frame_page_table[OF assms(1)] .
qed

lemma cpu_ok_switch:
  assumes "get_task tid k = Some t"
  shows "cpu_ok ((set_current_task tid (switch_page_table t k))\<lparr> xsave_ptr := Some tid, context_ptr := Some tid \<rparr>)"
  using assms by (auto simp: cpu_ok_def set_current_task_def switch_page_table_def)

lemma switch_page_table_fields [simp]:
  "get_task i (switch_page_table t k) = get_task i k" "current_task_id (switch_page_table t k) = current_task_id k"
  by (simp_all add: switch_page_table_def)

lemma set_current_task_fields [simp]:
  "get_task i (set_current_task t k) = get_task i k" "current_task_id (set_current_task t k) = t"
  by (simp_all add: set_current_task_def)

lemma schedule_next_Some:
  assumes "schedule_next k = (k', Some tid)"
  shows "select_best (uptime_ms k) (sched_upkeep k) = Some tid"
    "run_queue (scheduler k') = move_to_back tid (run_queue (scheduler (sched_upkeep k)))"
  using assms by (auto simp: schedule_next_def Let_def split: if_splits option.splits)

lemma schedule_next_runnable:
  assumes "schedule_next k = (k', Some tid)"
  obtains t where "get_task tid k' = Some t" "state t = Runnable"
proof -
  obtain u where u: "get_task tid (sched_upkeep k) = Some u" "state u = Runnable"
    using select_best_Some[OF schedule_next_Some(1)[OF assms]] by (auto simp: candidate_task_def)
  then show thesis
    using assms that by (auto simp: schedule_next_def Let_def split: if_splits option.splits)
qed

section \<open>Properties\<close>

definition demo_ready :: Kernel where
  "demo_ready = enqueue 2 (enqueue 1 demo_kernel)"

lemma demo_ready_simps:
  "scheduler demo_ready = EnhancedScheduler_new\<lparr> run_queue := [1, 2] \<rparr>" "uptime_ms demo_ready = 0"
  "get_task t demo_ready = get_task t demo_kernel" "current_task_id demo_ready = 0"
  by (simp_all add: demo_ready_def enqueue_def add_task_def demo_tasks EnhancedScheduler_new_def)

lemma demo_upkeep: "sched_upkeep demo_ready = record_scheduler_invocation demo_ready"
  by (simp add: sched_upkeep_def record_scheduler_invocation_def demo_ready_simps EnhancedScheduler_new_def)

lemma demo_schedule: "schedule_next demo_ready = (fst (schedule_next demo_ready), Some 1)"
  by (simp add: schedule_next_def demo_upkeep Let_def select_best_def demo_ready_simps demo_get_task consider_task_def
      record_scheduler_invocation_def effective_priority_def Task_new_def semantic_adjust_def PRIORITY_NORMAL_def
      EnhancedScheduler_new_def)

text \<open>C25: the scheduler selects a task of its run queue that is runnable and whose effective priority
  (base or inherited priority, semantic adjustment, deadline boost, after this round's hints and aging)
  is the highest of all runnable tasks in the queue; the selected task moves to the back, and no entry of
  the queue is lost or duplicated.\<close>

theorem schedule_next_best:
  assumes "schedule_next k = (k', Some tid)"
  defines "k1 \<equiv> sched_upkeep k" and "n \<equiv> length (run_queue (scheduler (sched_upkeep k)))"
  shows "tid \<in> set (run_queue (scheduler k)) \<and> mset (run_queue (scheduler k')) = mset (run_queue (scheduler k)) \<and>
    last (run_queue (scheduler k')) = tid \<and>
    (\<exists>t. get_task tid k1 = Some t \<and> state t = Runnable \<and>
      (\<forall>i u. i \<in> set (run_queue (scheduler k)) \<and> get_task i k1 = Some u \<and> state u = Runnable \<longrightarrow>
        effective_priority (uptime_ms k) n u \<le> effective_priority (uptime_ms k) n t))"
proof -
  have "mset (run_queue (scheduler k1)) = mset (run_queue (scheduler k))"
    using sched_upkeep_frame[of k] by (simp add: k1_def sched_frame_def same_cpu_def)
  then have q: "set (run_queue (scheduler k1)) = set (run_queue (scheduler k))" by (metis set_mset_mset)
  note b = select_best_Some[OF schedule_next_Some(1)[OF assms(1)]]
  have "last (run_queue (scheduler k')) = tid"
    using b schedule_next_Some(2)[OF assms(1)] by (auto simp: move_to_back_def)
  moreover have "mset (run_queue (scheduler k')) = mset (run_queue (scheduler k))"
    using schedule_next_frame[OF assms(1)] by (simp add: sched_frame_def same_cpu_def)
  ultimately show ?thesis
    using b q unfolding k1_def n_def candidate_task_def by auto
qed

theorem schedule_next_best_witness:
  "let k = demo_ready; k' = fst (schedule_next k)
   in 1 \<in> set (run_queue (scheduler k)) \<and> mset (run_queue (scheduler k')) = mset (run_queue (scheduler k)) \<and>
     last (run_queue (scheduler k')) = 1"
  using schedule_next_best[OF demo_schedule] by (simp add: Let_def)

text \<open>The scheduler goes idle exactly when every runnable task of the queue has effective priority
  zero and no deadline (a deadline at the largest time counts as none). A runnable task with priority
  zero and no deadline is therefore never selected, not even on an otherwise idle system.\<close>

theorem schedule_next_idle:
  "snd (schedule_next k) = None \<longleftrightarrow>
     (\<forall>i u. i \<in> set (run_queue (scheduler k)) \<and> get_task i (sched_upkeep k) = Some u \<and> state u = Runnable \<longrightarrow>
        effective_priority (uptime_ms k) (length (run_queue (scheduler (sched_upkeep k)))) u = 0 \<and>
        deadline_ms u \<in> {None, Some 0xFFFFFFFFFFFFFFFF})"
proof -
  have "mset (run_queue (scheduler (sched_upkeep k))) = mset (run_queue (scheduler k))"
    using sched_upkeep_frame[of k] by (simp add: sched_frame_def same_cpu_def)
  then have q: "set (run_queue (scheduler (sched_upkeep k))) = set (run_queue (scheduler k))" by (metis set_mset_mset)
  have "snd (schedule_next k) = None \<longleftrightarrow> select_best (uptime_ms k) (sched_upkeep k) = None"
    by (auto simp: schedule_next_def Let_def select_best_def split: option.splits)
  then show ?thesis unfolding select_best_None q candidate_task_def by blast
qed

theorem schedule_next_idle_witness:
  "let k = update_task 2 (\<lambda>t. t\<lparr> semantic_priority := 0 \<rparr>) (update_task 1 (\<lambda>t. t\<lparr> semantic_priority := 0 \<rparr>) demo_ready)
   in map_option state (get_task 1 k) = Some Runnable \<and> snd (schedule_next k) = None"
proof -
  let ?k = "update_task 2 (\<lambda>t. t\<lparr> semantic_priority := 0 \<rparr>) (update_task 1 (\<lambda>t. t\<lparr> semantic_priority := 0 \<rparr>) demo_ready)"
  have u: "sched_upkeep ?k = record_scheduler_invocation ?k"
    by (simp add: sched_upkeep_def record_scheduler_invocation_def demo_ready_simps EnhancedScheduler_new_def)
  have "snd (schedule_next ?k) = None"
    unfolding schedule_next_idle u
    by (auto simp: record_scheduler_invocation_def demo_ready_simps demo_get_task Task_new_def effective_priority_def
        semantic_adjust_def PRIORITY_NORMAL_def)
  then show ?thesis by (simp add: demo_ready_simps demo_get_task Task_new_def)
qed

lemma save_context_total: "save_context saved c = save_context saved Context_zero"
  by (simp add: save_context_def)

lemma cpu_ok_same_task: "cpu_ok k \<Longrightarrow> cpu_ok (k\<lparr> xsave_ptr := Some (current_task_id k) \<rparr>)"
  by (auto simp: cpu_ok_def split: option.splits)

lemma tick_fields [simp]: "current_task_id (tick k) = current_task_id k" "get_task i (tick k) = get_task i k"
  by (simp_all add: tick_def)

lemma preempt_enter:
  fixes saved :: SavedInterruptContext
  assumes "cpu_ok k" "get_task (current_task_id k) k = Some t"
  defines "k1 \<equiv> update_task (current_task_id k) (\<lambda>t. t\<lparr> ctx := save_context saved (ctx t) \<rparr>) (tick k)"
  shows "cpu_ok k1" "current_task_id k1 = current_task_id k"
    "map_option ctx (get_task i k1) = (if i = current_task_id k then Some (save_context saved Context_zero)
       else map_option ctx (get_task i k))"
  using assms(1,2) save_context_total[of saved "ctx t"] by (simp_all add: k1_def tick_def cpu_ok_def)

text \<open>C26: a timer interrupt in a running task saves all twenty registers into that task and no other,
  and returns to the context of the task it made current; the page table root, the FPU save area and
  the system-call context all belong to that same task, which is the interrupted one or a runnable one.\<close>

theorem preempt_consistent:
  assumes "cpu_ok k" "current_task_id k \<noteq> 0" "get_task (current_task_id k) k = Some t"
    and "timer_preempt_handler saved k = (k', r)"
  shows "r = TaskContext (current_task_id k') \<and> cpu_ok k' \<and>
    map_option ctx (get_task (current_task_id k) k') = Some (save_context saved Context_zero) \<and>
    (\<forall>i. i \<noteq> current_task_id k \<longrightarrow> map_option ctx (get_task i k') = map_option ctx (get_task i k)) \<and>
    (current_task_id k' = current_task_id k \<or> map_option state (get_task (current_task_id k') k') = Some Runnable)"
proof -
  let ?c = "current_task_id k"
  let ?k1 = "update_task ?c (\<lambda>t. t\<lparr> ctx := save_context saved (ctx t) \<rparr>) (tick k)"
  note e = preempt_enter[OF assms(1,3), where saved = saved]
  obtain k2 s where s: "schedule_next ?k1 = (k2, s)" by fastforce
  have f: "sched_frame ?k1 k2" using s by (rule schedule_next_frame)
  then have c2: "current_task_id k2 = ?c" using e(2) by (simp add: sched_frame_def same_cpu_def)
  have h: "timer_preempt_handler saved k = (case s of None \<Rightarrow> (k2, TaskContext ?c)
      | Some n \<Rightarrow> if n = ?c then (k2\<lparr> xsave_ptr := Some ?c \<rparr>, TaskContext ?c)
        else (let k3 = record_context_switch n (record_preemption ?c k2)
              in case get_task n k3 of None \<Rightarrow> (k3, TaskContext ?c)
                | Some target \<Rightarrow> ((set_current_task n (switch_page_table target k3))
                    \<lparr> xsave_ptr := Some n, context_ptr := Some n \<rparr>, TaskContext n)))"
    using assms(2,3) s by (auto simp: timer_preempt_handler_def Let_def split: option.split)
  have ctxs: "map_option ctx (get_task i k2) = (if i = ?c then Some (save_context saved Context_zero)
       else map_option ctx (get_task i k))" for i
    using sched_frame_ctx[OF f] e(3) by simp
  consider (stay) "s = None \<or> s = Some ?c" | (go) n where "s = Some n" "n \<noteq> ?c" by (cases s) auto
  then show ?thesis
  proof cases
    case stay
    then have "r = TaskContext ?c" "k' = k2 \<or> k' = k2\<lparr> xsave_ptr := Some ?c \<rparr>" using h assms(4) by auto
    then show ?thesis using cpu_ok_frame[OF f e(1)] cpu_ok_same_task[of k2] c2
      by (elim disjE) (simp_all add: ctxs del: map_option_eq_Some)
  next
    case go
    let ?k3 = "record_context_switch n (record_preemption ?c k2)"
    have f3: "sched_frame k2 ?k3" by (rule sched_frame_trans[OF record_frame(2) record_frame_counted(1)])
    obtain u where u: "get_task n k2 = Some u" "state u = Runnable"
      using schedule_next_runnable s go(1) by metis
    then obtain u3 where u3: "get_task n ?k3 = Some u3" "core u3 = core u"
      using f3 same_core_get unfolding sched_frame_def by metis
    have k': "k' = (set_current_task n (switch_page_table u3 ?k3))\<lparr> xsave_ptr := Some n, context_ptr := Some n \<rparr>"
      "r = TaskContext n"
      using h assms(4) go u3(1) by (auto simp: Let_def)
    show ?thesis
      using cpu_ok_switch[OF u3(1)] sched_frame_ctx[OF f3] ctxs u3 u(2) core_eqD(1)[OF u3(2)] k' by simp
  qed
qed

theorem preempt_consistent_witness:
  "let k = demo_ready\<lparr> current_task_id := 2 \<rparr>; saved = SavedInterruptContext.make 1 2 3 4 5 6 7 8 9 10 11 12 13 14 15 16 17 18 19 20;
       k' = fst (timer_preempt_handler saved k)
   in snd (timer_preempt_handler saved k) = TaskContext (current_task_id k') \<and> cpu_ok k' \<and>
    map_option ctx (get_task 2 k') = Some (save_context saved Context_zero)"
proof -
  let ?k = "demo_ready\<lparr> current_task_id := 2 \<rparr>"
  have "cpu_ok ?k"
    by (simp add: cpu_ok_def demo_ready_simps demo_get_task Task_new_def)
      (simp add: demo_ready_def enqueue_def demo_kernel_def insert_task_def Kernel_boot_def)
  moreover have "get_task (current_task_id ?k) ?k = Some (Task_new 0 2 0x400000)"
    by (simp add: demo_ready_simps demo_get_task)
  ultimately show ?thesis
    using preempt_consistent[of ?k _ _ _ _, OF _ _ _ prod.collapse[symmetric]] by (simp add: Let_def)
qed

text \<open>Without a current task the interrupt returns to its own stack frame read as a \<open>Context\<close>. The two
  layouts differ, so the instruction pointer that is restored is the saved code segment selector and
  the stack pointer is the saved r15.\<close>

theorem preempt_no_task_misread:
  assumes "current_task_id k = 0 \<or> get_task (current_task_id k) k = None"
  shows "\<exists>c. snd (timer_preempt_handler saved k) = StackAsContext c \<and> rip c = s_cs saved \<and> rsp c = s_r15 saved \<and>
    cs c = s_rsp saved"
  using assms by (auto simp: timer_preempt_handler_def Let_def tick_def reinterpret_def)

theorem preempt_no_task_misread_witness:
  "\<exists>c. snd (timer_preempt_handler (SavedInterruptContext.make 1 2 3 4 5 6 7 8 9 10 11 12 13 14 15 0x401000 0x23 0x202 0x7FFF0000 0x1B)
      demo_ready) = StackAsContext c \<and> rip c = 0x23 \<and> rsp c = 1 \<and> cs c = 0x7FFF0000"
  using preempt_no_task_misread[of demo_ready "SavedInterruptContext.make 1 2 3 4 5 6 7 8 9 10 11 12 13 14 15 0x401000 0x23 0x202 0x7FFF0000 0x1B"]
  by (simp add: demo_ready_simps SavedInterruptContext.make_def)

lemma unat_min: "unat (min a b) = min (unat a) (unat b)"
  by (simp add: min_def word_le_nat_alt)

text \<open>Aging raises a runnable task that has waited more than a second by ten per second of waiting,
  but the number of seconds is reduced modulo 256 before and the product after the multiplication, and
  the result is cut at 200: a task of priority 201 to 254 is lowered, and a long wait can give no boost.\<close>

theorem age_task_exact:
  assumes "state t = Runnable" "1000 < unat now - unat (last_scheduled_ms t)" "unat (priority t) < 255"
  shows "unat (priority (age_task now t)) =
    min 200 (unat (priority t) + 10 * ((unat now - unat (last_scheduled_ms t)) div 1000) mod 256)"
proof -
  let ?w = "saturating_sub now (last_scheduled_ms t)"
  have w: "unat ?w = unat now - unat (last_scheduled_ms t)" by (rule unat_saturating_sub)
  have "unat ?w div 1000 < 2 ^ 64" using unat_lt2p[of ?w] div_le_dividend[of "unat ?w" 1000] by simp
  then have b: "unat ((ucast (?w div 1000) :: u8) * 10) = 10 * (unat ?w div 1000) mod 256"
    by (simp add: unat_word_ariths unsigned_ucast_eq take_bit_eq_mod unat_div mod_mult_right_eq mult.commute[of _ 10])
  have "priority (age_task now t) = min (saturating_add (priority t) ((ucast (?w div 1000) :: u8) * 10)) 200"
    using assms w by (simp add: age_task_def Let_def word_less_nat_alt PRIORITY_REALTIME_def)
  then show ?thesis using b w by (simp add: unat_min unat_saturating_add) (simp add: min_def)
qed

theorem age_task_exact_witness:
  "unat (priority (age_task 256000 ((Task_new 0 1 0)\<lparr> priority := 100 \<rparr>))) = 100 \<and>
   unat (priority (age_task 2000 ((Task_new 0 1 0)\<lparr> priority := 240 \<rparr>))) = 200"
  using age_task_exact[of "(Task_new 0 1 0)\<lparr> priority := 100 \<rparr>" 256000]
    age_task_exact[of "(Task_new 0 1 0)\<lparr> priority := 240 \<rparr>" 2000]
  by (simp add: Task_new_def)

end
