(* ===== verification/Ipc.thy ===== *)
theory Ipc
  imports Capability Scheduler
begin

text \<open>
  Inter-process communication: the send paths of kernel/src/ipc/send.rs, the
  receive and reply paths of kernel/src/ipc/receive.rs, the system calls on them
  (kernel/src/arch/x86_64/syscall/handlers/ipc.rs), and the part of task exit
  (handlers/task.rs) that wakes the waiters and drops the capabilities.

  A path that switches to another task does not come back: the blocked task is
  resumed in user mode with the reply in its saved registers.
\<close>

section \<open>Sending\<close>

datatype Errno = EINVAL | EPERM | ENOBUFS | EDEAD | ECAPFAIL | ENOTASK | EWOULDBLOCK | ESRCH

definition capability_check :: "Task \<Rightarrow> TaskId \<Rightarrow> Kernel \<Rightarrow> bool" where
  "capability_check t target k = has_ipc_send (task_id t) target k"

definition transfer_capability :: "Task \<Rightarrow> Task \<Rightarrow> u32 \<Rightarrow> Kernel \<Rightarrow> Kernel \<times> (Errno, unit) result" where
  "transfer_capability sndr target cap_id k =
     (case TransferableCap_check cap_id k of
        None \<Rightarrow> (k, Err ECAPFAIL)
      | Some c \<Rightarrow>
          (case transfer (task_id sndr) (task_id target) c k of
             (k', Err _) \<Rightarrow> (k', Err ECAPFAIL)
           | (k', Ok _) \<Rightarrow> (k', Ok ())))"

text \<open>Steps 1 to 5, which the two send paths share: the checks, the authenticated copy of the message
  and the capability transfer.\<close>

definition ipc_prepare :: "IpcType \<Rightarrow> TaskId \<Rightarrow> IpcMessage \<Rightarrow> Kernel \<Rightarrow> (Errno, IpcMessage) result outcome" where
  "ipc_prepare mtype target msg k =
     (case get_task target k of
        None \<Rightarrow> Returns k (Err EINVAL)
      | Some target_task \<Rightarrow>
          if state target_task = Exited then Returns k (Err EDEAD)
          else
            (case current_task k of
               None \<Rightarrow> Panics
             | Some current \<Rightarrow>
                 if \<not> capability_check current target k then Returns k (Err EPERM)
                 else
                   (let (k1, mid) = fresh_message_id k;
                        kernel_msg = msg\<lparr> sender := task_id current, msg_type := mtype, msg_id := mid \<rparr>
                    in case cap kernel_msg of
                         None \<Rightarrow> Returns k1 (Ok kernel_msg)
                       | Some cap_id \<Rightarrow>
                           (case transfer_capability current target_task cap_id k1 of
                              (k2, Err e) \<Rightarrow> Returns k2 (Err e)
                            | (k2, Ok _) \<Rightarrow> Returns k2 (Ok kernel_msg)))))"

definition push_message :: "TaskId \<Rightarrow> IpcMessage \<Rightarrow> Kernel \<Rightarrow> Kernel \<times> bool" where
  "push_message target m k =
     (case get_task target k of
        None \<Rightarrow> (k, False)
      | Some t \<Rightarrow>
          (case push (recv_queue t) m of (q, ok) \<Rightarrow> (update_task target (\<lambda>t. t\<lparr> recv_queue := q \<rparr>) k, ok)))"

definition wake_receiver :: "TaskId \<Rightarrow> Kernel \<Rightarrow> Kernel" where
  "wake_receiver target k =
     (case get_task target k of
        None \<Rightarrow> k
      | Some t \<Rightarrow>
          if state t = BlockedOnReceive
          then enqueue target (update_task target (\<lambda>t. t\<lparr> state := Runnable \<rparr>) k)
          else k)"

text \<open>Steps 7 and 8 of \<open>ipc_send\<close>: block the sender, lend its priority to the target, wake the target.\<close>

definition block_and_wake :: "TaskId \<Rightarrow> TaskId \<Rightarrow> Kernel \<Rightarrow> Kernel" where
  "block_and_wake current_id target k =
     (case get_task current_id k of
        None \<Rightarrow> k
      | Some current \<Rightarrow>
          (let sender_priority = priority current;
               k1 = update_task current_id (\<lambda>t. t\<lparr> state := BlockedOnSend target, blocked_on := Some target, ipc_reply := None \<rparr>) k;
               k2 = update_task target (\<lambda>t. if inherited_priority t < sender_priority
                      then t\<lparr> inherited_priority := sender_priority \<rparr> else t) k1
           in wake_receiver target k2))"

definition take_reply :: "TaskId \<Rightarrow> Kernel \<Rightarrow> Kernel \<times> (Errno, IpcMessage) result" where
  "take_reply tid k =
     (case get_task tid k of
        None \<Rightarrow> (k, Err EINVAL)
      | Some t \<Rightarrow>
          (update_task tid (\<lambda>t. t\<lparr> ipc_reply := None \<rparr>) k,
           case ipc_reply t of None \<Rightarrow> Err EINVAL | Some m \<Rightarrow> Ok m))"

definition ipc_send :: "TaskId \<Rightarrow> IpcMessage \<Rightarrow> Kernel \<Rightarrow> (Errno, IpcMessage) result outcome" where
  "ipc_send target msg k =
     (case ipc_prepare Request target msg k of
        Returns k1 (Ok kernel_msg) \<Rightarrow>
          (case push_message target kernel_msg k1 of
             (k2, False) \<Rightarrow> Returns k2 (Err ENOBUFS)
           | (k2, True) \<Rightarrow>
               (case yield_cpu (block_and_wake (current_task_id k) target k2) of
                  Returns k3 _ \<Rightarrow> (case take_reply (current_task_id k) k3 of (k4, r) \<Rightarrow> Returns k4 r)
                | Switches k3 \<Rightarrow> Switches k3
                | Panics \<Rightarrow> Panics
                | Deadlocks \<Rightarrow> Deadlocks))
      | Returns k1 (Err e) \<Rightarrow> Returns k1 (Err e)
      | Switches k1 \<Rightarrow> Switches k1
      | Panics \<Rightarrow> Panics
      | Deadlocks \<Rightarrow> Deadlocks)"

definition ipc_send_async :: "TaskId \<Rightarrow> IpcMessage \<Rightarrow> Kernel \<Rightarrow> (Errno, unit) result outcome" where
  "ipc_send_async target msg k =
     (case ipc_prepare Notification target msg k of
        Returns k1 (Ok kernel_msg) \<Rightarrow>
          (case push_message target kernel_msg k1 of
             (k2, False) \<Rightarrow> Returns k2 (Err ENOBUFS)
           | (k2, True) \<Rightarrow> Returns (wake_receiver target k2) (Ok ()))
      | Returns k1 (Err e) \<Rightarrow> Returns k1 (Err e)
      | Switches k1 \<Rightarrow> Switches k1
      | Panics \<Rightarrow> Panics
      | Deadlocks \<Rightarrow> Deadlocks)"

section \<open>Receiving\<close>

text \<open>Popping from the current task's queue; \<open>None\<close> is the panic of \<open>current_task\<close>.\<close>

definition pop_message :: "Kernel \<Rightarrow> (Kernel \<times> IpcMessage option) option" where
  "pop_message k =
     (case current_task k of
        None \<Rightarrow> None
      | Some t \<Rightarrow>
          (case pop (recv_queue t) of
             (q, m) \<Rightarrow> Some (update_task (current_task_id k) (\<lambda>t. t\<lparr> recv_queue := q \<rparr>) k, m)))"

definition ipc_receive :: "Kernel \<Rightarrow> (Errno, IpcMessage) result outcome" where
  "ipc_receive k =
     (case pop_message k of
        None \<Rightarrow> Panics
      | Some (k1, Some m) \<Rightarrow> Returns k1 (Ok m)
      | Some (k1, None) \<Rightarrow>
          Returns (update_task (current_task_id k) (\<lambda>t. t\<lparr> state := BlockedOnReceive \<rparr>) k1) (Err EWOULDBLOCK))"

definition ipc_try_receive :: "Kernel \<Rightarrow> (Errno, IpcMessage option) result outcome" where
  "ipc_try_receive k = (case pop_message k of None \<Rightarrow> Panics | Some (k1, m) \<Rightarrow> Returns k1 (Ok m))"

text \<open>The receiver holds the sender's lock when it takes its own: a message the task sent to itself
  makes it wait for itself.\<close>

definition ipc_recv_async :: "Kernel \<Rightarrow> (Errno, CallerToken \<times> IpcMessage) result outcome" where
  "ipc_recv_async k =
     (case pop_message k of
        None \<Rightarrow> Panics
      | Some (k1, None) \<Rightarrow> Returns k1 (Err EWOULDBLOCK)
      | Some (k1, Some m) \<Rightarrow>
          (let token = CallerToken_new (sender m) (msg_id m)
           in if msg_type m = Request \<and> get_task (sender m) k1 \<noteq> None then
                if sender m = current_task_id k1 then Deadlocks
                else
                  Returns (update_task (sender m)
                    (\<lambda>t. if state t = BlockedOnSend (current_task_id k1)
                         then t\<lparr> state := WaitingForReply (msg_id m) \<rparr> else t) k1) (Ok (token, m))
              else Returns k1 (Ok (token, m))))"

section \<open>Replying\<close>

text \<open>The delivery shared by the two reply paths, under the sender's lock.\<close>

definition deliver_reply :: "TaskId \<Rightarrow> TaskId \<Rightarrow> u64 list \<Rightarrow> Kernel \<Rightarrow> Kernel" where
  "deliver_reply replier_id sender_id reply_payload k =
     (let (k1, mid) = fresh_message_id k;
          reply_msg = (new_reply reply_payload)\<lparr> sender := replier_id, msg_id := mid \<rparr>;
          k2 = update_task sender_id
                 (\<lambda>t. t\<lparr> ipc_reply := Some reply_msg, ctx := (ctx t)\<lparr> rax := reply_payload ! 0 \<rparr>,
                        state := Runnable, blocked_on := None \<rparr>) k1;
          k3 = update_task (current_task_id k) (\<lambda>t. t\<lparr> inherited_priority := 0 \<rparr>) k2
      in enqueue sender_id k3)"

definition ipc_reply_to :: "IpcMessage \<Rightarrow> u64 list \<Rightarrow> Kernel \<Rightarrow> (Errno, unit) result outcome" where
  "ipc_reply_to request reply_payload k =
     (case current_task k of
        None \<Rightarrow> Panics
      | Some current \<Rightarrow>
          (case get_task (sender request) k of
             None \<Rightarrow> Returns k (Err EINVAL)
           | Some sender_task \<Rightarrow>
               if state sender_task = BlockedOnSend (task_id current)
               then Returns (deliver_reply (task_id current) (sender request) reply_payload k) (Ok ())
               else Returns k (Err EINVAL)))"

definition ipc_reply_with_token :: "CallerToken \<Rightarrow> u64 list \<Rightarrow> Kernel \<Rightarrow> (Errno, unit) result outcome" where
  "ipc_reply_with_token token reply_payload k =
     (case current_task k of
        None \<Rightarrow> Panics
      | Some current \<Rightarrow>
          (case decode token of
             None \<Rightarrow> Returns k (Err EINVAL)
           | Some (sender_pid, request_id) \<Rightarrow>
               (case get_task sender_pid k of
                  None \<Rightarrow> Returns k (Err ESRCH)
                | Some sender_task \<Rightarrow>
                    if state sender_task = WaitingForReply request_id
                    then Returns (deliver_reply (task_id current) sender_pid reply_payload k) (Ok ())
                    else Returns k (Err EINVAL))))"

section \<open>Task exit\<close>

definition waits_on :: "TaskId \<Rightarrow> Task \<Rightarrow> bool" where
  "waits_on exiting t \<longleftrightarrow> blocked_on t = Some exiting \<and>
     (state t = BlockedOnSend exiting \<or> (case state t of WaitingForReply _ \<Rightarrow> True | _ \<Rightarrow> False))"

definition unblock_one :: "TaskId \<Rightarrow> TaskId \<Rightarrow> Kernel \<times> u32 \<Rightarrow> Kernel \<times> u32" where
  "unblock_one exiting tid s =
     (case s of (k, n) \<Rightarrow>
        (case get_task tid k of
           None \<Rightarrow> s
         | Some t \<Rightarrow>
             if \<not> waits_on exiting t then s
             else
               (enqueue tid (update_task tid (\<lambda>t. t\<lparr> ctx := (ctx t)\<lparr> rax := 0xFFFFFFFFFFFFFFFF \<rparr>, state := Runnable,
                  blocked_on := None, ipc_reply := None \<rparr>) k), n + 1)))"

definition unblock_waiters_for :: "TaskId \<Rightarrow> Kernel \<Rightarrow> Kernel \<times> u32" where
  "unblock_waiters_for exiting k = fold (unblock_one exiting) (bt_keys (task_table k)) (k, 0)"

text \<open>Revoking the drained capability list; the release of DMA pages may panic.\<close>

fun revoke_all :: "CapabilityId list \<Rightarrow> Kernel \<Rightarrow> Kernel option" where
  "revoke_all [] k = Some k"
| "revoke_all (c # rest) k =
     (case revoke_with_cleanup c k of None \<Rightarrow> None | Some (k', _) \<Rightarrow> revoke_all rest k')"

text \<open>The task-table, waiter and capability part of \<open>syscall_exit\<close>. The TCP slots, the shared-memory
  regions, the page table and the kernel stack it also releases are not part of the kernel state here.\<close>

definition exit_task :: "Kernel \<Rightarrow> Kernel option" where
  "exit_task k =
     (let current_id = current_task_id k;
          k1 = update_task current_id (\<lambda>t. t\<lparr> state := Exited \<rparr>) k;
          k2 = fst (unblock_waiters_for current_id k1);
          cap_ids = (case get_task current_id k2 of None \<Rightarrow> [] | Some t \<Rightarrow> capabilities t);
          k3 = update_task current_id (\<lambda>t. t\<lparr> capabilities := [] \<rparr>) k2
      in case revoke_all cap_ids k3 of
           None \<Rightarrow> None
         | Some k4 \<Rightarrow> Some (fst (remove_task current_id k4)))"

section \<open>System calls\<close>

definition syscall_ipc_send :: "u64 \<Rightarrow> u64 \<Rightarrow> u64 \<Rightarrow> Kernel \<Rightarrow> u64 outcome" where
  "syscall_ipc_send target payload0 payload1 k =
     (let msg = (new_request [payload0, payload1, 0, 0])\<lparr> sender := current_task_id k \<rparr>
      in case ipc_send (ucast target) msg k of
           Returns k1 (Ok reply) \<Rightarrow> Returns (record_ipc_sent (current_task_id k1) k1) (payload reply ! 0)
         | Returns k1 (Err _) \<Rightarrow> Returns k1 0xFFFFFFFFFFFFFFFF
         | Switches k1 \<Rightarrow> Switches k1
         | Panics \<Rightarrow> Panics
         | Deadlocks \<Rightarrow> Deadlocks)"

definition store_request :: "IpcMessage \<Rightarrow> Kernel \<Rightarrow> Kernel" where
  "store_request m k =
     update_task (current_task_id k) (\<lambda>t. t\<lparr> ipc_reply := Some m \<rparr>) (record_ipc_received (current_task_id k) k)"

definition syscall_ipc_receive :: "Kernel \<Rightarrow> u64 outcome" where
  "syscall_ipc_receive k =
     (case ipc_receive k of
        Returns k1 (Ok m) \<Rightarrow>
          Returns (store_request m k1) (push_bit 32 (payload m ! 0 AND 0xFFFFFFFF) OR ucast (sender m))
      | Returns k1 (Err EWOULDBLOCK) \<Rightarrow> Returns k1 0xFFFFFFFFFFFFFFFD
      | Returns k1 (Err _) \<Rightarrow> Returns k1 0xFFFFFFFFFFFFFFFC
      | Switches k1 \<Rightarrow> Switches k1
      | Panics \<Rightarrow> Panics
      | Deadlocks \<Rightarrow> Deadlocks)"

definition syscall_ipc_reply :: "u64 \<Rightarrow> u64 \<Rightarrow> Kernel \<Rightarrow> u64 outcome" where
  "syscall_ipc_reply payload0 payload1 k =
     (case current_task k of
        None \<Rightarrow> Returns k 0xFFFFFFFFFFFFFFFF
      | Some t \<Rightarrow>
          (case ipc_reply t of
             None \<Rightarrow> Returns k 0xFFFFFFFFFFFFFFFF
           | Some request_msg \<Rightarrow>
               (case ipc_reply_to request_msg [payload0, payload1, 0, 0] k of
                  Returns k1 (Ok _) \<Rightarrow> Returns (record_ipc_replied (current_task_id k) k1) 0
                | Returns k1 (Err _) \<Rightarrow> Returns k1 0xFFFFFFFFFFFFFFFF
                | Switches k1 \<Rightarrow> Switches k1
                | Panics \<Rightarrow> Panics
                | Deadlocks \<Rightarrow> Deadlocks)))"

definition syscall_ipc_recv_async :: "Kernel \<Rightarrow> u64 outcome" where
  "syscall_ipc_recv_async k =
     (case ipc_recv_async k of
        Returns k1 (Ok (token, m)) \<Rightarrow> Returns (store_request m k1) token
      | Returns k1 (Err EWOULDBLOCK) \<Rightarrow> Returns k1 0xFFFFFFFFFFFFFFFD
      | Returns k1 (Err _) \<Rightarrow> Returns k1 0xFFFFFFFFFFFFFFFC
      | Switches k1 \<Rightarrow> Switches k1
      | Panics \<Rightarrow> Panics
      | Deadlocks \<Rightarrow> Deadlocks)"

definition syscall_ipc_reply_token :: "u64 \<Rightarrow> u64 \<Rightarrow> u64 \<Rightarrow> Kernel \<Rightarrow> u64 outcome" where
  "syscall_ipc_reply_token token_raw payload0 payload1 k =
     (case ipc_reply_with_token token_raw [payload0, payload1, 0, 0] k of
        Returns k1 (Ok _) \<Rightarrow> Returns (record_ipc_replied (current_task_id k1) k1) 0
      | Returns k1 (Err _) \<Rightarrow> Returns k1 0xFFFFFFFFFFFFFFFF
      | Switches k1 \<Rightarrow> Switches k1
      | Panics \<Rightarrow> Panics
      | Deadlocks \<Rightarrow> Deadlocks)"

definition syscall_ipc_get_recv_payload :: "Kernel \<Rightarrow> u64" where
  "syscall_ipc_get_recv_payload k =
     (case Option.bind (current_task k) ipc_reply of Some m \<Rightarrow> payload m ! 0 | None \<Rightarrow> 0xFFFFFFFFFFFFFFFF)"

definition syscall_ipc_get_recv_sender :: "Kernel \<Rightarrow> u64" where
  "syscall_ipc_get_recv_sender k =
     (case Option.bind (current_task k) ipc_reply of Some m \<Rightarrow> ucast (sender m) | None \<Rightarrow> 0xFFFFFFFFFFFFFFFF)"

section \<open>Operations and reachable states\<close>

text \<open>The end of \<open>spawn\<close>: the task is created with its page table and stack, entered into the table
  and queued.\<close>

definition register_task :: "u64 \<Rightarrow> u64 \<Rightarrow> u64 \<Rightarrow> Kernel \<Rightarrow> Kernel" where
  "register_task pt_phys entry_point stack k =
     (let (k1, tid) = allocate_task_id k;
          t = Task_new (uptime_ms k1) tid entry_point;
          t = t\<lparr> page_table_phys := pt_phys, ctx := (ctx t)\<lparr> rsp := stack, rbp := stack \<rparr> \<rparr>
      in enqueue tid (fst (insert_task t k1)))"

datatype kernel_op =
    SendOp TaskId IpcMessage
  | SendAsyncOp TaskId IpcMessage
  | SysSend u64 u64 u64
  | SysReceive
  | TryReceive
  | SysReply u64 u64
  | SysRecvAsync
  | SysReplyToken u64 u64 u64
  | Yield
  | TimerIrq SavedInterruptContext
  | Exit
  | Spawn u64 u64 u64

fun outcome_state :: "'a outcome \<Rightarrow> Kernel option" where
  "outcome_state (Returns k _) = Some k"
| "outcome_state (Switches k) = Some k"
| "outcome_state Panics = None"
| "outcome_state Deadlocks = None"

fun exec :: "kernel_op \<Rightarrow> Kernel \<Rightarrow> Kernel option" where
  "exec (SendOp target m) k = outcome_state (ipc_send target m k)"
| "exec (SendAsyncOp target m) k = outcome_state (ipc_send_async target m k)"
| "exec (SysSend target a b) k = outcome_state (syscall_ipc_send target a b k)"
| "exec SysReceive k = outcome_state (syscall_ipc_receive k)"
| "exec TryReceive k = outcome_state (ipc_try_receive k)"
| "exec (SysReply a b) k = outcome_state (syscall_ipc_reply a b k)"
| "exec SysRecvAsync k = outcome_state (syscall_ipc_recv_async k)"
| "exec (SysReplyToken tok a b) k = outcome_state (syscall_ipc_reply_token tok a b k)"
| "exec Yield k = outcome_state (yield_cpu k)"
| "exec (TimerIrq saved) k = Some (fst (irq_timer saved k))"
| "exec Exit k = exit_task k"
| "exec (Spawn pt e st) k = Some (register_task pt e st k)"

inductive kernel_reach :: "Kernel \<Rightarrow> Kernel \<Rightarrow> bool" where
  reach_start: "kernel_reach k0 k0"
| reach_step: "kernel_reach k0 k \<Longrightarrow> exec op k = Some k' \<Longrightarrow> kernel_reach k0 k'"

text \<open>A waiting task is registered as waiting for a task that exists.\<close>

definition wait_ok :: "Kernel \<Rightarrow> Task \<Rightarrow> bool" where
  "wait_ok k t \<longleftrightarrow>
     (case state t of
        BlockedOnSend x \<Rightarrow> blocked_on t = Some x \<and> get_task x k \<noteq> None
      | WaitingForReply _ \<Rightarrow> (\<exists>x. blocked_on t = Some x \<and> get_task x k \<noteq> None)
      | _ \<Rightarrow> True)"

definition waiters_ok :: "Kernel \<Rightarrow> bool" where
  "waiters_ok k \<longleftrightarrow> (\<forall>tid t. get_task tid k = Some t \<longrightarrow> wait_ok k t)"

definition kernel_ok :: "Kernel \<Rightarrow> bool" where
  "kernel_ok k \<longleftrightarrow> tasks_ok k \<and> caps_ok k \<and> waiters_ok k"

end
