(* ===== verification/IpcInv.thy ===== *)
theory IpcInv
  imports Ipc
begin

text \<open>
  The invariants of the kernel under system calls, interrupts and task exit: every
  operation is decomposed into small steps, and the small steps keep the kernel
  well formed, create no authority and remove nothing from the run queue.
\<close>

unbundle bit_operations_syntax

section \<open>Small steps\<close>

text \<open>Every operation other than exit is a sequence of small steps; a quiet step also keeps the messages
  queued in the tasks. The steps: a change outside the core of the
  tasks that removes nothing from the run queue, a change of the message counter, an update of one task
  that keeps its identity, its capabilities and its well-formedness, a capability transfer, and the entry
  of a new task.\<close>

definition task_update_ok :: "bool \<Rightarrow> Kernel \<Rightarrow> (Task \<Rightarrow> Task) \<Rightarrow> Task \<Rightarrow> bool" where
  "task_update_ok qt k f t \<longleftrightarrow> (qt \<longrightarrow> recv_queue (f t) = recv_queue t) \<and> task_id (f t) = task_id t \<and> capabilities (f t) = capabilities t \<and>
     (length (queue (recv_queue t)) \<le> max_size (recv_queue t) \<longrightarrow>
        length (queue (recv_queue (f t))) \<le> max_size (recv_queue (f t))) \<and>
     (wait_ok k t \<longrightarrow> wait_ok k (f t))"

inductive small_step :: "bool \<Rightarrow> Kernel \<Rightarrow> Kernel \<Rightarrow> bool" for qt where
  frame_step: "same_core k k' \<Longrightarrow> mset (run_queue (scheduler k)) \<subseteq># mset (run_queue (scheduler k')) \<Longrightarrow> small_step qt k k'"
| counter_step: "small_step qt k (k\<lparr> next_message_id := n \<rparr>)"
| task_step: "(\<And>t. get_task tid k = Some t \<Longrightarrow> task_update_ok qt k f t) \<Longrightarrow> small_step qt k (update_task tid f k)"
| transfer_step: "small_step qt k (fst (transfer a b c k))"
| insert_step: "\<not> qt \<Longrightarrow> capabilities t = [] \<Longrightarrow> queue (recv_queue t) = [] \<Longrightarrow> state t = Runnable \<Longrightarrow>
    small_step qt k (fst (insert_task t (k\<lparr> next_task_id := n \<rparr>)))"

inductive small_steps :: "bool \<Rightarrow> Kernel \<Rightarrow> Kernel \<Rightarrow> bool" for qt where
  steps_refl: "small_steps qt k k"
| steps_step: "small_steps qt a b \<Longrightarrow> small_step qt b c \<Longrightarrow> small_steps qt a c"

lemma steps_one: "small_step qt a b \<Longrightarrow> small_steps qt a b"
  using steps_step[OF steps_refl] .

lemma steps_trans [trans]: "small_steps qt a b \<Longrightarrow> small_steps qt b c \<Longrightarrow> small_steps qt a c"
  by (rotate_tac, induction rule: small_steps.induct) (blast intro: small_steps.steps_step)+

lemma step_mono: "small_step True a b \<Longrightarrow> small_step qt a b"
  by (induction rule: small_step.induct) (auto intro!: small_step.intros simp: task_update_ok_def)

lemma steps_mono: "small_steps True a b \<Longrightarrow> small_steps qt a b"
  by (induction rule: small_steps.induct) (auto intro: small_steps.intros step_mono)

lemma wait_ok_keys:
  "\<forall>x. get_task x k \<noteq> None \<longrightarrow> get_task x k' \<noteq> None \<Longrightarrow> wait_ok k t \<Longrightarrow> wait_ok k' t"
  by (auto simp: wait_ok_def split: TaskState.splits)

lemma wait_ok_cong:
  assumes "state t' = state t" "blocked_on t' = blocked_on t"
  shows "wait_ok k t' = wait_ok k t"
  unfolding wait_ok_def assms ..

lemma wait_ok_core: "core t' = core t \<Longrightarrow> wait_ok k t' = wait_ok k t"
  by (rule wait_ok_cong) (erule core_eqD)+

lemma task_update_keep:
  assumes "task_id (f t) = task_id t" "capabilities (f t) = capabilities t" "state (f t) = state t"
    "blocked_on (f t) = blocked_on t"
    "length (queue (recv_queue t)) \<le> max_size (recv_queue t) \<Longrightarrow>
      length (queue (recv_queue (f t))) \<le> max_size (recv_queue (f t))"
    "qt \<Longrightarrow> recv_queue (f t) = recv_queue t"
  shows "task_update_ok qt k f t"
  using assms wait_ok_cong[OF assms(3,4)] by (simp add: task_update_ok_def)

lemma task_update_ready:
  assumes "task_id (f t) = task_id t" "capabilities (f t) = capabilities t" "recv_queue (f t) = recv_queue t"
    "state (f t) \<in> {Runnable, BlockedOnReceive, Exited}"
  shows "task_update_ok qt k f t"
  using assms by (auto simp: task_update_ok_def wait_ok_def)

lemma same_core_None:
  assumes "same_core k k'"
  shows "get_task x k' = None \<longleftrightarrow> get_task x k = None"
proof -
  have "map_option core (get_task x k') = map_option core (get_task x k)" using assms by (simp add: same_core_def)
  then show ?thesis by (metis option.map_disc_iff)
qed

lemma tasks_ok_core:
  assumes "same_core k k'" "tasks_ok k"
  shows "tasks_ok k'"
proof -
  have "bt_wf (task_table k')" using assms by (simp add: tasks_ok_def same_core_def bt_wf_def)
  moreover have "task_id t' = tid \<and> length (queue (recv_queue t')) \<le> max_size (recv_queue t')"
    if h: "get_task tid k' = Some t'" for tid t'
  proof -
    obtain t where "get_task tid k = Some t" "core t' = core t" by (rule same_core_get'[OF assms(1) h])
    then show ?thesis using assms(2) core_eqD[of t' t] by (simp add: tasks_ok_def)
  qed
  ultimately show ?thesis by (simp add: tasks_ok_def)
qed

lemma held_alt:
  "held t k = (case map_option capabilities (get_task t k) of
     None \<Rightarrow> {} | Some ids \<Rightarrow> {e. \<exists>i \<in> set ids. get (cap_table k) i = Some e})"
  by (auto simp: held_def split: option.splits)

lemma held_cong:
  assumes "map_option capabilities (get_task t k') = map_option capabilities (get_task t k)" "cap_table k' = cap_table k"
  shows "held t k' = held t k"
  by (simp only: held_alt assms)

lemma held_core: "same_core k k' \<Longrightarrow> held t k' = held t k"
  using same_core_map[of k k' capabilities t] by (intro held_cong) (simp_all add: same_core_def)

lemma caps_ok_alt:
  "caps_ok k \<longleftrightarrow> table_ok (cap_table k) \<and>
     (\<forall>tid cs i. map_option capabilities (get_task tid k) = Some cs \<longrightarrow> i \<in> set cs \<longrightarrow> \<not> unissued (cap_table k) i)"
  by (auto simp: caps_ok_def)

lemma caps_ok_cong:
  assumes "\<And>t. map_option capabilities (get_task t k') = map_option capabilities (get_task t k)" "cap_table k' = cap_table k"
  shows "caps_ok k' = caps_ok k"
  by (simp only: caps_ok_alt assms)

lemma caps_ok_core: "same_core k k' \<Longrightarrow> caps_ok k' = caps_ok k"
  using same_core_map[of k k' capabilities] by (intro caps_ok_cong) (simp_all add: same_core_def)

lemma waiters_ok_core:
  assumes "same_core k k'" "waiters_ok k"
  shows "waiters_ok k'"
  unfolding waiters_ok_def
proof (intro allI impI)
  fix tid t'
  assume "get_task tid k' = Some t'"
  then obtain t where t: "get_task tid k = Some t" "core t' = core t" by (rule same_core_get'[OF assms(1)])
  then have "wait_ok k t'" using assms(2) wait_ok_core[OF t(2)] by (simp add: waiters_ok_def)
  then show "wait_ok k' t'" by (rule wait_ok_keys[rotated]) (metis same_core_None[OF assms(1)])
qed

section \<open>Small steps keep the kernel well formed\<close>

lemma kernel_ok_task_step:
  assumes "kernel_ok k" "\<And>t. get_task tid k = Some t \<Longrightarrow> task_update_ok qt k f t"
  shows "kernel_ok (update_task tid f k)"
proof -
  let ?k = "update_task tid f k"
  have ok: "tasks_ok k" "caps_ok k" "waiters_ok k" using assms(1) by (simp_all add: kernel_ok_def)
  have caps: "map_option capabilities (get_task i ?k) = map_option capabilities (get_task i k)" for i
    using assms(2) by (cases "get_task i k") (auto simp: task_update_ok_def)
  have "tasks_ok ?k"
    using ok(1) by (rule tasks_ok_update) (use assms(2) ok(1) in \<open>auto simp: task_update_ok_def tasks_ok_def\<close>)
  moreover have "caps_ok ?k" using caps_ok_cong[OF caps] ok(2) by simp
  moreover have "wait_ok ?k t" if "get_task i ?k = Some t" for i t
  proof -
    have "wait_ok k t"
      using that assms(2) ok(3) by (auto simp: task_update_ok_def waiters_ok_def split: if_splits)
    then show ?thesis by (rule wait_ok_keys[rotated]) simp
  qed
  ultimately show ?thesis by (simp add: kernel_ok_def waiters_ok_def)
qed

lemma held_update_caps:
  "(\<And>t. get_task tid k = Some t \<Longrightarrow> capabilities (f t) = capabilities t) \<Longrightarrow> held i (update_task tid f k) = held i k"
  by (rule held_cong) (cases "get_task i k", auto)

text \<open>A transfer changes nothing, or it enters a capability and appends it to one list.\<close>

lemma transfer_shape:
  obtains "fst (transfer a b c k) = k"
  | cid tbl where "fst (transfer a b c k) =
      update_task b (\<lambda>t. t\<lparr> capabilities := capabilities t @ [cid] \<rparr>) (k\<lparr> cap_table := tbl \<rparr>)"
proof (cases "snd (transfer a b c k)")
  case (Inl x)
  then have "transfer a b c k = (fst (transfer a b c k), Err x)" by (simp add: prod_eq_iff)
  then show thesis using transfer_Err that(1) by blast
next
  case (Inr i)
  then have "transfer a b c k = (fst (transfer a b c k), Ok i)" by (simp add: prod_eq_iff)
  then obtain e :: CapabilityEntry where "grant b (cap_type e) k = (fst (transfer a b c k), Ok i)" by (rule transfer_Ok) blast
  then show thesis by (cases rule: grant_cases[of b "cap_type e" k]) (simp_all add: that(2)[OF sym])
qed

lemma transfer_fields [simp]:
  "scheduler (fst (transfer a b c k)) = scheduler k" "current_task_id (fst (transfer a b c k)) = current_task_id k"
  by (cases rule: transfer_shape[of a b c k]; simp)+

lemma transfer_get:
  assumes "\<And>t ids. g (t\<lparr> capabilities := ids \<rparr>) = g t"
  shows "map_option g (get_task i (fst (transfer a b c k))) = map_option g (get_task i k)"
  by (cases rule: transfer_shape[of a b c k]) (auto simp: option.map_comp comp_def assms)

lemma kernel_ok_add_cap:
  assumes "kernel_ok k" "caps_ok k'" "k' = update_task b (\<lambda>t. t\<lparr> capabilities := capabilities t @ ids \<rparr>) (k\<lparr> cap_table := tbl \<rparr>)"
  shows "kernel_ok k'"
proof -
  have ok: "tasks_ok k" "waiters_ok k" using assms(1) by (simp_all add: kernel_ok_def)
  have "tasks_ok (k\<lparr> cap_table := tbl \<rparr>)" using ok(1) by (simp add: tasks_ok_def)
  then have "tasks_ok k'" unfolding assms(3) by (rule tasks_ok_update) (use ok(1) in \<open>auto simp: tasks_ok_def\<close>)
  moreover have "wait_ok k' u" if u: "get_task j k' = Some u" for j u
  proof -
    obtain t where t: "get_task j k = Some t" "state u = state t" "blocked_on u = blocked_on t"
      using u by (auto simp: assms(3) split: if_splits)
    then have "wait_ok k u" using ok(2) wait_ok_cong[OF t(2,3)] by (simp add: waiters_ok_def)
    then show ?thesis by (rule wait_ok_keys[rotated]) (simp add: assms(3))
  qed
  ultimately show ?thesis using assms(2) by (simp add: kernel_ok_def waiters_ok_def)
qed

lemma kernel_ok_transfer:
  assumes "kernel_ok k"
  shows "kernel_ok (fst (transfer a b c k))"
proof -
  have caps: "caps_ok (fst (transfer a b c k))" using transfer_confined assms by (simp add: kernel_ok_def)
  show ?thesis by (cases rule: transfer_shape[of a b c k]) (use kernel_ok_add_cap[OF assms caps] assms in simp_all)
qed

lemma kernel_ok_grant:
  assumes "kernel_ok k"
  shows "kernel_ok (fst (grant tid ct k))"
proof -
  have caps: "caps_ok (fst (grant tid ct k))"
    using caps_ok_grant[of k tid ct _ "snd (grant tid ct k)"] assms by (simp add: kernel_ok_def)
  show ?thesis by (cases rule: grant_cases[of tid ct k]) (use kernel_ok_add_cap[OF assms caps] assms in simp_all)
qed

lemma kernel_ok_boot: "kernel_ok (Kernel_boot p b)"
  by (simp add: kernel_ok_def tasks_ok_def caps_ok_def waiters_ok_def Kernel_boot_def get_task_def table_ok_new)

lemma insert_task_fields [simp]:
  "cap_table (fst (insert_task t k)) = cap_table k" "scheduler (fst (insert_task t k)) = scheduler k"
  "current_task_id (fst (insert_task t k)) = current_task_id k"
  by (simp_all add: insert_task_def)

lemma kernel_ok_insert:
  assumes "kernel_ok k" "capabilities t = []" "queue (recv_queue t) = []" "state t = Runnable"
  shows "kernel_ok (fst (insert_task t (k\<lparr> next_task_id := n \<rparr>)))" (is "kernel_ok ?k")
proof -
  have ok: "tasks_ok k" "caps_ok k" "waiters_ok k" using assms(1) by (simp_all add: kernel_ok_def)
  have "bt_wf (task_table ?k)" using ok(1) by (simp add: tasks_ok_def insert_task_def bt.wf_put)
  then have "tasks_ok ?k" using ok(1) assms(3) by (auto simp: tasks_ok_def)
  moreover have "caps_ok ?k" using ok(2) assms(2) by (auto simp: caps_ok_def)
  moreover have "wait_ok ?k u" if "get_task i ?k = Some u" for i u
  proof (cases "i = task_id t")
    case False
    then have "wait_ok k u" using that ok(3) by (auto simp: waiters_ok_def)
    then show ?thesis by (rule wait_ok_keys[rotated]) simp
  qed (use that assms(4) in \<open>auto simp: wait_ok_def\<close>)
  ultimately show ?thesis by (simp add: kernel_ok_def waiters_ok_def)
qed

lemma kernel_ok_fields:
  assumes "task_table k' = task_table k" "cap_table k' = cap_table k"
  shows "kernel_ok k' = kernel_ok k"
proof -
  have g: "get_task i k' = get_task i k" for i using assms(1) by (simp add: get_task_def)
  show ?thesis unfolding kernel_ok_def tasks_ok_def caps_ok_def waiters_ok_def wait_ok_def g assms ..
qed

lemma small_step_ok: "small_step qt k k' \<Longrightarrow> kernel_ok k \<Longrightarrow> kernel_ok k'"
proof (induction rule: small_step.induct)
  case (frame_step k k')
  then show ?case using tasks_ok_core waiters_ok_core caps_ok_core unfolding kernel_ok_def by blast
next
  case (counter_step k n)
  then show ?case using kernel_ok_fields[of "k\<lparr> next_message_id := n \<rparr>" k] by simp
qed (auto intro: kernel_ok_task_step kernel_ok_transfer kernel_ok_insert)

lemma small_steps_ok: "small_steps qt k k' \<Longrightarrow> kernel_ok k \<Longrightarrow> kernel_ok k'"
  by (induction rule: small_steps.induct) (auto dest: small_step_ok)

lemma small_step_confined: "small_step qt k k' \<Longrightarrow> kernel_ok k \<Longrightarrow> confined k k'"
proof (induction rule: small_step.induct)
  case (frame_step k k')
  then show ?case using held_core[of k k'] by (intro confined_held) simp
next
  case (counter_step k n)
  then show ?case using held_cong[of _ "k\<lparr> next_message_id := n \<rparr>" k] by (intro confined_held) simp
next
  case (task_step tid k f)
  then show ?case using held_update_caps[of tid k f] by (intro confined_held) (simp add: task_update_ok_def)
next
  case (transfer_step k a b c)
  then show ?case using transfer_confined[of k a b c] by (simp add: kernel_ok_def)
next
  case (insert_step t k n)
  then show ?case by (intro confined_held) (auto simp: held_def split: if_splits)
qed

lemma small_steps_confined: "small_steps qt k k' \<Longrightarrow> kernel_ok k \<Longrightarrow> confined k k'"
  by (induction rule: small_steps.induct) (auto intro: confined_trans small_steps_ok small_step_confined)

lemma small_step_queue: "small_step qt k k' \<Longrightarrow> mset (run_queue (scheduler k)) \<subseteq># mset (run_queue (scheduler k'))"
  by (induction rule: small_step.induct) auto

lemma small_steps_queue: "small_steps qt k k' \<Longrightarrow> mset (run_queue (scheduler k)) \<subseteq># mset (run_queue (scheduler k'))"
  by (induction rule: small_steps.induct) (auto dest: small_step_queue subset_mset.order_trans)

section \<open>The operations as small steps\<close>

lemma steps_core:
  "same_core k k' \<Longrightarrow> mset (run_queue (scheduler k)) \<subseteq># mset (run_queue (scheduler k')) \<Longrightarrow> small_steps qt k k'"
  by (intro steps_one frame_step)

lemma steps_frame: "sched_frame k k' \<Longrightarrow> small_steps qt k k'"
  by (rule steps_core) (simp_all add: sched_frame_def same_cpu_def)

lemma steps_task: "(\<And>t. get_task tid k = Some t \<Longrightarrow> task_update_ok qt k f t) \<Longrightarrow> small_steps qt k (update_task tid f k)"
  by (intro steps_one task_step)

lemma steps_enqueue: "small_steps qt k (enqueue t k)"
  by (rule steps_core) (simp_all add: enqueue_def add_task_def same_core_def)

lemma steps_fresh: "small_steps qt k (fst (fresh_message_id k))"
  by (simp add: fresh_message_id_def steps_one counter_step)

lemma steps_cpu:
  "small_steps qt k (k\<lparr> context_ptr := c \<rparr>)" "small_steps qt k (k\<lparr> xsave_ptr := c \<rparr>)"
  "small_steps qt k (set_current_task t k)" "small_steps qt k (switch_page_table u k)" "small_steps qt k (tick k)"
  by (rule steps_core; simp add: same_core_def set_current_task_def switch_page_table_def tick_def)+

lemma steps_switch:
  "small_steps qt k ((set_current_task t (switch_page_table u k))\<lparr> xsave_ptr := Some t, context_ptr := Some t \<rparr>)"
  by (rule steps_core) (simp_all add: same_core_def set_current_task_def switch_page_table_def)

lemma steps_schedule: "schedule_next k = (k', r) \<Longrightarrow> small_steps qt k k'"
  by (rule steps_frame[OF schedule_next_frame])

lemma steps_record:
  "small_steps qt k (record_ipc_sent t k)" "small_steps qt k (record_ipc_received t k)" "small_steps qt k (record_ipc_replied t k)"
  by (simp_all add: steps_frame record_frame record_frame_counted)

lemma steps_yield:
  assumes "outcome_state (yield_cpu k) = Some k'"
  shows "small_steps qt k k'"
proof -
  obtain k1 r where s: "schedule_next (record_voluntary_yield (current_task_id k) k) = (k1, r)" by fastforce
  have k1: "small_steps qt k k1" by (rule steps_trans[OF steps_frame[OF record_frame(1)] steps_schedule[OF s]])
  have cs: "small_steps qt k1 ((record_context_switch n (set_current_task n (switch_page_table u k1)))
      \<lparr> xsave_ptr := Some n, context_ptr := Some n \<rparr>)" for n u
    by (rule steps_trans[OF steps_cpu(4) steps_trans[OF steps_cpu(3) steps_trans[OF steps_frame[OF record_frame_counted(1)]
          steps_trans[OF steps_cpu(2) steps_cpu(1)]]]])
  show ?thesis
    using assms s k1 steps_trans[OF k1 steps_cpu(1)] steps_trans[OF k1 cs]
    by (auto simp: yield_cpu_def Let_def split: option.splits if_splits)
qed

lemma steps_timer: "small_steps qt k (fst (irq_timer saved k))"
proof -
  let ?c = "current_task_id k"
  let ?k1 = "update_task ?c (\<lambda>t. t\<lparr> ctx := save_context saved (ctx t) \<rparr>) (tick k)"
  have e: "small_steps qt k ?k1"
    by (rule steps_trans[OF steps_cpu(5) steps_task[OF task_update_keep]]) simp_all
  obtain k2 r where s: "schedule_next ?k1 = (k2, r)" by fastforce
  have k2: "small_steps qt k k2" by (rule steps_trans[OF e steps_schedule[OF s]])
  have rec: "small_steps qt k2 (record_context_switch n (record_preemption ?c k2))" for n
    by (rule steps_trans[OF steps_frame[OF record_frame(2)] steps_frame[OF record_frame_counted(1)]])
  note k3 = steps_trans[OF k2 rec] and sw = steps_trans[OF steps_trans[OF k2 rec] steps_switch]
  have "small_steps qt k (fst (timer_preempt_handler saved k))"
    using s k2 k3 sw steps_trans[OF k2 steps_cpu(2)] steps_cpu(5)
    by (auto simp: timer_preempt_handler_def Let_def split: option.splits)
  then show ?thesis using steps_cpu(5)[of _ k] by (simp add: irq_timer_def split_beta)
qed

lemma steps_push:
  assumes "push_message target m k = (k', b)"
  shows "small_steps False k k'"
proof (cases "get_task target k")
  case (Some t)
  have "small_steps False k (update_task target (\<lambda>t. t\<lparr> recv_queue := fst (push (recv_queue t0) m) \<rparr>) k)"
    if "get_task target k = Some t0" for t0
    by (rule steps_task[OF task_update_keep]) (use that in \<open>auto simp: push_def is_full_def\<close>)
  then show ?thesis using assms Some by (auto simp: push_message_def split: prod.splits)
qed (use assms steps_refl in \<open>simp add: push_message_def\<close>)

lemma steps_push_full:
  assumes "push_message target m k = (k', False)"
  shows "small_steps qt k k'"
proof -
  consider "k' = k" | t where "get_task target k = Some t" "k' = update_task target (\<lambda>u. u\<lparr> recv_queue := recv_queue t \<rparr>) k"
    using assms by (auto simp: push_message_def push_def split: option.splits prod.splits if_splits)
  then show ?thesis
  proof cases
    case (2 t)
    show ?thesis unfolding 2(2) by (rule steps_task[OF task_update_keep]) (use 2(1) in simp_all)
  qed (simp add: steps_refl)
qed

lemma steps_wake: "small_steps qt k (wake_receiver target k)"
proof -
  have "small_steps qt k (update_task target (\<lambda>t. t\<lparr> state := Runnable \<rparr>) k)"
    by (rule steps_task[OF task_update_ready]) simp_all
  then show ?thesis
    using steps_trans[OF _ steps_enqueue] steps_refl by (auto simp: wake_receiver_def split: option.split)
qed

lemma steps_block:
  assumes "get_task target k \<noteq> None"
  shows "small_steps qt k (block_and_wake c target k)"
proof (cases "get_task c k")
  case (Some cur)
  let ?k1 = "update_task c (\<lambda>t. t\<lparr> state := BlockedOnSend target, blocked_on := Some target, ipc_reply := None \<rparr>) k"
  have "small_steps qt k ?k1" by (rule steps_task) (use assms in \<open>simp add: task_update_ok_def wait_ok_def\<close>)
  also have "small_steps qt ?k1 (update_task target (\<lambda>t. if inherited_priority t < p then t\<lparr> inherited_priority := p \<rparr> else t) ?k1)"
    for p by (rule steps_task[OF task_update_keep]) simp_all
  also note steps_wake
  finally show ?thesis using Some by (simp add: block_and_wake_def Let_def)
qed (simp add: block_and_wake_def steps_refl)

lemma transfer_capability_eq:
  "fst (transfer_capability a b c k) = k \<or> fst (transfer_capability a b c k) = fst (transfer (task_id a) (task_id b) c k)"
  by (auto simp: transfer_capability_def TransferableCap_check_def split: option.splits prod.splits sum.splits)

lemma ipc_prepare_go:
  assumes "get_task target k = Some t" "state t \<noteq> Exited" "current_task k = Some cur" "has_ipc_send (task_id cur) target k"
  shows "ipc_prepare mtype target msg k =
    (let k1 = fst (fresh_message_id k); m = msg\<lparr> sender := task_id cur, msg_type := mtype, msg_id := next_message_id k \<rparr>
     in case cap msg of
          None \<Rightarrow> Returns k1 (Ok m)
        | Some c \<Rightarrow> (case snd (transfer_capability cur t c k1) of
             Inl e \<Rightarrow> Returns (fst (transfer_capability cur t c k1)) (Err e)
           | Inr _ \<Rightarrow> Returns (fst (transfer_capability cur t c k1)) (Ok m)))"
  using assms
  by (auto simp: ipc_prepare_def capability_check_def fresh_message_id_def Let_def split: option.split prod.split sum.split)

text \<open>The outcomes of the common prefix, in the order of the code's checks.\<close>

lemma ipc_prepare_cases [consumes 0, case_names no_target dead panic denied cap_fails prepared]:
  obtains "get_task target k = None" "ipc_prepare mtype target msg k = Returns k (Err EINVAL)"
  | t where "get_task target k = Some t" "state t = Exited" "ipc_prepare mtype target msg k = Returns k (Err EDEAD)"
  | "current_task k = None" "ipc_prepare mtype target msg k = Panics"
  | t cur where "get_task target k = Some t" "current_task k = Some cur" "\<not> has_ipc_send (task_id cur) target k"
      "ipc_prepare mtype target msg k = Returns k (Err EPERM)"
  | t cur k1 e where "get_task target k = Some t" "current_task k = Some cur"
      "k1 = fst (fresh_message_id k) \<or> (\<exists>c. k1 = fst (transfer (task_id cur) (task_id t) c (fst (fresh_message_id k))))"
      "ipc_prepare mtype target msg k = Returns k1 (Err e)" "e = ECAPFAIL"
  | t cur k1 where "get_task target k = Some t" "state t \<noteq> Exited" "current_task k = Some cur" "has_ipc_send (task_id cur) target k"
      "k1 = fst (fresh_message_id k) \<or> (\<exists>c. k1 = fst (transfer (task_id cur) (task_id t) c (fst (fresh_message_id k))))"
      "ipc_prepare mtype target msg k =
        Returns k1 (Ok (msg\<lparr> sender := task_id cur, msg_type := mtype, msg_id := next_message_id k \<rparr>))"
proof (cases "get_task target k")
  case (Some t)
  note t = Some
  show thesis
  proof (cases "state t = Exited")
    case True
    then show thesis using that(2) t by (simp add: ipc_prepare_def)
  next
    case alive: False
    show thesis
    proof (cases "current_task k")
      case None
      then show thesis using that(3) t alive by (simp add: ipc_prepare_def)
    next
      case (Some cur)
      let ?k1 = "fst (fresh_message_id k)" and ?m = "msg\<lparr> sender := task_id cur, msg_type := mtype, msg_id := next_message_id k \<rparr>"
      consider "\<not> has_ipc_send (task_id cur) target k" | "has_ipc_send (task_id cur) target k" "cap msg = None"
        | c e where "has_ipc_send (task_id cur) target k" "cap msg = Some c" "snd (transfer_capability cur t c ?k1) = Err e"
        | c where "has_ipc_send (task_id cur) target k" "cap msg = Some c" "snd (transfer_capability cur t c ?k1) = Ok ()"
        by (metis option.exhaust old.sum.exhaust old.unit.exhaust)
      then show thesis
      proof cases
        case 1
        then show thesis using that(4) t Some alive by (simp add: ipc_prepare_def capability_check_def)
      next
        case 2
        then show thesis using that(6)[of t cur ?k1] ipc_prepare_go[OF t alive Some] t Some alive by (simp add: Let_def)
      next
        case (3 c e)
        then have "e = ECAPFAIL" by (auto simp: transfer_capability_def split: option.splits prod.splits sum.splits)
        then show thesis
          using 3 that(5)[of t cur "fst (transfer_capability cur t c ?k1)" e] ipc_prepare_go[OF t alive Some]
            t Some alive transfer_capability_eq[of cur t c ?k1] by (fastforce simp: Let_def)
      next
        case (4 c)
        then show thesis
          using that(6)[of t cur "fst (transfer_capability cur t c ?k1)"] ipc_prepare_go[OF t alive Some]
            t Some alive transfer_capability_eq[of cur t c ?k1] by (fastforce simp: Let_def)
      qed
    qed
  qed
qed (use that(1) in \<open>simp add: ipc_prepare_def\<close>)

lemma fresh_fields [simp]:
  "get_task i (fst (fresh_message_id k)) = get_task i k" "current_task_id (fst (fresh_message_id k)) = current_task_id k"
  "scheduler (fst (fresh_message_id k)) = scheduler k" "cap_table (fst (fresh_message_id k)) = cap_table k"
  by (simp_all add: fresh_message_id_def)

lemma prepared_get:
  assumes "k1 = fst (fresh_message_id k) \<or> (\<exists>c. k1 = fst (transfer a b c (fst (fresh_message_id k))))"
    and "\<And>t ids. g (t\<lparr> capabilities := ids \<rparr>) = g t"
  shows "map_option g (get_task i k1) = map_option g (get_task i k)"
  using assms(1) transfer_get[where g = g, OF assms(2)] by auto

lemma prepared_fields:
  assumes "k1 = fst (fresh_message_id k) \<or> (\<exists>c. k1 = fst (transfer a b c (fst (fresh_message_id k))))"
  shows "current_task_id k1 = current_task_id k" "scheduler k1 = scheduler k" "small_steps qt k k1"
proof -
  have "small_steps qt k (fst (transfer a b c (fst (fresh_message_id k))))" for c
    by (rule steps_trans[OF steps_fresh steps_one[OF transfer_step]])
  then show "small_steps qt k k1" using assms(1) steps_fresh by auto
  show "current_task_id k1 = current_task_id k" "scheduler k1 = scheduler k" using assms(1) by auto
qed

lemma prepare_steps: "ipc_prepare mtype target msg k = Returns k1 r \<Longrightarrow> small_steps qt k k1"
  by (cases rule: ipc_prepare_cases[of target k mtype msg])
    (simp_all add: steps_refl prepared_fields(3))

lemma prepare_Ok:
  assumes "ipc_prepare mtype target msg k = Returns k1 (Ok m)"
  shows "current_task_id k1 = current_task_id k" "get_task target k1 \<noteq> None" "scheduler k1 = scheduler k"
    "\<exists>t cur. get_task target k = Some t \<and> state t \<noteq> Exited \<and> current_task k = Some cur \<and> has_ipc_send (task_id cur) target k \<and>
      m = msg\<lparr> sender := task_id cur, msg_type := mtype, msg_id := next_message_id k \<rparr>"
proof -
  obtain t cur where t: "get_task target k = Some t" "state t \<noteq> Exited" "current_task k = Some cur" "has_ipc_send (task_id cur) target k"
      "k1 = fst (fresh_message_id k) \<or> (\<exists>c. k1 = fst (transfer (task_id cur) (task_id t) c (fst (fresh_message_id k))))"
      "m = msg\<lparr> sender := task_id cur, msg_type := mtype, msg_id := next_message_id k \<rparr>"
    using assms by (cases rule: ipc_prepare_cases[of target k mtype msg]) auto
  show "current_task_id k1 = current_task_id k" "scheduler k1 = scheduler k" using prepared_fields[OF t(5)] by simp_all
  have "map_option (\<lambda>_. ()) (get_task target k1) = map_option (\<lambda>_. ()) (get_task target k)"
    using t(5) by (rule prepared_get) simp
  then show "get_task target k1 \<noteq> None" using t(1) by (metis option.map_disc_iff option.distinct(1))
  show "\<exists>t cur. get_task target k = Some t \<and> state t \<noteq> Exited \<and> current_task k = Some cur \<and> has_ipc_send (task_id cur) target k \<and>
      m = msg\<lparr> sender := task_id cur, msg_type := mtype, msg_id := next_message_id k \<rparr>"
    using t by blast
qed

lemma prepare_returns:
  "ipc_prepare mtype target msg k = Panics \<or> (\<exists>k1 r. ipc_prepare mtype target msg k = Returns k1 r)"
  by (cases rule: ipc_prepare_cases[of target k mtype msg]) auto

lemma push_keeps: "push_message target m k = (k', b) \<Longrightarrow> get_task i k' = None \<longleftrightarrow> get_task i k = None"
  "push_message target m k = (k', b) \<Longrightarrow> current_task_id k' = current_task_id k"
  by (auto simp: push_message_def split: option.splits prod.splits if_splits)

lemma steps_take_reply: "small_steps qt k (fst (take_reply tid k))"
proof (cases "get_task tid k")
  case (Some t)
  have "small_steps qt k (update_task tid (\<lambda>t. t\<lparr> ipc_reply := None \<rparr>) k)"
    by (rule steps_task[OF task_update_keep]) simp_all
  then show ?thesis using Some by (simp add: take_reply_def)
qed (simp add: take_reply_def steps_refl)

text \<open>The parts of a send: the common prefix, the push on the target's queue, and the rest.\<close>

definition sends :: "IpcType \<Rightarrow> TaskId \<Rightarrow> IpcMessage \<Rightarrow> Kernel \<Rightarrow> Kernel \<Rightarrow> bool" where
  "sends mtype target msg k k' \<longleftrightarrow>
     (\<exists>m k1 k2. ipc_prepare mtype target msg k = Returns k1 (Ok m) \<and> push_message target m k1 = (k2, True) \<and>
        small_steps True k2 k')"

lemma send_parts:
  assumes "outcome_state (ipc_send target msg k) = Some k'"
  shows "small_steps True k k' \<or> sends Request target msg k k'"
proof -
  obtain k1 r where p: "ipc_prepare Request target msg k = Returns k1 r"
    using assms prepare_returns[of Request target msg k] by (auto simp: ipc_send_def)
  note k1 = prepare_steps[OF p, of True]
  show ?thesis
  proof (cases r)
    case (Inr m)
    note ok = prepare_Ok[OF p[unfolded Inr]]
    obtain k2 b where q: "push_message target m k1 = (k2, b)" by fastforce
    have bl: "small_steps True k2 (block_and_wake (current_task_id k) target k2)"
      by (rule steps_block) (use push_keeps(1)[OF q, of target] ok(2) in simp)
    obtain y where y: "yield_cpu (block_and_wake (current_task_id k) target k2) = y" by blast
    show ?thesis
    proof (cases b)
      case True
      have a: "outcome_state (case y of
          Returns k3 _ \<Rightarrow> (case take_reply (current_task_id k) k3 of (k4, r) \<Rightarrow> Returns k4 r)
        | Switches k3 \<Rightarrow> Switches k3 | Panics \<Rightarrow> Panics | Deadlocks \<Rightarrow> Deadlocks) = Some k'"
        using assms p q Inr True y by (simp add: ipc_send_def)
      obtain k3 where k3: "outcome_state y = Some k3" "k' = k3 \<or> k' = fst (take_reply (current_task_id k) k3)"
        using a by (cases y) (auto split: prod.splits)
      have "small_steps True k2 k3" by (rule steps_trans[OF bl steps_yield]) (simp add: y k3)
      then have "small_steps True k2 k'" using k3(2) steps_trans[OF _ steps_take_reply] by auto
      then show ?thesis using p q Inr True by (auto simp: sends_def)
    next
      case False
      then have "k' = k2" using assms p q Inr by (simp add: ipc_send_def)
      then show ?thesis using steps_trans[OF k1 steps_push_full] q False by simp
    qed
  qed (use assms p k1 in \<open>simp add: ipc_send_def\<close>)
qed

lemma send_async_parts:
  assumes "outcome_state (ipc_send_async target msg k) = Some k'"
  shows "small_steps True k k' \<or> sends Notification target msg k k'"
proof -
  obtain k1 r where p: "ipc_prepare Notification target msg k = Returns k1 r"
    using assms prepare_returns[of Notification target msg k] by (auto simp: ipc_send_async_def)
  note k1 = prepare_steps[OF p, of True]
  show ?thesis
  proof (cases r)
    case (Inr m)
    obtain k2 b where q: "push_message target m k1 = (k2, b)" by fastforce
    show ?thesis
    proof (cases b)
      case True
      then show ?thesis
        using assms p q Inr steps_wake[of True k2 target] by (auto simp: ipc_send_async_def sends_def)
    next
      case False
      then have "k' = k2" using assms p q Inr by (simp add: ipc_send_async_def)
      then show ?thesis using steps_trans[OF k1 steps_push_full] q False by simp
    qed
  qed (use assms p k1 in \<open>simp add: ipc_send_async_def\<close>)
qed

lemma sends_steps: "sends mtype target msg k k' \<Longrightarrow> small_steps False k k'"
  unfolding sends_def using steps_trans[OF prepare_steps steps_trans[OF steps_push steps_mono]] by blast

lemma steps_send: "outcome_state (ipc_send target msg k) = Some k' \<Longrightarrow> small_steps False k k'"
  using send_parts sends_steps steps_mono by blast

lemma steps_send_async: "outcome_state (ipc_send_async target msg k) = Some k' \<Longrightarrow> small_steps False k k'"
  using send_async_parts sends_steps steps_mono by blast

lemma steps_pop:
  assumes "pop_message k = Some (k', m)"
  shows "small_steps False k k'" "current_task_id k' = current_task_id k"
proof -
  obtain t where t: "current_task k = Some t" using assms by (auto simp: pop_message_def split: option.splits)
  have k': "k' = update_task (current_task_id k) (\<lambda>u. u\<lparr> recv_queue := fst (pop (recv_queue t)) \<rparr>) k"
    using assms t by (auto simp: pop_message_def split: prod.splits)
  show "small_steps False k k'"
    unfolding k' by (rule steps_task[OF task_update_keep]) (use t in \<open>auto simp: current_task_def pop_def split: list.split\<close>)
  show "current_task_id k' = current_task_id k" by (simp add: k')
qed

text \<open>The receive paths take from the current task's queue and do the rest quietly.\<close>

definition receives :: "Kernel \<Rightarrow> Kernel \<Rightarrow> bool" where
  "receives k k' \<longleftrightarrow> (\<exists>k1 m. pop_message k = Some (k1, m) \<and> small_steps True k1 k')"

lemma receives_steps: "receives k k' \<Longrightarrow> small_steps False k k'"
  unfolding receives_def using steps_trans[OF steps_pop(1) steps_mono] by blast

lemma receives_then: "receives k k1 \<Longrightarrow> small_steps True k1 k' \<Longrightarrow> receives k k'"
  unfolding receives_def using steps_trans by blast

lemma steps_receive:
  assumes "outcome_state (ipc_receive k) = Some k'"
  shows "receives k k'"
proof -
  have "small_steps True k1 (update_task tid (\<lambda>t. t\<lparr> state := BlockedOnReceive \<rparr>) k1)" for k1 tid
    by (rule steps_task[OF task_update_ready]) simp_all
  then show ?thesis
    using assms steps_refl by (auto simp: ipc_receive_def receives_def split: option.splits prod.splits)
qed

lemma steps_try_receive: "outcome_state (ipc_try_receive k) = Some k' \<Longrightarrow> receives k k'"
  using steps_refl by (auto simp: ipc_try_receive_def receives_def split: option.splits prod.splits)

lemma steps_recv_async:
  assumes "outcome_state (ipc_recv_async k) = Some k'"
  shows "receives k k'"
proof -
  have "small_steps True k1 (update_task tid (\<lambda>t. if state t = BlockedOnSend c then t\<lparr> state := WaitingForReply n \<rparr> else t) k1)"
    for k1 tid c n by (rule steps_task) (auto simp: task_update_ok_def wait_ok_def)
  then show ?thesis
    using assms steps_refl by (auto simp: ipc_recv_async_def receives_def Let_def split: option.splits prod.splits if_splits)
qed

lemma steps_deliver: "small_steps qt k (deliver_reply r s pl k)"
proof -
  let ?k1 = "fst (fresh_message_id k)"
  have a: "small_steps qt ?k1 (update_task s (\<lambda>t. t\<lparr> ipc_reply := Some m, ctx := (ctx t)\<lparr> rax := x \<rparr>, state := Runnable, blocked_on := None \<rparr>) ?k1)" for m x
    by (rule steps_task[OF task_update_ready]) simp_all
  have b: "small_steps qt k2 (update_task c (\<lambda>t. t\<lparr> inherited_priority := 0 \<rparr>) k2)" for c k2
    by (rule steps_task[OF task_update_keep]) simp_all
  show ?thesis
    unfolding deliver_reply_def Let_def split_beta
    by (rule steps_trans[OF steps_fresh steps_trans[OF a steps_trans[OF b steps_enqueue]]])
qed

lemma steps_reply: "ipc_reply_to m pl k = Returns k' r \<Longrightarrow> small_steps qt k k'"
  using steps_deliver steps_refl by (auto simp: ipc_reply_to_def split: option.splits if_splits)

lemma steps_reply_token: "outcome_state (ipc_reply_with_token tok pl k) = Some k' \<Longrightarrow> small_steps qt k k'"
  using steps_deliver steps_refl by (auto simp: ipc_reply_with_token_def split: option.splits if_splits)

lemma steps_store: "small_steps qt k (store_request m k)"
  unfolding store_request_def
  by (rule steps_trans[OF steps_record(2) steps_task[OF task_update_keep]]) simp_all

lemma sys_send_parts:
  assumes "outcome_state (syscall_ipc_send t a b k) = Some k'"
  shows "small_steps True k k' \<or> (\<exists>msg. sends Request (ucast t) msg k k')"
proof -
  let ?m = "(new_request [a, b, 0, 0])\<lparr> sender := current_task_id k \<rparr>"
  obtain k1 where k1: "outcome_state (ipc_send (ucast t) ?m k) = Some k1" "small_steps True k1 k'"
    using assms steps_record(1) steps_refl
    by (cases "ipc_send (ucast t) ?m k") (auto simp: syscall_ipc_send_def Let_def split: sum.splits)
  have "sends Request (ucast t) ?m k k'" if "sends Request (ucast t) ?m k k1"
    using that steps_trans[OF _ k1(2)] unfolding sends_def by blast
  then show ?thesis using send_parts[OF k1(1)] steps_trans[OF _ k1(2)] by blast
qed

lemma steps_sys_send: "outcome_state (syscall_ipc_send t a b k) = Some k' \<Longrightarrow> small_steps False k k'"
  using sys_send_parts sends_steps steps_mono by blast

lemma steps_sys_receive:
  assumes "outcome_state (syscall_ipc_receive k) = Some k'"
  shows "receives k k'"
  using assms steps_receive[of k] receives_then[OF _ steps_store]
  by (cases "ipc_receive k") (auto simp: syscall_ipc_receive_def split: sum.splits Errno.splits)

lemma steps_sys_reply:
  assumes "outcome_state (syscall_ipc_reply a b k) = Some k'"
  shows "small_steps qt k k'"
proof -
  obtain t where "current_task k = None \<or> current_task k = Some t" by (cases "current_task k") auto
  moreover obtain m where "ipc_reply t = None \<or> ipc_reply t = Some m" by (cases "ipc_reply t") auto
  moreover have "small_steps qt k k1" "small_steps qt k (record_ipc_replied (current_task_id k) k1)"
    if "ipc_reply_to m [a, b, 0, 0] k = Returns k1 r" for k1 r
    using steps_reply[OF that] steps_trans[OF _ steps_record(3)] by blast+
  ultimately show ?thesis
    using assms steps_refl
    by (auto simp: syscall_ipc_reply_def ipc_reply_to_def split: option.splits if_splits)
qed

lemma steps_sys_recv_async:
  assumes "outcome_state (syscall_ipc_recv_async k) = Some k'"
  shows "receives k k'"
  using assms steps_recv_async[of k] receives_then[OF _ steps_store]
  by (cases "ipc_recv_async k") (auto simp: syscall_ipc_recv_async_def split: sum.splits prod.splits Errno.splits)

lemma steps_sys_reply_token:
  assumes "outcome_state (syscall_ipc_reply_token tok a b k) = Some k'"
  shows "small_steps qt k k'"
  using assms steps_reply_token[of tok "[a, b, 0, 0]" k] steps_trans[OF _ steps_record(3)]
  by (cases "ipc_reply_with_token tok [a, b, 0, 0] k") (auto simp: syscall_ipc_reply_token_def split: sum.splits)

lemma Task_new_fields [simp]:
  "capabilities (Task_new now tid e) = []" "queue (recv_queue (Task_new now tid e)) = []"
  "state (Task_new now tid e) = Runnable" "task_id (Task_new now tid e) = tid"
  by (simp_all add: Task_new_def init_at_ptr_def)

lemma steps_register: "small_steps False k (register_task pt e st k)"
  unfolding register_task_def Let_def allocate_task_id_def prod.case
  by (rule steps_trans[OF steps_one[OF insert_step] steps_enqueue]) simp_all

lemma exec_small_steps:
  assumes "exec op k = Some k'" "op \<noteq> Exit"
  shows "small_steps False k k'"
  using assms
  by (cases op) (auto simp: steps_send steps_send_async steps_sys_send steps_sys_receive[THEN receives_steps]
      steps_try_receive[THEN receives_steps] steps_sys_reply steps_sys_recv_async[THEN receives_steps] steps_sys_reply_token steps_yield steps_timer steps_register)

section \<open>Task exit\<close>

definition woken :: "Task \<Rightarrow> Task" where
  "woken t = t\<lparr> ctx := (ctx t)\<lparr> rax := 0xFFFFFFFFFFFFFFFF \<rparr>, state := Runnable, blocked_on := None, ipc_reply := None \<rparr>"

lemma woken_simps [simp]:
  "\<not> waits_on e (woken t)" "task_id (woken t) = task_id t" "capabilities (woken t) = capabilities t"
  "recv_queue (woken t) = recv_queue t" "state (woken t) = Runnable"
  by (simp_all add: woken_def waits_on_def)

lemma unblock_one_eq:
  "unblock_one e tid (k, n) = (case get_task tid k of None \<Rightarrow> (k, n)
     | Some t \<Rightarrow> if waits_on e t then (enqueue tid (update_task tid woken k), n + 1) else (k, n))"
  by (auto simp: unblock_one_def woken_def[abs_def] split: option.split)

lemma enqueue_fields [simp]:
  "get_task i (enqueue t k) = get_task i k" "cap_table (enqueue t k) = cap_table k" "pmm (enqueue t k) = pmm k"
  "current_task_id (enqueue t k) = current_task_id k" "task_table (enqueue t k) = task_table k"
  "run_queue (scheduler (enqueue t k)) = run_queue (scheduler k) @ [t]" "current_task (enqueue t k) = current_task k"
  by (simp_all add: enqueue_def add_task_def get_task_def current_task_def)

lemma unblock_fold_get:
  "get_task i (fst (fold (unblock_one e) xs (k, n))) =
     map_option (\<lambda>t. if i \<in> set xs \<and> waits_on e t then woken t else t) (get_task i k)"
proof (induction xs arbitrary: k n)
  case (Cons x xs)
  show ?case
    by (cases "get_task x k"; cases "get_task i k") (auto simp: unblock_one_eq Cons.IH split: if_splits)
qed (simp add: option.map_ident)

lemma unblock_fold_fields:
  "cap_table (fst (fold (unblock_one e) xs (k, n))) = cap_table k"
  "pmm (fst (fold (unblock_one e) xs (k, n))) = pmm k"
  "bt_keys (task_table (fst (fold (unblock_one e) xs (k, n)))) = bt_keys (task_table k)"
  "current_task_id (fst (fold (unblock_one e) xs (k, n))) = current_task_id k"
  by (induction xs arbitrary: k n) (auto simp: unblock_one_eq split: option.split)

lemma unblock_fold_queue:
  "mset (run_queue (scheduler k)) \<subseteq># mset (run_queue (scheduler (fst (fold (unblock_one e) xs (k, n)))))"
proof (induction xs arbitrary: k n)
  case (Cons x xs)
  have "mset (run_queue (scheduler k)) \<subseteq># mset (run_queue (scheduler (fst (unblock_one e x (k, n)))))"
    by (auto simp: unblock_one_eq split: option.split)
  then show ?case
    using Cons.IH[of "fst (unblock_one e x (k, n))" "snd (unblock_one e x (k, n))"] subset_mset.order_trans by fastforce
qed simp

lemma unblock_get:
  "get_task i (fst (unblock_waiters_for e k)) = map_option (\<lambda>t. if waits_on e t then woken t else t) (get_task i k)"
  using get_task_keys[of i k] by (cases "get_task i k") (simp_all add: unblock_waiters_for_def unblock_fold_get)

lemma cleanup_revokes: "revoke_with_cleanup c k = Some x \<Longrightarrow> \<exists>p. x = revoke c (k\<lparr> pmm := p \<rparr>)"
  by (auto simp: revoke_with_cleanup_def Let_def split: option.splits CapabilityType.splits intro: exI[of _ "pmm k"])

lemma revoke_all_steps:
  assumes "revoke_all ids k = Some k'" "caps_ok k"
  shows "caps_ok k'" "held t k' \<subseteq> held t k" "task_table k' = task_table k" "scheduler k' = scheduler k"
    "current_task_id k' = current_task_id k"
proof -
  have one: "caps_ok k1 \<and> held t k1 \<subseteq> held t k0 \<and> task_table k1 = task_table k0 \<and> scheduler k1 = scheduler k0 \<and>
      current_task_id k1 = current_task_id k0"
    if rv: "revoke_with_cleanup c k0 = Some (k1, r)" and ok0: "caps_ok k0" for c k0 k1 r t
  proof -
    obtain p where k1: "k1 = fst (revoke c (k0\<lparr> pmm := p \<rparr>))"
      using cleanup_revokes[OF rv] by (metis fst_conv)
    have ok: "caps_ok (k0\<lparr> pmm := p \<rparr>)" and h: "held t (k0\<lparr> pmm := p \<rparr>) = held t k0"
      using ok0 by (simp_all add: caps_ok_def held_def)
    have "held t k1 \<subseteq> held t k0" unfolding k1 held_revoke[OF ok] by (auto simp: held_def)
    then show ?thesis using caps_ok_revoke[OF ok] by (simp add: k1 revoke_def split_beta)
  qed
  have "caps_ok k' \<and> held t k' \<subseteq> held t k \<and> task_table k' = task_table k \<and> scheduler k' = scheduler k \<and>
      current_task_id k' = current_task_id k"
    using assms
  proof (induction ids arbitrary: k)
    case (Cons c ids)
    then obtain k1 r where k1: "revoke_with_cleanup c k = Some (k1, r)" "revoke_all ids k1 = Some k'"
      by (auto split: option.splits prod.splits)
    then show ?case using Cons.IH[OF k1(2)] one[OF k1(1) Cons.prems(2), of t] by auto
  qed simp
  then show "caps_ok k'" "held t k' \<subseteq> held t k" "task_table k' = task_table k" "scheduler k' = scheduler k"
    "current_task_id k' = current_task_id k" by simp_all
qed

lemma steps_unblock: "small_steps qt k (fst (unblock_waiters_for e k))"
proof -
  have "small_steps qt k (fst (fold (unblock_one e) xs (k, n)))" for xs n
  proof (induction xs arbitrary: k n)
    case (Cons x xs)
    have "small_steps qt k (update_task x woken k)" by (rule steps_task[OF task_update_ready]) simp_all
    note w = steps_trans[OF this steps_enqueue[of _ _ x]]
    have "small_steps qt k (fst (unblock_one e x (k, n)))" using w steps_refl by (auto simp: unblock_one_eq split: option.split)
    from steps_trans[OF this Cons.IH[of _ "snd (unblock_one e x (k, n))"]] show ?case by simp
  qed (simp add: steps_refl)
  then show ?thesis by (simp add: unblock_waiters_for_def)
qed

lemma kernel_ok_drop_caps:
  assumes "kernel_ok k"
  shows "kernel_ok (update_task tid (\<lambda>t. t\<lparr> capabilities := [] \<rparr>) k)" (is "kernel_ok ?k")
    "held i (update_task tid (\<lambda>t. t\<lparr> capabilities := [] \<rparr>) k) \<subseteq> held i k"
proof -
  have ok: "tasks_ok k" "caps_ok k" "waiters_ok k" using assms by (simp_all add: kernel_ok_def)
  have "tasks_ok ?k" using ok(1) by (rule tasks_ok_update) (use ok(1) in \<open>auto simp: tasks_ok_def\<close>)
  moreover have "caps_ok ?k" using ok(2) by (fastforce simp: caps_ok_def split: if_splits)
  moreover have "wait_ok ?k u" if u: "get_task j ?k = Some u" for j u
  proof -
    obtain t where "get_task j k = Some t" "state u = state t" "blocked_on u = blocked_on t"
      using u by (auto split: if_splits)
    then have "wait_ok k u" using ok(3) wait_ok_cong[of u t k] by (simp add: waiters_ok_def)
    then show ?thesis by (rule wait_ok_keys[rotated]) simp
  qed
  ultimately show "kernel_ok ?k" by (simp add: kernel_ok_def waiters_ok_def)
  show "held i ?k \<subseteq> held i k" by (auto simp: held_def split: if_splits)
qed

lemma kernel_ok_remove:
  assumes "kernel_ok k" "\<And>i t. get_task i k = Some t \<Longrightarrow> i \<noteq> tid \<Longrightarrow> \<not> waits_on tid t"
  shows "kernel_ok (fst (remove_task tid k))" (is "kernel_ok ?k")
proof -
  have ok: "tasks_ok k" "caps_ok k" "waiters_ok k" using assms(1) by (simp_all add: kernel_ok_def)
  have "bt_wf (task_table ?k)" using ok(1) by (simp add: tasks_ok_def remove_task_def bt.wf_del)
  then have "tasks_ok ?k" using ok(1) by (auto simp: tasks_ok_def split: if_splits)
  moreover have "cap_table ?k = cap_table k" by (simp add: remove_task_def)
  then have "caps_ok ?k" using ok(2) by (auto simp: caps_ok_def split: if_splits)
  moreover have "wait_ok ?k t" if t: "get_task i ?k = Some t" for i t
  proof -
    have "get_task i k = Some t" "i \<noteq> tid" using t by (auto split: if_splits)
    then have "wait_ok k t" "\<not> waits_on tid t" using ok(3) assms(2) by (auto simp: waiters_ok_def)
    then show ?thesis by (auto simp: wait_ok_def waits_on_def split: TaskState.splits)
  qed
  ultimately show ?thesis by (simp add: kernel_ok_def waiters_ok_def)
qed

lemma kernel_ok_table:
  assumes "task_table k' = task_table k" "kernel_ok k" "caps_ok k'"
  shows "kernel_ok k'"
proof -
  have g: "get_task i k' = get_task i k" for i using assms(1) by (simp add: get_task_def)
  have "tasks_ok k' = tasks_ok k" "waiters_ok k' = waiters_ok k"
    unfolding tasks_ok_def waiters_ok_def wait_ok_def g assms(1) by (rule refl)+
  then show ?thesis using assms(2,3) by (simp add: kernel_ok_def)
qed

text \<open>The state in which an exiting task has woken its waiters and given up its capability list.\<close>

definition exit_drained :: "Kernel \<Rightarrow> Kernel" where
  "exit_drained k = update_task (current_task_id k) (\<lambda>t. t\<lparr> capabilities := [] \<rparr>)
     (fst (unblock_waiters_for (current_task_id k) (update_task (current_task_id k) (\<lambda>t. t\<lparr> state := Exited \<rparr>) k)))"

lemma exit_drained_ok:
  assumes "kernel_ok k"
  shows "kernel_ok (exit_drained k)" "confined k (exit_drained k)"
    "mset (run_queue (scheduler k)) \<subseteq># mset (run_queue (scheduler (exit_drained k)))"
    "get_task i (exit_drained k) = Some t \<Longrightarrow> \<not> waits_on (current_task_id k) t"
proof -
  let ?c = "current_task_id k"
  have "small_steps qt k (update_task ?c (\<lambda>t. t\<lparr> state := Exited \<rparr>) k)" by (rule steps_task[OF task_update_ready]) simp_all
  note s2 = steps_trans[OF this steps_unblock[of _ _ ?c]]
  note d = kernel_ok_drop_caps[OF small_steps_ok[OF s2 assms], where tid = ?c]
  show "kernel_ok (exit_drained k)" unfolding exit_drained_def by (rule d(1))
  show "confined k (exit_drained k)"
    unfolding exit_drained_def by (rule confined_trans[OF small_steps_confined[OF s2 assms] confined_held[OF d(2)]])
  show "mset (run_queue (scheduler k)) \<subseteq># mset (run_queue (scheduler (exit_drained k)))"
    using small_steps_queue[OF s2] by (simp add: exit_drained_def)
  have nw: "\<not> waits_on ?c u" if "get_task i (fst (unblock_waiters_for ?c q)) = Some u" for q u
    using that by (auto simp: unblock_get split: if_splits) (metis woken_simps(1))
  have "waits_on ?c (u\<lparr> capabilities := [] \<rparr>) = waits_on ?c u" for u by (simp add: waits_on_def)
  then show "\<not> waits_on ?c t" if "get_task i (exit_drained k) = Some t"
    using that nw[of "update_task ?c (\<lambda>t. t\<lparr> state := Exited \<rparr>) k"]
    by (auto simp: exit_drained_def simp del: get_task_update split: if_splits simp: get_task_update[of _ ?c "\<lambda>t. t\<lparr> capabilities := [] \<rparr>"])
qed

lemma exit_task_drained:
  "exit_task k = Some k' \<Longrightarrow> \<exists>ids k4. revoke_all ids (exit_drained k) = Some k4 \<and> k' = fst (remove_task (current_task_id k) k4)"
  unfolding exit_task_def Let_def exit_drained_def[symmetric]
  by (auto simp del: revoke_all.simps split: option.splits)

lemma held_remove: "held i (fst (remove_task c k)) \<subseteq> held i k"
  by (cases "i = c") (auto simp: held_def remove_task_def get_task_def)

lemma exit_task_ok:
  assumes "kernel_ok k" "exit_task k = Some k'"
  shows "kernel_ok k'" "confined k k'" "mset (run_queue (scheduler k)) \<subseteq># mset (run_queue (scheduler k'))"
proof -
  let ?c = "current_task_id k"
  note d = exit_drained_ok[OF assms(1)]
  obtain ids k4 where k4: "revoke_all ids (exit_drained k) = Some k4" "k' = fst (remove_task ?c k4)"
    using exit_task_drained[OF assms(2)] by blast
  have caps3: "caps_ok (exit_drained k)" using d(1) by (simp add: kernel_ok_def)
  note r = revoke_all_steps[OF k4(1) caps3]
  have ok4: "kernel_ok k4" by (rule kernel_ok_table[OF r(3) d(1) r(1)])
  have "\<not> waits_on ?c t" if "get_task i k4 = Some t" for i t
    using that r(3) d(4) by (simp add: get_task_def)
  then show "kernel_ok k'" unfolding k4(2) by (rule kernel_ok_remove[OF ok4])
  have "held i k' \<subseteq> held i (exit_drained k)" for i unfolding k4(2) by (rule subset_trans[OF held_remove r(2)])
  from confined_trans[OF d(2) confined_held[OF this]] show "confined k k'" .
  show "mset (run_queue (scheduler k)) \<subseteq># mset (run_queue (scheduler k'))"
    using d(3) r(4) by (simp add: k4(2) remove_task_def)
qed

lemma exec_ok:
  assumes "kernel_ok k" "exec op k = Some k'"
  shows "kernel_ok k'" "confined k k'" "mset (run_queue (scheduler k)) \<subseteq># mset (run_queue (scheduler k'))"
proof -
  note s = exec_small_steps[OF assms(2)]
  show "kernel_ok k'" "confined k k'" "mset (run_queue (scheduler k)) \<subseteq># mset (run_queue (scheduler k'))"
    using exit_task_ok[OF assms(1)] s small_steps_ok small_steps_confined small_steps_queue assms
    by (cases "op = Exit"; simp)+
qed

lemma reach_ok:
  assumes "kernel_reach k0 k" "kernel_ok k0"
  shows "kernel_ok k \<and> confined k0 k \<and> mset (run_queue (scheduler k0)) \<subseteq># mset (run_queue (scheduler k))"
  using assms
proof (induction rule: kernel_reach.induct)
  case (reach_step k0 k op k')
  then show ?case using exec_ok[of k op k'] confined_trans subset_mset.order_trans by blast
qed simp

section \<open>Message queues\<close>

definition queued :: "TaskId \<Rightarrow> Kernel \<Rightarrow> IpcMessage list option" where
  "queued i k = map_option (\<lambda>t. queue (recv_queue t)) (get_task i k)"

lemma quiet_step_queued: "small_step True k k' \<Longrightarrow> queued i k' = queued i k"
proof (induction rule: small_step.induct)
  case (frame_step k k')
  then show ?case using same_core_map[of k k' "\<lambda>t. queue (recv_queue t)" i] by (simp add: queued_def)
next
  case (task_step tid k f)
  then show ?case by (cases "get_task i k") (auto simp: queued_def task_update_ok_def)
next
  case (transfer_step k a b c)
  then show ?case by (simp add: queued_def transfer_get)
qed (simp_all add: queued_def)

lemma quiet_queued: "small_steps True k k' \<Longrightarrow> queued i k' = queued i k"
  by (induction rule: small_steps.induct) (metis quiet_step_queued)+

lemma queued_push:
  assumes "push_message target m k = (k', b)"
  shows "queued i k' = (if i = target \<and> b then map_option (\<lambda>q. q @ [m]) (queued i k) else queued i k)"
  using assms by (auto simp: push_message_def queued_def push_def split: option.splits prod.splits if_splits)

lemma queued_pop:
  assumes "pop_message k = Some (k', m)"
  shows "queued i k' = (if i = current_task_id k then map_option tl (queued i k) else queued i k)"
  using assms
  by (auto simp: pop_message_def queued_def current_task_def pop_def split: option.splits prod.splits list.splits)

end
