(* ===== verification/IpcProps.thy ===== *)
theory IpcProps
  imports IpcInv
begin

text \<open>
  The properties of inter-process communication: who can put a message into a queue,
  what a reply does and to whom, what happens to the waiters of a task that exits, and
  which state all operations keep.
\<close>

section \<open>Queues under the operations\<close>

lemma sends_queued:
  assumes "sends mtype target msg k k'"
  shows "\<exists>cur m. current_task k = Some cur \<and> has_ipc_send (task_id cur) target k \<and>
      m = msg\<lparr> sender := task_id cur, msg_type := mtype, msg_id := next_message_id k \<rparr> \<and>
      queued i k' = (if i = target then map_option (\<lambda>q. q @ [m]) (queued i k) else queued i k)"
proof -
  obtain m k1 k2 where s: "ipc_prepare mtype target msg k = Returns k1 (Ok m)" "push_message target m k1 = (k2, True)"
    "small_steps True k2 k'"
    using assms by (auto simp: sends_def)
  have q1: "queued i k1 = queued i k" by (rule quiet_queued[OF prepare_steps[OF s(1)]])
  have "queued i k' = (if i = target then map_option (\<lambda>q. q @ [m]) (queued i k) else queued i k)"
    using quiet_queued[OF s(3), of i] queued_push[OF s(2), of i] unfolding q1 by simp
  then show ?thesis using prepare_Ok(4)[OF s(1)] by blast
qed

lemma receives_queued:
  assumes "receives k k'"
  shows "queued i k' = (if i = current_task_id k then map_option tl (queued i k) else queued i k)"
proof -
  obtain k1 m where "pop_message k = Some (k1, m)" "small_steps True k1 k'" using assms by (auto simp: receives_def)
  then show ?thesis using queued_pop[of k k1 m i] quiet_queued[of k1 k' i] by simp
qed

lemma exit_queued:
  assumes "kernel_ok k" "exit_task k = Some k'"
  shows "queued i k' = (if i = current_task_id k then None else queued i k)"
proof -
  obtain ids k4 where k4: "revoke_all ids (exit_drained k) = Some k4" "k' = fst (remove_task (current_task_id k) k4)"
    using exit_task_drained[OF assms(2)] by blast
  have "caps_ok (exit_drained k)" using exit_drained_ok(1)[OF assms(1)] by (simp add: kernel_ok_def)
  then have "task_table k4 = task_table (exit_drained k)" by (rule revoke_all_steps(3)[OF k4(1)])
  then have "queued i k4 = queued i (exit_drained k)" by (simp add: queued_def get_task_def)
  moreover have "queued i (exit_drained k) = queued i k" if "i \<noteq> current_task_id k"
    using that by (cases "get_task i k") (auto simp: queued_def exit_drained_def unblock_get)
  ultimately show ?thesis by (simp add: k4(2) queued_def)
qed

lemma register_queued: "queued i (register_task pt e st k) = (if i = next_task_id k then Some [] else queued i k)"
  by (simp add: register_task_def allocate_task_id_def queued_def Let_def)

definition queue_change :: "Kernel \<Rightarrow> TaskId \<Rightarrow> IpcMessage list \<Rightarrow> IpcMessage list \<Rightarrow> bool" where
  "queue_change k i q q' \<longleftrightarrow> (\<exists>n. q' = drop n q) \<or>
     (\<exists>m cur. q' = q @ [m] \<and> current_task k = Some cur \<and> sender m = task_id cur \<and> msg_id m = next_message_id k \<and>
        msg_type m \<noteq> Reply \<and> has_ipc_send (task_id cur) i k)"

lemma queue_change_same: "queue_change k i q q"
  unfolding queue_change_def by (metis drop0)

lemma queue_change_tl: "queue_change k i q (tl q)"
  unfolding queue_change_def by (metis drop_0 drop_Suc)

lemma sends_change:
  assumes "sends mtype target msg k k'" "mtype \<noteq> Reply" "queued i k = Some q" "queued i k' = Some q'"
  shows "queue_change k i q q'"
  using sends_queued[OF assms(1), of i] assms(2-4) queue_change_same
  by (auto simp: queue_change_def split: if_splits)

lemma receives_change:
  assumes "receives k k'" "queued i k = Some q" "queued i k' = Some q'"
  shows "queue_change k i q q'"
  using receives_queued[OF assms(1), of i] assms(2,3) queue_change_same queue_change_tl
  by (auto split: if_splits)

lemma quiet_change:
  assumes "small_steps True k k'" "queued i k = Some q" "queued i k' = Some q'"
  shows "queue_change k i q q'"
  using quiet_queued[OF assms(1), of i] assms(2,3) queue_change_same by simp

lemma exec_queue_change:
  assumes "kernel_ok k" "exec op k = Some k'" "queued i k = Some q" "queued i k' = Some q'"
  shows "queue_change k i q q'"
proof (cases op)
  case (SendOp t m)
  then show ?thesis using assms send_parts[of t m k k'] sends_change quiet_change by fastforce
next
  case (SendAsyncOp t m)
  then show ?thesis using assms send_async_parts[of t m k k'] sends_change quiet_change by fastforce
next
  case (SysSend t a b)
  then show ?thesis using assms sys_send_parts[of t a b k k'] sends_change quiet_change by fastforce
next
  case SysReceive
  then show ?thesis using assms receives_change[OF steps_sys_receive] by simp
next
  case TryReceive
  then show ?thesis using assms receives_change[OF steps_try_receive] by simp
next
  case (SysReply a b)
  then show ?thesis using assms quiet_change[OF steps_sys_reply] by simp
next
  case SysRecvAsync
  then show ?thesis using assms receives_change[OF steps_sys_recv_async] by simp
next
  case (SysReplyToken tok a b)
  then show ?thesis using assms quiet_change[OF steps_sys_reply_token] by simp
next
  case Yield
  then show ?thesis using assms quiet_change[OF steps_yield] by simp
next
  case (TimerIrq saved)
  then show ?thesis using assms quiet_change[OF steps_timer] by auto
next
  case Exit
  then show ?thesis using assms exit_queued[OF assms(1), of k' i] queue_change_same by (auto split: if_splits)
next
  case (Spawn a b c)
  then show ?thesis using assms register_queued[of i a b c k] queue_change_same[of k i q]
    by (auto simp: queue_change_def split: if_splits intro: exI[of _ "length q"])
qed

section \<open>A client and a server\<close>

text \<open>Two tasks, the first of which may send to any task and runs, for the examples.\<close>

definition demo_ipc :: Kernel where
  "demo_ipc = fst (grant_ipc_send_any 1 (demo_ready\<lparr> current_task_id := 1 \<rparr>))"

lemma demo_ipc_eq:
  "demo_ipc = update_task 1 (\<lambda>t. t\<lparr> capabilities := [1] \<rparr>) (demo_ready\<lparr> current_task_id := 1,
     cap_table := fst (allocate CapabilityTable_new (CapabilityEntry_new IpcSendAny 1)) \<rparr>)"
proof -
  have "snd (allocate CapabilityTable_new (CapabilityEntry_new IpcSendAny 1)) = Ok 1" by (rule demo_allocate)
  moreover have "cap_table demo_ready = CapabilityTable_new" by (simp add: demo_ready_def demo_tasks)
  moreover have "update_task 1 (\<lambda>t. t\<lparr> capabilities := capabilities t @ [1] \<rparr>) q = update_task 1 (\<lambda>t. t\<lparr> capabilities := [1] \<rparr>) q"
    if "q = demo_ready\<lparr> current_task_id := 1, cap_table := tbl \<rparr>" for q tbl
    using that by (simp add: update_task_def demo_ready_def enqueue_def demo_kernel_def insert_task_def Kernel_boot_def Task_new_def
        bt_modify_def)
  ultimately show ?thesis
    by (auto simp: demo_ipc_def grant_ipc_send_any_def grant_def split: prod.splits)
qed

lemma demo_grant_ipc: "grant 1 IpcSendAny (demo_ready\<lparr> current_task_id := 1 \<rparr>) = (demo_ipc, Ok 1)"
  using demo_allocate[of "CapabilityEntry_new IpcSendAny 1"]
  by (auto simp: demo_ipc_def grant_ipc_send_any_def grant_def demo_ready_def demo_tasks split: prod.splits sum.splits)

lemma demo_ipc_simps:
  "get_task t demo_ipc = (if t = 1 then Some ((Task_new 0 1 0x400000)\<lparr> capabilities := [1] \<rparr>)
     else if t = 2 then Some (Task_new 0 2 0x400000) else None)"
  "current_task_id demo_ipc = 1" "scheduler demo_ipc = EnhancedScheduler_new\<lparr> run_queue := [1, 2] \<rparr>" "uptime_ms demo_ipc = 0"
  by (simp_all add: demo_ipc_eq demo_ready_simps demo_get_task)

lemma demo_kernel_ok: "kernel_ok demo_kernel"
  unfolding demo_kernel_def
  using kernel_ok_insert[OF kernel_ok_insert[OF kernel_ok_boot[of demo_pmm demo_bridge],
      of "Task_new 0 1 0x400000" 1], of "Task_new 0 2 0x400000" 1]
  by (simp add: insert_task_def Kernel_boot_def)

lemma demo_ready_ok: "kernel_ok (demo_ready\<lparr> current_task_id := 1 \<rparr>)"
  using kernel_ok_fields[of "demo_ready\<lparr> current_task_id := 1 \<rparr>" demo_kernel] demo_kernel_ok
  by (simp add: demo_ready_def enqueue_def)

lemma demo_ipc_ok: "kernel_ok demo_ipc"
  using demo_ready_ok unfolding demo_ipc_def grant_ipc_send_any_def by (rule kernel_ok_grant)

lemma demo_can_send: "has_ipc_send 1 2 demo_ipc"
proof -
  have "get (cap_table demo_ipc) 1 = Some (CapabilityEntry_new IpcSendAny 1)"
    using get_allocate[OF table_ok_new demo_allocate, of _ 1] by (simp add: demo_ipc_eq)
  then show ?thesis
    by (simp add: has_ipc_send_def has_capability_def demo_ipc_simps CapabilityEntry_new_def grants_def)
qed

lemma demo_prepare:
  "ipc_prepare mtype 2 (new_request [7, 0, 0, 0]) demo_ipc =
     Returns (fst (fresh_message_id demo_ipc))
       (Ok ((new_request [7, 0, 0, 0])\<lparr> sender := 1, msg_type := mtype, msg_id := next_message_id demo_ipc \<rparr>))"
proof -
  have "current_task demo_ipc = Some ((Task_new 0 1 0x400000)\<lparr> capabilities := [1] \<rparr>)"
    by (simp add: current_task_def demo_ipc_simps)
  moreover have "get_task 2 demo_ipc = Some (Task_new 0 2 0x400000)" by (simp add: demo_ipc_simps)
  ultimately show ?thesis
    using ipc_prepare_go[of 2 demo_ipc _ _ mtype "new_request [7, 0, 0, 0]"] demo_can_send
    by (simp add: Let_def new_request_def)
qed

section \<open>Blocking sends\<close>

lemma yield_core:
  assumes "outcome_state (yield_cpu k) = Some k'"
  shows "same_core k k'"
proof -
  obtain k1 r where s: "schedule_next (record_voluntary_yield (current_task_id k) k) = (k1, r)" by fastforce
  have k1: "same_core k k1"
    using sched_frame_trans[OF record_frame(1) schedule_next_frame[OF s]] by (simp add: sched_frame_def)
  have c: "same_core a (a\<lparr> context_ptr := p \<rparr>)" "same_core a (a\<lparr> xsave_ptr := p, context_ptr := p \<rparr>)" for a p
    by (simp_all add: same_core_def get_task_def)
  have "same_core k1 (set_current_task n (switch_page_table u k1))" for n u
    by (simp add: same_core_def get_task_def set_current_task_def switch_page_table_def)
  from this[THEN same_core_trans, OF record_frame_counted(1)[unfolded sched_frame_def, THEN conjunct1]]
  have "same_core k1 ((record_context_switch n (set_current_task n (switch_page_table u k1)))
      \<lparr> xsave_ptr := Some n, context_ptr := Some n \<rparr>)" for n u
    using same_core_trans c(2) by blast
  then show ?thesis
    using assms s k1 same_core_trans[OF k1] c
    by (auto simp: yield_cpu_def Let_def split: option.splits if_splits)
qed

lemma yield_total: "\<exists>k'. outcome_state (yield_cpu k) = Some k'"
proof -
  obtain k1 r where s: "schedule_next (record_voluntary_yield (current_task_id k) k) = (k1, r)" by fastforce
  show ?thesis
  proof (cases r)
    case (Some n)
    then obtain t where "get_task n k1 = Some t" using s by (auto elim: schedule_next_runnable)
    then show ?thesis using s Some by (auto simp: yield_cpu_def Let_def split: option.split)
  qed (simp add: yield_cpu_def s)
qed

lemma prepared_keeps:
  assumes "ipc_prepare mtype target msg k = Returns k1 (Ok m)"
  shows "get_task i k1 = None \<longleftrightarrow> get_task i k = None"
proof -
  have "map_option (\<lambda>_. ()) (get_task i k1) = map_option (\<lambda>_. ()) (get_task i k)"
    using assms
  proof (cases rule: ipc_prepare_cases[of target k mtype msg])
    case (prepared t cur k1')
    then have "k1' = k1" using assms by simp
    then show ?thesis using prepared(5) by (intro prepared_get) simp_all
  qed simp_all
  then show ?thesis by (cases "get_task i k"; cases "get_task i k1") simp_all
qed

lemma wake_receiver_get:
  "get_task i (wake_receiver target k) =
     map_option (\<lambda>t. if i = target \<and> state t = BlockedOnReceive then t\<lparr> state := Runnable \<rparr> else t) (get_task i k)"
  by (cases "get_task i k") (auto simp: wake_receiver_def split: option.split)

lemma block_and_wake_sender:
  assumes "get_task c k = Some t"
  obtains t' where "get_task c (block_and_wake c target k) = Some t'" "ipc_reply t' = None"
    "c \<noteq> target \<Longrightarrow> state t' = BlockedOnSend target \<and> blocked_on t' = Some target"
  using assms by (cases "c = target") (simp_all add: block_and_wake_def wake_receiver_get Let_def)

text \<open>What is left of the sender when its message is queued and the processor is given up.\<close>

lemma send_blocked:
  assumes p: "ipc_prepare Request target msg k = Returns k1 (Ok m)" and q: "push_message target m k1 = (k2, True)"
    and y: "outcome_state (yield_cpu (block_and_wake (current_task_id k) target k2)) = Some k3"
  obtains t where "get_task (current_task_id k) k3 = Some t" "ipc_reply t = None"
    "current_task_id k \<noteq> target \<Longrightarrow> state t = BlockedOnSend target \<and> blocked_on t = Some target"
proof -
  let ?c = "current_task_id k"
  obtain cur where "current_task k = Some cur" using prepare_Ok(4)[OF p] by blast
  then have "get_task ?c k \<noteq> None" by (simp add: current_task_def)
  then have "get_task ?c k1 \<noteq> None" using prepared_keeps[OF p, of ?c] by simp
  then obtain c2 where c2: "get_task ?c k2 = Some c2" using push_keeps(1)[OF q, of ?c] by auto
  obtain t2 where t2: "get_task ?c (block_and_wake ?c target k2) = Some t2" "ipc_reply t2 = None"
    "?c \<noteq> target \<Longrightarrow> state t2 = BlockedOnSend target \<and> blocked_on t2 = Some target"
    using block_and_wake_sender[OF c2, of target] by blast
  obtain t3 where t3: "get_task ?c k3 = Some t3" "core t3 = core t2" by (rule same_core_get[OF yield_core[OF y] t2(1)])
  show thesis by (rule that[OF t3(1)]) (use t2 core_eqD[OF t3(2)] in simp_all)
qed

lemma unblock_fold_runs:
  assumes "i \<in> set xs" "get_task i k = Some t" "waits_on e t"
  shows "i \<in> set (run_queue (scheduler (fst (fold (unblock_one e) xs (k, n)))))"
  using assms
proof (induction xs arbitrary: k n)
  case (Cons x xs)
  have mono: "set (run_queue (scheduler k)) \<subseteq> set (run_queue (scheduler (fst (fold (unblock_one e) ys (k, n)))))" for ys k n
  proof (induction ys arbitrary: k n)
    case (Cons y ys)
    have "set (run_queue (scheduler k)) \<subseteq> set (run_queue (scheduler (fst (unblock_one e y (k, n)))))"
      by (auto simp: unblock_one_eq enqueue_def add_task_def split: option.split)
    then show ?case using Cons[of "fst (unblock_one e y (k, n))" "snd (unblock_one e y (k, n))"] by simp
  qed simp
  show ?case
  proof (cases "i = x")
    case True
    then show ?thesis using Cons.prems mono[of "enqueue x (update_task x woken k)" xs "n + 1"]
      by (auto simp: unblock_one_eq enqueue_def add_task_def)
  next
    case False
    have "get_task i (fst (unblock_one e x (k, n))) = Some t"
      using Cons.prems False by (auto simp: unblock_one_eq split: option.split)
    then show ?thesis using Cons.IH[of "fst (unblock_one e x (k, n))" "snd (unblock_one e x (k, n))"] Cons.prems False by simp
  qed
qed simp

lemma unblock_runs:
  assumes "get_task i k = Some t" "waits_on e t"
  shows "i \<in> set (run_queue (scheduler (fst (unblock_waiters_for e k))))"
  unfolding unblock_waiters_for_def using get_task_keys[of i k] assms by (intro unblock_fold_runs) auto

lemma deliver_reply_state:
  "map_option state (get_task i (deliver_reply r s p k)) =
     (if i = s then map_option (\<lambda>_. Runnable) (get_task i k) else map_option state (get_task i k))"
  by (cases "get_task i k") (auto simp: deliver_reply_def Let_def case_prod_beta)

lemma demo_send: "\<exists>k'. ipc_send 2 (new_request [7, 0, 0, 0]) demo_ipc = Switches k'"
proof -
  define k1 where "k1 = fst (fresh_message_id demo_ipc)"
  have k1: "get_task t k1 = get_task t demo_ipc" "uptime_ms k1 = 0" "current_task_id k1 = 1"
      "scheduler k1 = EnhancedScheduler_new\<lparr> run_queue := [1, 2] \<rparr>" for t
    by (simp_all add: k1_def fresh_message_id_def demo_ipc_simps get_task_def)
  let ?m = "(new_request [7, 0, 0, 0])\<lparr> sender := 1, msg_type := Request, msg_id := next_message_id demo_ipc \<rparr>"
  define k2 where "k2 = update_task 2 (\<lambda>t. t\<lparr> recv_queue := \<lparr> queue = [?m], max_size = 64 \<rparr> \<rparr>) k1"
  have q: "push_message 2 ?m k1 = (k2, True)"
    by (simp add: k1 k2_def push_message_def demo_ipc_simps push_def is_full_def DEFAULT_SIZE_def init_at_ptr_def Task_new_def)
  define k3 where "k3 = block_and_wake 1 2 k2"
  have k3: "get_task 1 k3 = map_option (\<lambda>t. t\<lparr> state := BlockedOnSend 2, blocked_on := Some 2, ipc_reply := None \<rparr>) (get_task 1 k2)"
      "get_task 2 k3 = map_option (\<lambda>t. t\<lparr> inherited_priority := 128 \<rparr>) (get_task 2 k2)"
      "uptime_ms k3 = 0" "current_task_id k3 = 1" "scheduler k3 = EnhancedScheduler_new\<lparr> run_queue := [1, 2] \<rparr>"
    by (simp_all add: k3_def block_and_wake_def k2_def k1 demo_ipc_simps wake_receiver_def Task_new_def PRIORITY_NORMAL_def)
  have "\<exists>k'. yield_cpu k3 = Switches k'"
    by (simp add: yield_cpu_def schedule_next_def sched_upkeep_def record_voluntary_yield_def
      record_scheduler_invocation_def select_best_def consider_task_def effective_priority_def k3 k2_def k1 demo_ipc_simps Task_new_def
      semantic_adjust_def PRIORITY_NORMAL_def EnhancedScheduler_new_def Let_def)
  then show ?thesis using demo_prepare[of Request] q by (auto simp: ipc_send_def k1_def[symmetric] k3_def demo_ipc_simps)
qed

section \<open>Properties\<close>

text \<open>C1: messages are authenticated: whatever system call, interrupt or exit happens, a task's message queue
  only loses messages from its front or gains one message at its end, and the gained message carries
  the identity of the running task, which holds the right to send to that task, and a fresh identifier.\<close>

theorem messages_authenticated:
  assumes "kernel_ok k" "exec op k = Some k'" "queued i k = Some q" "queued i k' = Some q'"
  shows "(\<exists>n. q' = drop n q) \<or>
    (\<exists>m. q' = q @ [m] \<and> sender m = current_task_id k \<and> has_ipc_send (current_task_id k) i k \<and>
       msg_id m = next_message_id k \<and> msg_type m \<noteq> Reply)"
proof -
  have "task_id cur = current_task_id k" if "current_task k = Some cur" for cur
    using assms(1) that by (simp add: kernel_ok_def tasks_ok_def current_task_def)
  then show ?thesis using exec_queue_change[OF assms] unfolding queue_change_def by metis
qed

lemma demo_async: "ipc_send_async 2 (new_request [7, 0, 0, 0]) demo_ipc =
  Returns (update_task 2 (\<lambda>t. t\<lparr> recv_queue := \<lparr> queue = [(new_request [7, 0, 0, 0])\<lparr> sender := 1, msg_type := Notification,
    msg_id := next_message_id demo_ipc \<rparr>], max_size = 64 \<rparr> \<rparr>) (fst (fresh_message_id demo_ipc))) (Ok ())"
  by (simp add: ipc_send_async_def demo_prepare push_message_def demo_ipc_simps Task_new_def init_at_ptr_def push_def is_full_def
      DEFAULT_SIZE_def wake_receiver_def)

theorem messages_authenticated_witness:
  "\<exists>m k'. exec (SendAsyncOp 2 (new_request [7, 0, 0, 0])) demo_ipc = Some k' \<and> queued 2 k' = Some [m] \<and>
     sender m = current_task_id demo_ipc \<and> has_ipc_send (current_task_id demo_ipc) 2 demo_ipc"
proof -
  let ?m = "(new_request [7, 0, 0, 0])\<lparr> sender := 1, msg_type := Notification, msg_id := next_message_id demo_ipc \<rparr>"
  obtain k' where e: "exec (SendAsyncOp 2 (new_request [7, 0, 0, 0])) demo_ipc = Some k'" "queued 2 k' = Some [?m]"
    using demo_async by (simp add: queued_def demo_ipc_simps)
  have "queued 2 demo_ipc = Some []" by (simp add: queued_def demo_ipc_simps)
  from messages_authenticated[OF demo_ipc_ok e(1) this e(2)] e show ?thesis by auto
qed

text \<open>C5: no orphaned waiters: in every state reached from a well-formed one by system calls, timer interrupts,
  spawns and exits, a task blocked in a send waits for a task that exists, a task waiting for a deferred
  reply is registered with a task that exists, and every message queue is within its capacity.\<close>

theorem no_orphan_waiters:
  assumes "kernel_ok k0" "kernel_reach k0 k" "get_task tid k = Some t"
  shows "task_id t = tid \<and> length (queue (recv_queue t)) \<le> max_size (recv_queue t) \<and>
    (\<forall>x. state t = BlockedOnSend x \<longrightarrow> blocked_on t = Some x \<and> get_task x k \<noteq> None) \<and>
    (\<forall>r. state t = WaitingForReply r \<longrightarrow> (\<exists>x. blocked_on t = Some x \<and> get_task x k \<noteq> None))"
proof -
  have "kernel_ok k" using reach_ok[OF assms(2,1)] by blast
  then have "tasks_ok k" "wait_ok k t" using assms(3) by (auto simp: kernel_ok_def waiters_ok_def)
  then show ?thesis using assms(3) by (auto simp: tasks_ok_def wait_ok_def)
qed




theorem no_orphan_waiters_witness:
  "\<exists>k t. kernel_reach demo_ipc k \<and> get_task 1 k = Some t \<and> state t = BlockedOnSend 2 \<and> blocked_on t = Some 2 \<and>
     get_task 2 k \<noteq> None"
proof -
  let ?m = "(new_request [7, 0, 0, 0])\<lparr> sender := 1, msg_type := Request, msg_id := next_message_id demo_ipc \<rparr>"
  let ?k1 = "fst (fresh_message_id demo_ipc)"
  obtain k2 where q: "push_message 2 ?m ?k1 = (k2, True)"
    by (simp add: push_message_def demo_ipc_simps Task_new_def init_at_ptr_def push_def is_full_def DEFAULT_SIZE_def)
  obtain k3 where y: "outcome_state (yield_cpu (block_and_wake 1 2 k2)) = Some k3" using yield_total by blast
  obtain t where t: "get_task 1 k3 = Some t" "state t = BlockedOnSend 2"
    using send_blocked[OF demo_prepare[of Request] q, of k3] y by (auto simp: demo_ipc_simps)
  obtain k where k: "exec (SendOp 2 (new_request [7, 0, 0, 0])) demo_ipc = Some k" "k = k3 \<or> k = fst (take_reply 1 k3)"
    using y by (cases "yield_cpu (block_and_wake 1 2 k2)") (auto simp: ipc_send_def demo_prepare q demo_ipc_simps case_prod_beta)
  obtain u where "get_task 1 k = Some u" "state u = BlockedOnSend 2" using k(2) t by (auto simp: take_reply_def)
  moreover have r: "kernel_reach demo_ipc k" by (rule reach_step[OF reach_start k(1)])
  ultimately show ?thesis using no_orphan_waiters[OF demo_ipc_ok r] by blast
qed

text \<open>A blocking send that gives up the processor has queued exactly one message for its target, carrying the
  sender's identity, and leaves the sender blocked on that target until it is answered.\<close>

theorem send_blocks_sender:
  assumes "kernel_ok k" "ipc_send target msg k = Switches k'" "target \<noteq> current_task_id k"
  shows "\<exists>t m q. get_task (current_task_id k) k' = Some t \<and> state t = BlockedOnSend target \<and> blocked_on t = Some target \<and>
    queued target k = Some q \<and> queued target k' = Some (q @ [m]) \<and> sender m = current_task_id k \<and> msg_type m = Request \<and>
    payload m = payload msg"
proof -
  let ?c = "current_task_id k"
  obtain k1 r where p: "ipc_prepare Request target msg k = Returns k1 r"
    using assms(2) prepare_returns[of Request target msg k] by (auto simp: ipc_send_def)
  obtain m where m: "r = Ok m" using assms(2) p by (cases r) (simp_all add: ipc_send_def)
  note ok = prepare_Ok[OF p[unfolded m]]
  obtain k2 b where q: "push_message target m k1 = (k2, b)" by fastforce
  have b: "b" "yield_cpu (block_and_wake ?c target k2) = Switches k'"
    using assms(2) p m q by (cases b; cases "yield_cpu (block_and_wake ?c target k2)"; simp add: ipc_send_def case_prod_beta)+
  then have y: "outcome_state (yield_cpu (block_and_wake ?c target k2)) = Some k'" by simp
  obtain t where t: "get_task ?c k' = Some t" "state t = BlockedOnSend target" "blocked_on t = Some target"
    using send_blocked[OF p[unfolded m] q[unfolded eqTrueI[OF b(1)]] y] assms(3) by auto
  have "small_steps True k2 k'"
    by (rule steps_trans[OF steps_block steps_yield[OF y]]) (use push_keeps(1)[OF q, of target] ok(2) in simp)
  then have "queued target k' = queued target k2" by (rule quiet_queued)
  moreover have "queued target k1 = queued target k" using quiet_queued[OF prepare_steps[OF p]] .
  moreover obtain ts where "queued target k = Some ts" using ok(4) by (auto simp: queued_def)
  ultimately have "queued target k' = Some (ts @ [m])" "queued target k = Some ts" using queued_push[OF q, of target] b(1) by simp_all
  moreover have "sender m = ?c" "msg_type m = Request" "payload m = payload msg"
    using ok(4) assms(1) by (auto simp: kernel_ok_def tasks_ok_def current_task_def)
  ultimately show ?thesis using t by blast
qed

theorem send_blocks_sender_witness:
  "\<exists>k' t m. ipc_send 2 (new_request [7, 0, 0, 0]) demo_ipc = Switches k' \<and> get_task 1 k' = Some t \<and>
     state t = BlockedOnSend 2 \<and> queued 2 k' = Some [m] \<and> sender m = 1 \<and> payload m = [7, 0, 0, 0]"
proof -
  obtain k' where s: "ipc_send 2 (new_request [7, 0, 0, 0]) demo_ipc = Switches k'" using demo_send by blast
  have "queued 2 demo_ipc = Some []" by (simp add: queued_def demo_ipc_simps)
  then show ?thesis using send_blocks_sender[OF demo_ipc_ok s] s by (auto simp: demo_ipc_simps new_request_def)
qed

text \<open>\<open>ipc_send\<close> never returns a reply to its caller: when it returns instead of giving up the processor, it
  returns an error. The reply of a server reaches the sender only as the return register of the resumed
  context.\<close>

theorem send_never_returns_reply: "ipc_send target msg k \<noteq> Returns k' (Ok reply)"
proof
  assume s: "ipc_send target msg k = Returns k' (Ok reply)"
  let ?c = "current_task_id k"
  obtain k1 r where p: "ipc_prepare Request target msg k = Returns k1 r"
    using s prepare_returns[of Request target msg k] by (auto simp: ipc_send_def)
  obtain m where m: "r = Ok m" using s p by (cases r) (simp_all add: ipc_send_def)
  obtain k2 b where q: "push_message target m k1 = (k2, b)" by fastforce
  have b: "b" using s p m q by (cases b) (simp_all add: ipc_send_def)
  then obtain k3 where k3: "yield_cpu (block_and_wake ?c target k2) = Returns k3 ()" "snd (take_reply ?c k3) = Ok reply"
    using s p m q by (cases "yield_cpu (block_and_wake ?c target k2)") (auto simp: ipc_send_def case_prod_beta)
  then have y: "outcome_state (yield_cpu (block_and_wake ?c target k2)) = Some k3" by simp
  obtain t where t: "get_task ?c k3 = Some t" "ipc_reply t = None"
    using send_blocked[OF p[unfolded m] q[unfolded eqTrueI[OF b]] y] by blast
  then show False using k3(2) by (simp add: take_reply_def)
qed

text \<open>C22: the server side of a call: when the first message in the running task's queue comes from a task blocked on it,
  receiving and then replying succeeds, the caller becomes runnable with the first payload word of the
  reply in its return register and is queued to run, and every other task keeps its state.\<close>

theorem receive_reply_resumes_caller:
  assumes "task_id server = current_task_id k" "get_task (current_task_id k) k = Some server" "queue (recv_queue server) = m # rest"
    and "get_task (sender m) k = Some caller" "state caller = BlockedOnSend (current_task_id k)" "sender m \<noteq> current_task_id k"
  shows "\<exists>k1 r k2 caller'. syscall_ipc_receive k = Returns k1 r \<and> syscall_ipc_reply a b k1 = Returns k2 0 \<and>
    queued (current_task_id k) k2 = Some rest \<and> get_task (sender m) k2 = Some caller' \<and> state caller' = Runnable \<and>
    rax (ctx caller') = a \<and> blocked_on caller' = None \<and> sender m \<in> set (run_queue (scheduler k2)) \<and>
    (\<forall>i. i \<noteq> sender m \<longrightarrow> map_option state (get_task i k2) = map_option state (get_task i k))"
proof -
  let ?c = "current_task_id k"
  let ?q = "(recv_queue server)\<lparr> queue := rest \<rparr>"
  let ?k0 = "update_task ?c (\<lambda>t. t\<lparr> recv_queue := ?q \<rparr>) k"
  let ?k1 = "store_request m ?k0"
  have pop: "pop_message k = Some (?k0, Some m)" using assms(2,3) by (simp add: pop_message_def current_task_def pop_def)
  then have r: "syscall_ipc_receive k = Returns ?k1 (push_bit 32 (payload m ! 0 AND 0xFFFFFFFF) OR ucast (sender m))"
    by (simp add: syscall_ipc_receive_def ipc_receive_def)
  have cid: "current_task_id ?k1 = ?c" by (simp add: store_request_def record_ipc_received_def)
  have g1: "map_option g (get_task i ?k1) = map_option g (get_task i ?k0)"
    if "\<And>t x. g (t\<lparr> task_stats := x \<rparr>) = g t" "\<And>t x. g (t\<lparr> ipc_reply := x \<rparr>) = g t" for g :: "Task \<Rightarrow> 'b" and i
    using that by (cases "get_task i ?k0") (auto simp: store_request_def record_ipc_received_def)
  obtain s1 where s1: "get_task ?c ?k1 = Some s1" "ipc_reply s1 = Some m" "task_id s1 = ?c" "recv_queue s1 = ?q"
    using assms(2,1) by (simp add: store_request_def record_ipc_received_def)
  obtain c1 where c1: "get_task (sender m) ?k1 = Some c1" "state c1 = BlockedOnSend ?c"
    using assms(4-6) by (simp add: store_request_def record_ipc_received_def)
  let ?d = "deliver_reply ?c (sender m) [a, b, 0, 0] ?k1"
  let ?k2 = "record_ipc_replied ?c ?d"
  have rep: "syscall_ipc_reply a b ?k1 = Returns ?k2 0"
    using s1 c1 cid by (simp add: syscall_ipc_reply_def current_task_def ipc_reply_to_def)
  have "queued ?c ?k2 = Some rest"
    using s1 assms(6) by (simp add: queued_def record_ipc_replied_def deliver_reply_def Let_def case_prod_beta)
  moreover obtain c2 where "get_task (sender m) ?k2 = Some c2" "state c2 = Runnable" "rax (ctx c2) = a" "blocked_on c2 = None"
    using c1 assms(6) cid by (simp add: record_ipc_replied_def deliver_reply_def Let_def case_prod_beta)
  moreover have "sender m \<in> set (run_queue (scheduler ?k2))"
    by (simp add: record_ipc_replied_def deliver_reply_def Let_def case_prod_beta enqueue_def add_task_def)
  moreover have "map_option state (get_task i ?k2) = map_option state (get_task i k)" if h: "i \<noteq> sender m" for i
  proof -
    have "map_option state (get_task i ?k2) = map_option state (get_task i ?d)"
      using record_frame(4) by (intro same_core_map) (simp_all add: sched_frame_def)
    also have "\<dots> = map_option state (get_task i ?k1)" using h by (simp add: deliver_reply_state)
    also have "\<dots> = map_option state (get_task i ?k0)" by (rule g1) simp_all
    finally show ?thesis by (cases "get_task i k") auto
  qed
  ultimately show ?thesis using r rep by blast
qed

definition demo_call :: Kernel where
  "demo_call = update_task 2 (\<lambda>t. t\<lparr> recv_queue := \<lparr> queue = [(new_request [7, 0, 0, 0])\<lparr> sender := 1 \<rparr>], max_size = 64 \<rparr> \<rparr>)
     (update_task 1 (\<lambda>t. t\<lparr> state := BlockedOnSend 2, blocked_on := Some 2 \<rparr>) (demo_kernel\<lparr> current_task_id := 2 \<rparr>))"

theorem receive_reply_resumes_caller_witness:
  "\<exists>k1 r k2 caller'. syscall_ipc_receive demo_call = Returns k1 r \<and> syscall_ipc_reply 9 0 k1 = Returns k2 0 \<and>
     get_task 1 k2 = Some caller' \<and> state caller' = Runnable \<and> rax (ctx caller') = 9 \<and> 1 \<in> set (run_queue (scheduler k2))"
  using receive_reply_resumes_caller[of "the (get_task 2 demo_call)" demo_call "(new_request [7, 0, 0, 0])\<lparr> sender := 1 \<rparr>" "[]" _ 9 0]
  by (auto simp: demo_call_def demo_get_task Task_new_def)

text \<open>A plain reply is accepted exactly when the request's sender is blocked on the replying task; a refused
  reply changes nothing.\<close>

theorem reply_exact:
  assumes "current_task k = Some cur"
  shows "\<exists>k' r. ipc_reply_to request p k = Returns k' r \<and>
    (r = Ok () \<longleftrightarrow> (\<exists>t. get_task (sender request) k = Some t \<and> state t = BlockedOnSend (task_id cur))) \<and>
    (r \<noteq> Ok () \<longrightarrow> r = Err EINVAL \<and> k' = k)"
  using assms by (auto simp: ipc_reply_to_def split: option.split)

theorem reply_exact_witness:
  "\<exists>k' r. ipc_reply_to ((new_request [7, 0, 0, 0])\<lparr> sender := 1 \<rparr>) [9, 0, 0, 0] demo_call = Returns k' r \<and> r = Ok ()"
  using reply_exact[of demo_call _ "(new_request [7, 0, 0, 0])\<lparr> sender := 1 \<rparr>" "[9, 0, 0, 0]"]
  by (simp add: demo_call_def current_task_def demo_get_task Task_new_def new_request_def)

text \<open>C37: a deferred reply is not tied to the task that received the request: any running task that presents the
  token of a waiting task resumes it with the reply, whatever task the waiter is blocked on.\<close>

theorem reply_token_from_any_task:
  assumes "current_task k = Some cur" "decode token = Some (pid, r)" "get_task pid k = Some t" "state t = WaitingForReply r"
    and "pid \<noteq> current_task_id k"
  shows "\<exists>k' t'. ipc_reply_with_token token p k = Returns k' (Ok ()) \<and> get_task pid k' = Some t' \<and> state t' = Runnable \<and>
    rax (ctx t') = p ! 0"
  using assms by (simp add: ipc_reply_with_token_def deliver_reply_def Let_def case_prod_beta)

definition demo_wait :: Kernel where
  "demo_wait = update_task 1 (\<lambda>t. t\<lparr> state := WaitingForReply 5, blocked_on := Some 3 \<rparr>) (demo_kernel\<lparr> current_task_id := 2 \<rparr>)"

theorem reply_token_from_any_task_witness:
  "\<exists>k' t'. blocked_on (the (get_task 1 demo_wait)) = Some 3 \<and> current_task_id demo_wait = 2 \<and>
     ipc_reply_with_token (CallerToken_new 1 5) [9, 0, 0, 0] demo_wait = Returns k' (Ok ()) \<and>
     get_task 1 k' = Some t' \<and> state t' = Runnable \<and> rax (ctx t') = 9"
  using reply_token_from_any_task[of demo_wait _ "CallerToken_new 1 5" 1 5 "the (get_task 1 demo_wait)" "[9, 0, 0, 0]"]
  by (simp add: demo_wait_def current_task_def demo_get_task decode_new mask_numeral)

text \<open>C23: task exit releases every waiter: after a task exits it is gone, every task that was blocked on it is runnable,
  queued, and has the error value in its return register, and every other task keeps its state.\<close>

theorem exit_releases_waiters:
  assumes "kernel_ok k" "exit_task k = Some k'" "i \<noteq> current_task_id k" "get_task i k = Some t"
  shows "get_task (current_task_id k) k' = None \<and>
    (\<exists>t'. get_task i k' = Some t' \<and> capabilities t' = capabilities t \<and> recv_queue t' = recv_queue t \<and>
       (if waits_on (current_task_id k) t
        then state t' = Runnable \<and> rax (ctx t') = 0xFFFFFFFFFFFFFFFF \<and> blocked_on t' = None \<and> i \<in> set (run_queue (scheduler k'))
        else t' = t))"
proof -
  let ?c = "current_task_id k"
  obtain ids k4 where k4: "revoke_all ids (exit_drained k) = Some k4" "k' = fst (remove_task ?c k4)"
    using exit_task_drained[OF assms(2)] by blast
  have "caps_ok (exit_drained k)" using exit_drained_ok(1)[OF assms(1)] by (simp add: kernel_ok_def)
  note r = revoke_all_steps(3,4)[OF k4(1) this]
  have g: "get_task j k' = (if j = ?c then None else get_task j (exit_drained k))" for j
    using r(1) k4(2) by (simp add: get_task_remove) (simp add: get_task_def)
  have q: "run_queue (scheduler k') = run_queue (scheduler (exit_drained k))" using r(2) k4(2) by (simp add: remove_task_def)
  have "get_task i (exit_drained k) = Some (if waits_on ?c t then woken t else t)"
    using assms(3,4) by (simp add: exit_drained_def unblock_get)
  moreover have "i \<in> set (run_queue (scheduler (exit_drained k)))" if w: "waits_on ?c t"
    using unblock_runs[of i "update_task ?c (\<lambda>t. t\<lparr> state := Exited \<rparr>) k" t ?c] assms(3,4) w by (simp add: exit_drained_def)
  ultimately show ?thesis using g q assms(3) by (simp add: woken_def)
qed

text \<open>The demonstration client exits while the server waits for it.\<close>

definition demo_exit :: Kernel where
  "demo_exit = update_task 2 (\<lambda>t. t\<lparr> state := BlockedOnSend 1, blocked_on := Some 1 \<rparr>) (demo_ready\<lparr> current_task_id := 1 \<rparr>)"

lemma demo_exit_ok: "kernel_ok demo_exit"
proof -
  let ?k = "demo_ready\<lparr> current_task_id := 1 \<rparr>"
  have "get_task i demo_exit = Some t \<Longrightarrow> task_id t = i \<and> queue (recv_queue t) = [] \<and> capabilities t = [] \<and> wait_ok demo_exit t" for i t
    by (auto simp: demo_exit_def demo_ready_simps demo_get_task wait_ok_def Task_new_def init_at_ptr_def split: if_splits)
  moreover have "bt_wf (task_table demo_exit)" "table_ok (cap_table demo_exit)"
    using demo_ready_ok by (simp_all add: demo_exit_def update_task_def bt.wf_modify kernel_ok_def tasks_ok_def caps_ok_def)
  ultimately show ?thesis by (simp add: kernel_ok_def tasks_ok_def caps_ok_def waiters_ok_def)
qed

lemma demo_exits: "\<exists>k'. exit_task demo_exit = Some k'"
  by (simp add: exit_task_def Let_def unblock_get demo_exit_def demo_ready_simps demo_get_task Task_new_def)

theorem exit_releases_waiters_witness:
  "\<exists>k' t'. exit_task demo_exit = Some k' \<and> get_task 1 k' = None \<and> get_task 2 k' = Some t' \<and> state t' = Runnable \<and>
     2 \<in> set (run_queue (scheduler k'))"
proof -
  obtain k' where e: "exit_task demo_exit = Some k'" using demo_exits by blast
  have g: "get_task 2 demo_exit = Some ((Task_new 0 2 0x400000)\<lparr> state := BlockedOnSend 1, blocked_on := Some 1 \<rparr>)"
    "current_task_id demo_exit = 1"
    by (simp_all add: demo_exit_def demo_ready_simps demo_get_task)
  show ?thesis using exit_releases_waiters[OF demo_exit_ok e _ g(1)] e by (auto simp: g(2) waits_on_def)
qed

text \<open>The run queue only grows: no system call, interrupt or exit removes an entry, so an exited task stays in the
  queue for ever and a task woken twice is queued twice.\<close>

theorem run_queue_only_grows:
  assumes "kernel_ok k0" "kernel_reach k0 k"
  shows "mset (run_queue (scheduler k0)) \<subseteq># mset (run_queue (scheduler k))"
  using reach_ok[OF assms(2,1)] by blast

theorem run_queue_only_grows_witness:
  "\<exists>k. exec Exit demo_exit = Some k \<and> get_task 1 k = None \<and> 1 \<in> set (run_queue (scheduler k))"
proof -
  obtain k where e: "exec Exit demo_exit = Some k" using demo_exits by auto
  then have "queued 1 k = None" using exit_queued[OF demo_exit_ok, of k 1] by (simp add: demo_exit_def)
  moreover have "mset (run_queue (scheduler demo_exit)) \<subseteq># mset (run_queue (scheduler k))"
    by (rule run_queue_only_grows[OF demo_exit_ok reach_step[OF reach_start e]])
  then have "set (run_queue (scheduler demo_exit)) \<subseteq> set (run_queue (scheduler k))" by (metis set_mset_mono set_mset_mset)
  then have "1 \<in> set (run_queue (scheduler k))" by (simp add: demo_exit_def demo_ready_simps)
  ultimately show ?thesis using e by (simp add: queued_def)
qed

end
