(* ===== verification/Firewall.thy ===== *)
theory Firewall
  imports Prelude
begin

text \<open>
  The packet filter in front of the network stack, kernel/src/net/firewall.rs:
  the rules on raw Ethernet frames, the tracker of unsolicited connection
  attempts with its temporary blocks, and the ring of dropped packets.  Frames
  are byte lists; an index outside the frame is a panic, the value \<open>None\<close>.
  The two locks are only tried, so whether another context holds them is part of
  the state.  The uptime is read up to three times in one call, \<open>now i\<close> is
  the value of the read number \<open>i\<close>.  Of the serial output only the lines of
  \<open>log_drop\<close> are kept, as the values they print.
\<close>

section \<open>Data\<close>

datatype FirewallAction = Allow | Drop

type_synonym ip4 = "u8 \<times> u8 \<times> u8 \<times> u8"

record SuspiciousPacket =
  sp_src_ip :: ip4
  sp_dst_port :: u16
  sp_protocol :: u8
  sp_tcp_flags :: u8
  sp_timestamp_ms :: u64
  sp_valid :: bool

definition SuspiciousPacket_EMPTY :: SuspiciousPacket where
  "SuspiciousPacket_EMPTY = \<lparr> sp_src_ip = (0, 0, 0, 0), sp_dst_port = 0, sp_protocol = 0,
     sp_tcp_flags = 0, sp_timestamp_ms = 0, sp_valid = False \<rparr>"

definition QUEUE_SIZE :: nat where "QUEUE_SIZE = 16"

record SuspiciousQueue =
  sq_entries :: "SuspiciousPacket list"
  sq_held :: bool
  sq_write_head :: usize
  sq_count :: u32

definition SuspiciousQueue_new :: SuspiciousQueue where
  "SuspiciousQueue_new = \<lparr> sq_entries = replicate QUEUE_SIZE SuspiciousPacket_EMPTY, sq_held = False,
     sq_write_head = 0, sq_count = 0 \<rparr>"

definition MAX_BLOCKLIST :: nat where "MAX_BLOCKLIST = 16"

definition BLOCK_DURATION_MS :: u64 where "BLOCK_DURATION_MS = 120000"

definition MAX_DROP_LOGS :: u32 where "MAX_DROP_LOGS = 32"

text \<open>One slot of the tracker: address, number of attempts, time of the last recorded one.\<close>

type_synonym block_slot = "ip4 \<times> u8 \<times> u64"

text \<open>The statics of the module; \<open>fw_tracked\<close> counts the slots in use.\<close>

record Firewall =
  fw_suspicious :: SuspiciousQueue
  fw_drops :: u32
  fw_allows :: u32
  fw_slots :: "block_slot list"
  fw_tracked :: nat
  fw_list_held :: bool
  fw_drop_log_count :: u32
  fw_drop_log :: "(ip4 \<times> u16 \<times> u16) list"

definition Firewall_boot :: Firewall where
  "Firewall_boot = \<lparr> fw_suspicious = SuspiciousQueue_new, fw_drops = 0, fw_allows = 0,
     fw_slots = replicate MAX_BLOCKLIST ((0, 0, 0, 0), 0, 0), fw_tracked = 0, fw_list_held = False,
     fw_drop_log_count = 0, fw_drop_log = [] \<rparr>"

definition ETHERTYPE_ARP :: u16 where "ETHERTYPE_ARP = 0x0806"
definition ETHERTYPE_IPV4 :: u16 where "ETHERTYPE_IPV4 = 0x0800"
definition PROTO_ICMP :: u8 where "PROTO_ICMP = 1"
definition PROTO_TCP :: u8 where "PROTO_TCP = 6"
definition PROTO_UDP :: u8 where "PROTO_UDP = 17"
definition TCP_SYN :: u8 where "TCP_SYN = 0x02"
definition TCP_ACK :: u8 where "TCP_ACK = 0x10"

section \<open>The ring of suspicious packets\<close>

definition suspicious_push :: "SuspiciousQueue \<Rightarrow> SuspiciousPacket \<Rightarrow> SuspiciousQueue" where
  "suspicious_push q pkt =
     (let idx = unat (sq_write_head q) mod QUEUE_SIZE;
          entries = (if sq_held q then sq_entries q else (sq_entries q)[idx := pkt])
      in q\<lparr> sq_entries := entries, sq_write_head := sq_write_head q + 1, sq_count := sq_count q + 1 \<rparr>)"

text \<open>The entries that \<open>recent\<close> copies into an output slice of length \<open>n\<close>.\<close>

definition suspicious_recent :: "SuspiciousQueue \<Rightarrow> nat \<Rightarrow> SuspiciousPacket list" where
  "suspicious_recent q out_len =
     (let head = sq_write_head q; n = min (min out_len QUEUE_SIZE) (unat head)
      in if sq_held q then []
         else map (\<lambda>i. sq_entries q ! (unat (head - 1 - of_nat i) mod QUEUE_SIZE)) [0..<n])"

section \<open>The tracker of connection attempts\<close>

definition block_expired :: "u64 \<Rightarrow> u64 \<Rightarrow> bool" where
  "block_expired now last_seen = (BLOCK_DURATION_MS \<le> saturating_sub now last_seen)"

definition is_blocked :: "Firewall \<Rightarrow> u64 \<Rightarrow> ip4 \<Rightarrow> bool" where
  "is_blocked fw now ip =
     (\<not> fw_list_held fw \<and>
      (\<exists>slot \<in> set (take (fw_tracked fw) (fw_slots fw)). case slot of (a, c, last_seen) \<Rightarrow>
         a = ip \<and> 3 \<le> c \<and> \<not> block_expired now last_seen))"

text \<open>The index of the first slot in use that has the address.\<close>

definition tracked_at :: "Firewall \<Rightarrow> ip4 \<Rightarrow> nat option" where
  "tracked_at fw ip = find (\<lambda>i. fst (fw_slots fw ! i) = ip) [0..<fw_tracked fw]"

text \<open>The search for a slot to evict: the lowest rank seen so far and its index.\<close>

definition victim_step :: "u64 \<Rightarrow> block_slot list \<Rightarrow> nat \<Rightarrow> u8 \<times> nat option \<Rightarrow> u8 \<times> nat option" where
  "victim_step now slots i acc =
     (case slots ! i of (_, c, last_seen) \<Rightarrow>
        (let is_expired_block = (3 \<le> c \<and> block_expired now last_seen)
         in if c < 3 \<or> is_expired_block then
              (let rank = (if is_expired_block then 0 else c)
               in if rank < fst acc then (rank, Some i) else acc)
            else acc))"

definition find_victim :: "u64 \<Rightarrow> block_slot list \<Rightarrow> nat option" where
  "find_victim now slots = snd (fold (victim_step now slots) [0..<MAX_BLOCKLIST] (- 1, None))"

definition record_syn_attempt :: "Firewall \<Rightarrow> u64 \<Rightarrow> ip4 \<Rightarrow> Firewall" where
  "record_syn_attempt fw now ip =
     (if fw_list_held fw then fw
      else case tracked_at fw ip of
        Some i \<Rightarrow>
          (case fw_slots fw ! i of (_, c, last_seen) \<Rightarrow>
             if 3 \<le> c \<and> block_expired now last_seen
             then fw\<lparr> fw_slots := (fw_slots fw)[i := (ip, 1, now)] \<rparr>
             else fw\<lparr> fw_slots := (fw_slots fw)[i := (ip, saturating_add c 1, now)] \<rparr>)
      | None \<Rightarrow>
          (if fw_tracked fw < MAX_BLOCKLIST
           then fw\<lparr> fw_slots := (fw_slots fw)[fw_tracked fw := (ip, 1, now)],
                    fw_tracked := fw_tracked fw + 1 \<rparr>
           else case find_victim now (fw_slots fw) of
             Some i \<Rightarrow> fw\<lparr> fw_slots := (fw_slots fw)[i := (ip, 1, now)] \<rparr>
           | None \<Rightarrow> fw))"

definition anomaly_stats :: "Firewall \<Rightarrow> u32 \<times> u32" where
  "anomaly_stats fw =
     (if fw_list_held fw then (0, 0)
      else fold (\<lambda>slot (blocked, attempts). case slot of (_, c, _) \<Rightarrow>
               (if 3 \<le> c then blocked + 1 else blocked, attempts + ucast c))
             (take (fw_tracked fw) (fw_slots fw)) (0, 0))"

definition log_drop :: "Firewall \<Rightarrow> ip4 \<Rightarrow> u16 \<Rightarrow> u16 \<Rightarrow> Firewall" where
  "log_drop fw src_ip src_port dst_port =
     (let count = fw_drop_log_count fw; fw1 = fw\<lparr> fw_drop_log_count := count + 1 \<rparr>
      in if MAX_DROP_LOGS \<le> count then fw1
         else fw1\<lparr> fw_drop_log := fw_drop_log fw1 @ [(src_ip, src_port, dst_port)] \<rparr>)"

section \<open>The filter\<close>

definition byte_at :: "u8 list \<Rightarrow> nat \<Rightarrow> u8 option" where
  "byte_at frame i = (if i < length frame then Some (frame ! i) else None)"

definition be16_at :: "u8 list \<Rightarrow> nat \<Rightarrow> u16 option" where
  "be16_at frame i =
     Option.bind (byte_at frame i) (\<lambda>hi. Option.bind (byte_at frame (i + 1)) (\<lambda>lo.
       Some (push_bit 8 (ucast hi) OR ucast lo)))"

definition ip4_at :: "u8 list \<Rightarrow> nat \<Rightarrow> ip4 option" where
  "ip4_at frame i =
     Option.bind (byte_at frame i) (\<lambda>a. Option.bind (byte_at frame (i + 1)) (\<lambda>b.
     Option.bind (byte_at frame (i + 2)) (\<lambda>c. Option.bind (byte_at frame (i + 3)) (\<lambda>d.
       Some (a, b, c, d)))))"

definition fw_allow :: "Firewall \<Rightarrow> (Firewall \<times> FirewallAction) option" where
  "fw_allow fw = Some (fw\<lparr> fw_allows := fw_allows fw + 1 \<rparr>, Allow)"

definition fw_count_drop :: "Firewall \<Rightarrow> (Firewall \<times> FirewallAction) option" where
  "fw_count_drop fw = Some (fw\<lparr> fw_drops := fw_drops fw + 1 \<rparr>, Drop)"

text \<open>Rule 5, the inspection of a TCP segment.\<close>

definition filter_tcp ::
  "Firewall \<Rightarrow> (nat \<Rightarrow> u64) \<Rightarrow> u8 list \<Rightarrow> nat \<Rightarrow> ip4 \<Rightarrow> u16 \<Rightarrow> u16
    \<Rightarrow> (Firewall \<times> FirewallAction) option" where
  "filter_tcp fw now frame transport_offset src_ip src_port dst_port =
     (if length frame < transport_offset + 14 then Some (fw, Drop)
      else Option.bind (byte_at frame (transport_offset + 13)) (\<lambda>tcp_flags.
        if tcp_flags AND TCP_SYN \<noteq> 0 \<and> tcp_flags AND TCP_ACK = 0 then
          (if dst_port = 2222 then fw_allow fw
           else
             (let fw1 = log_drop (record_syn_attempt fw (now 1) src_ip) src_ip src_port dst_port;
                  pkt = \<lparr> sp_src_ip = src_ip, sp_dst_port = dst_port, sp_protocol = PROTO_TCP,
                          sp_tcp_flags = tcp_flags, sp_timestamp_ms = now 2, sp_valid = True \<rparr>
              in fw_count_drop (fw1\<lparr> fw_suspicious := suspicious_push (fw_suspicious fw1) pkt \<rparr>)))
        else fw_allow fw))"

definition filter_packet ::
  "Firewall \<Rightarrow> (nat \<Rightarrow> u64) \<Rightarrow> u8 list \<Rightarrow> (Firewall \<times> FirewallAction) option" where
  "filter_packet fw now frame =
     (if length frame < 14 then Some (fw, Drop)
      else Option.bind (be16_at frame 12) (\<lambda>ethertype.
        if ethertype = ETHERTYPE_ARP then fw_allow fw
        else if ethertype \<noteq> ETHERTYPE_IPV4 then fw_allow fw
        else if length frame < 34 then Some (fw, Drop)
        else Option.bind (byte_at frame 14) (\<lambda>b14.
          let ihl = unat (b14 AND 0x0F) in
          if ihl < 5 then Some (fw, Drop)
          else Option.bind (byte_at frame 23) (\<lambda>proto. Option.bind (ip4_at frame 26) (\<lambda>src_ip.
            if proto = PROTO_ICMP then fw_allow fw
            else
              let transport_offset = 14 + ihl * 4 in
              if length frame < transport_offset + 4 then Some (fw, Drop)
              else Option.bind (be16_at frame transport_offset) (\<lambda>src_port.
                Option.bind (be16_at frame (transport_offset + 2)) (\<lambda>dst_port.
                  if proto = PROTO_UDP then fw_allow fw
                  else if is_blocked fw (now 0) src_ip then fw_count_drop fw
                  else if proto = PROTO_TCP then filter_tcp fw now frame transport_offset src_ip src_port dst_port
                  else fw_allow fw)))))))"

section \<open>The policy\<close>

text \<open>What the rules say of the bytes of a frame, in terms of the fields of its headers.\<close>

definition eth_type :: "u8 list \<Rightarrow> u16" where
  "eth_type f = push_bit 8 (ucast (f ! 12)) OR ucast (f ! 13)"

definition ip_source :: "u8 list \<Rightarrow> ip4" where
  "ip_source f = (f ! 26, f ! 27, f ! 28, f ! 29)"

definition transport :: "u8 list \<Rightarrow> nat" where
  "transport f = 14 + unat (f ! 14 AND 0x0F) * 4"

definition dest_port :: "u8 list \<Rightarrow> u16" where
  "dest_port f = push_bit 8 (ucast (f ! (transport f + 2))) OR ucast (f ! (transport f + 3))"

text \<open>An IPv4 frame whose headers are complete, up to the flags for TCP.\<close>

definition ip_complete :: "u8 list \<Rightarrow> bool" where
  "ip_complete f \<longleftrightarrow> 34 \<le> length f \<and> 34 \<le> transport f \<and>
     (f ! 23 = PROTO_ICMP \<or> transport f + (if f ! 23 = PROTO_TCP then 14 else 4) \<le> length f)"

definition unsolicited :: "u8 list \<Rightarrow> bool" where
  "unsolicited f \<longleftrightarrow> f ! 23 = PROTO_TCP \<and> bit (f ! (transport f + 13)) 1 \<and> \<not> bit (f ! (transport f + 13)) 4"

definition admitted :: "Firewall \<Rightarrow> u64 \<Rightarrow> u8 list \<Rightarrow> bool" where
  "admitted fw now f \<longleftrightarrow> 14 \<le> length f \<and>
     (eth_type f = ETHERTYPE_IPV4 \<longrightarrow> ip_complete f \<and>
        (f ! 23 \<notin> {PROTO_ICMP, PROTO_UDP} \<longrightarrow>
           \<not> is_blocked fw now (ip_source f) \<and> (unsolicited f \<longrightarrow> dest_port f = 2222)))"

lemma and_single_bit: "(w :: 'a::len word) AND 2 ^ n = 0 \<longleftrightarrow> \<not> bit w n" if "n < LENGTH('a)"
proof -
  have "w AND 2 ^ n = 0 \<longleftrightarrow> (\<forall>i < LENGTH('a). \<not> (bit w i \<and> i = n))"
    by (auto simp: bit_eq_iff bit_simps)
  then show ?thesis using that by auto
qed

lemma tcp_flag_bits: "f AND TCP_SYN \<noteq> 0 \<longleftrightarrow> bit f 1" "f AND TCP_ACK = 0 \<longleftrightarrow> \<not> bit f 4"
  using and_single_bit[of 1 f] and_single_bit[of 4 f] by (simp_all add: TCP_SYN_def TCP_ACK_def)

lemmas frame_reads = byte_at_def be16_at_def ip4_at_def eth_type_def ip_source_def dest_port_def

text \<open>The effect of refusing a connection attempt: it is recorded, logged and counted.\<close>

definition refuse_attempt :: "Firewall \<Rightarrow> (nat \<Rightarrow> u64) \<Rightarrow> u8 list \<Rightarrow> Firewall" where
  "refuse_attempt fw now f =
     (let t = transport f;
          fw1 = log_drop (record_syn_attempt fw (now 1) (ip_source f)) (ip_source f)
                  (push_bit 8 (ucast (f ! t)) OR ucast (f ! (t + 1))) (dest_port f);
          pkt = \<lparr> sp_src_ip = ip_source f, sp_dst_port = dest_port f, sp_protocol = PROTO_TCP,
                  sp_tcp_flags = f ! (t + 13), sp_timestamp_ms = now 2, sp_valid = True \<rparr>;
          fw2 = fw1\<lparr> fw_suspicious := suspicious_push (fw_suspicious fw1) pkt \<rparr>
      in fw2\<lparr> fw_drops := fw_drops fw2 + 1 \<rparr>)"

definition has_ports :: "u8 list \<Rightarrow> bool" where
  "has_ports f \<longleftrightarrow> 34 \<le> length f \<and> 34 \<le> transport f \<and> transport f + 4 \<le> length f \<and>
     eth_type f = ETHERTYPE_IPV4 \<and> f ! 23 \<notin> {PROTO_ICMP, PROTO_UDP}"

lemma transport_ge: "34 \<le> transport f \<longleftrightarrow> 5 \<le> unat (f ! 14 AND 0x0F)"
  by (simp add: transport_def)

lemma protos [simp]: "PROTO_TCP \<noteq> PROTO_UDP" "PROTO_UDP \<noteq> PROTO_TCP" "PROTO_TCP \<noteq> PROTO_ICMP"
    "PROTO_ICMP \<noteq> PROTO_TCP" "PROTO_UDP \<noteq> PROTO_ICMP" "PROTO_ICMP \<noteq> PROTO_UDP"
  by (simp_all add: PROTO_TCP_def PROTO_UDP_def PROTO_ICMP_def)

lemma filter_tcp_cases:
  assumes "transport f + 4 \<le> length f" "f ! 23 = PROTO_TCP"
  shows "filter_tcp fw now f (transport f) (ip_source f)
           (push_bit 8 (ucast (f ! transport f)) OR ucast (f ! Suc (transport f))) (dest_port f) =
     (if length f < transport f + 14 then Some (fw, Drop)
      else if unsolicited f \<and> dest_port f \<noteq> 2222 then Some (refuse_attempt fw now f, Drop)
      else fw_allow fw)"
  using assms
  by (simp add: filter_tcp_def byte_at_def tcp_flag_bits unsolicited_def refuse_attempt_def fw_count_drop_def Let_def)

text \<open>The filter as a decision on those fields.\<close>

lemma filter_packet_short: "length f < 14 \<Longrightarrow> filter_packet fw now f = Some (fw, Drop)"
  by (simp add: filter_packet_def)

lemma filter_packet_other:
  assumes "14 \<le> length f" "eth_type f \<noteq> ETHERTYPE_IPV4"
  shows "filter_packet fw now f = fw_allow fw"
  using assms by (simp add: filter_packet_def byte_at_def be16_at_def eth_type_def)

lemma filter_packet_ipv4:
  assumes "14 \<le> length f" "eth_type f = ETHERTYPE_IPV4"
  shows "filter_packet fw now f =
     (if length f < 34 \<or> transport f < 34 then Some (fw, Drop)
      else if f ! 23 = PROTO_ICMP then fw_allow fw
      else if length f < transport f + 4 then Some (fw, Drop)
      else if f ! 23 = PROTO_UDP then fw_allow fw
      else if is_blocked fw (now 0) (ip_source f) then fw_count_drop fw
      else if f ! 23 = PROTO_TCP \<and> length f < transport f + 14 then Some (fw, Drop)
      else if unsolicited f \<and> dest_port f \<noteq> 2222 then Some (refuse_attempt fw now f, Drop)
      else fw_allow fw)"
proof -
  have e: "push_bit 8 (ucast (f ! 12)) OR ucast (f ! 13) = ETHERTYPE_IPV4" "ETHERTYPE_IPV4 \<noteq> ETHERTYPE_ARP"
    using assms(2) by (simp_all add: eth_type_def ETHERTYPE_IPV4_def ETHERTYPE_ARP_def)
  have t: "transport f < 34 \<longleftrightarrow> unat (f ! 14 AND 0x0F) < 5" by (simp add: transport_def)
  have reads: "byte_at f i = (if i < length f then Some (f ! i) else None)"
    "be16_at f i = (if i + 1 < length f then Some (push_bit 8 (ucast (f ! i)) OR ucast (f ! Suc i)) else None)"
    "34 \<le> length f \<Longrightarrow> ip4_at f 26 = Some (ip_source f)"
    "transport f + 4 \<le> length f \<Longrightarrow> push_bit 8 (ucast (f ! Suc (Suc (transport f)))) OR ucast (f ! Suc (Suc (Suc (transport f)))) = dest_port f" for i
    by (simp_all add: byte_at_def be16_at_def ip4_at_def ip_source_def dest_port_def numeral_3_eq_3)
  have u: "14 + unat (f ! 14 AND 0x0F) * 4 = transport f" by (simp add: transport_def)
  consider "length f < 34 \<or> transport f < 34" | "34 \<le> length f" "\<not> transport f < 34" by linarith
  then show ?thesis
  proof cases
    case 1
    then show ?thesis using assms(1) e by (auto simp: filter_packet_def reads t)
  next
    case 2
    have "filter_packet fw now f =
        (if f ! 23 = PROTO_ICMP then fw_allow fw
         else if length f < transport f + 4 then Some (fw, Drop)
         else if f ! 23 = PROTO_UDP then fw_allow fw
         else if is_blocked fw (now 0) (ip_source f) then fw_count_drop fw
         else if f ! 23 = PROTO_TCP then
           filter_tcp fw now f (transport f) (ip_source f)
             (push_bit 8 (ucast (f ! transport f)) OR ucast (f ! Suc (transport f))) (dest_port f)
         else fw_allow fw)"
      using assms(1) e 2 by (simp add: filter_packet_def Let_def reads t u del: One_nat_def)
    then show ?thesis using 2 by (auto simp: filter_tcp_cases unsolicited_def)
  qed
qed

lemma filter_packet_cases:
  "filter_packet fw now f =
     (if admitted fw (now 0) f then fw_allow fw
      else if has_ports f \<and> is_blocked fw (now 0) (ip_source f) then fw_count_drop fw
      else if 14 \<le> length f \<and> ip_complete f then Some (refuse_attempt fw now f, Drop)
      else Some (fw, Drop))"
proof -
  consider "length f < 14" | "14 \<le> length f" "eth_type f \<noteq> ETHERTYPE_IPV4"
    | "14 \<le> length f" "eth_type f = ETHERTYPE_IPV4" by linarith
  then show ?thesis
  proof cases
    case 3
    then show ?thesis
      by (auto simp: filter_packet_ipv4 admitted_def has_ports_def ip_complete_def unsolicited_def)
  qed (auto simp: filter_packet_short filter_packet_other admitted_def has_ports_def)
qed

section \<open>The ring holds the latest packets\<close>

text \<open>The ring after the packets \<open>ps\<close> have been pushed.\<close>

definition ring_holds :: "SuspiciousPacket list \<Rightarrow> SuspiciousQueue \<Rightarrow> bool" where
  "ring_holds ps q \<longleftrightarrow> \<not> sq_held q \<and> length (sq_entries q) = QUEUE_SIZE \<and> unat (sq_write_head q) = length ps \<and>
     (\<forall>j < length ps. length ps \<le> j + QUEUE_SIZE \<longrightarrow> sq_entries q ! (j mod QUEUE_SIZE) = ps ! j)"

lemma same_slot: "(i :: nat) < j \<Longrightarrow> j < i + n \<Longrightarrow> i mod n \<noteq> j mod n"
  using mod_eq_nat2E[of i n j] by fastforce

lemma ring_holds_push:
  assumes "ring_holds ps q" "length ps + 1 < 2 ^ 64"
  shows "ring_holds (ps @ [p]) (suspicious_push q p)"
proof -
  have h: "unat (sq_write_head q) = length ps" "length (sq_entries q) = QUEUE_SIZE" "\<not> sq_held q"
    and e: "\<And>j. j < length ps \<Longrightarrow> length ps \<le> j + QUEUE_SIZE \<Longrightarrow> sq_entries q ! (j mod QUEUE_SIZE) = ps ! j"
    using assms(1) by (auto simp: ring_holds_def)
  have "unat (sq_write_head q + 1) = length ps + 1" using assms(2) h(1) by (simp add: unat_word_ariths)
  moreover have "(sq_entries q)[length ps mod QUEUE_SIZE := p] ! (j mod QUEUE_SIZE) = (ps @ [p]) ! j"
    if "j < length ps + 1" "length ps + 1 \<le> j + QUEUE_SIZE" for j
  proof (cases "j = length ps")
    case True
    then show ?thesis using h(2) by (simp add: QUEUE_SIZE_def)
  next
    case False
    then have "j mod QUEUE_SIZE \<noteq> length ps mod QUEUE_SIZE" using that by (intro same_slot) auto
    then show ?thesis using e[of j] that False by (simp add: nth_append)
  qed
  ultimately show ?thesis using h by (simp add: ring_holds_def suspicious_push_def)
qed

lemma ring_holds_new: "ring_holds [] SuspiciousQueue_new"
  by (simp add: ring_holds_def SuspiciousQueue_new_def)

lemma ring_holds_pushes:
  "length ps < 2 ^ 64 \<Longrightarrow> ring_holds ps (foldl suspicious_push SuspiciousQueue_new ps)"
  by (induction ps rule: rev_induct) (simp_all add: ring_holds_new ring_holds_push)

text \<open>Reading the ring yields the latest packets, the newest first.\<close>

lemma recent_latest:
  assumes "length ps < 2 ^ 64"
  shows "suspicious_recent (foldl suspicious_push SuspiciousQueue_new ps) n = take (min n QUEUE_SIZE) (rev ps)"
proof -
  let ?q = "foldl suspicious_push SuspiciousQueue_new ps" and ?n = "min (min n QUEUE_SIZE) (length ps)"
  have h: "unat (sq_write_head ?q) = length ps" "\<not> sq_held ?q"
    and e: "\<And>j. j < length ps \<Longrightarrow> length ps \<le> j + QUEUE_SIZE \<Longrightarrow> sq_entries ?q ! (j mod QUEUE_SIZE) = ps ! j"
    using ring_holds_pushes[OF assms] by (auto simp: ring_holds_def)
  have "sq_entries ?q ! (unat (sq_write_head ?q - 1 - of_nat i) mod QUEUE_SIZE) = rev ps ! i" if "i < ?n" for i
  proof -
    have "of_nat (Suc i) \<le> sq_write_head ?q"
      using that h(1) assms by (simp add: word_le_nat_alt unat_of_nat take_bit_nat_eq_self del: of_nat_Suc)
    then have "unat (sq_write_head ?q - of_nat (Suc i)) = length ps - Suc i"
      using that h(1) assms by (simp add: unat_sub unat_of_nat take_bit_nat_eq_self del: of_nat_Suc)
    moreover have "sq_write_head ?q - 1 - of_nat i = sq_write_head ?q - of_nat (Suc i)" by simp
    ultimately have "unat (sq_write_head ?q - 1 - of_nat i) = length ps - Suc i" by (simp only:)
    moreover have "sq_entries ?q ! ((length ps - Suc i) mod QUEUE_SIZE) = ps ! (length ps - Suc i)"
      using that by (intro e) auto
    ultimately show ?thesis using that by (simp add: rev_nth)
  qed
  then have "suspicious_recent ?q n = map ((!) (rev ps)) [0..<?n]"
    using h by (simp add: suspicious_recent_def)
  also have "\<dots> = take (min n QUEUE_SIZE) (rev ps)" by (rule nth_equalityI) auto
  finally show ?thesis .
qed

section \<open>The tracker as a map\<close>

text \<open>What the tracker knows of each address: its attempts and the time of the last recorded one.\<close>

definition seen :: "Firewall \<Rightarrow> ip4 \<Rightarrow> (u8 \<times> u64) option" where
  "seen fw = map_of (take (fw_tracked fw) (fw_slots fw))"

definition fw_ok :: "Firewall \<Rightarrow> bool" where
  "fw_ok fw \<longleftrightarrow> length (fw_slots fw) = MAX_BLOCKLIST \<and> fw_tracked fw \<le> MAX_BLOCKLIST \<and>
     distinct (map fst (take (fw_tracked fw) (fw_slots fw)))"

definition block_active :: "u64 \<Rightarrow> u8 \<times> u64 \<Rightarrow> bool" where
  "block_active now e \<longleftrightarrow> 3 \<le> fst e \<and> \<not> block_expired now (snd e)"

lemma map_of_update:
  assumes "distinct (map fst xs)" "i < length xs" "k = fst (xs ! i) \<or> k \<notin> fst ` set xs"
  shows "map_of (xs[i := (k, v)]) = (map_of xs)(fst (xs ! i) := None, k \<mapsto> v)"
  using assms
proof (induction xs arbitrary: i)
  case (Cons x xs)
  obtain a b where x: "x = (a, b)" by force
  show ?case
  proof (cases i)
    case 0
    have "map_of xs a = None" using Cons.prems x by (simp add: map_of_eq_None_iff)
    then show ?thesis using 0 x by (auto simp: fun_eq_iff)
  next
    case (Suc j)
    then have "fst (xs ! j) \<noteq> a" using Cons.prems x by (metis distinct.simps(2) fst_conv image_eqI
        length_Cons list.simps(9) list.set_map nth_mem not_less_eq not_less_less_Suc_eq)
    moreover have "k \<noteq> a" using Cons.prems Suc x calculation by auto
    ultimately show ?thesis using Cons Suc x by (auto simp: fun_eq_iff)
  qed
qed simp

lemma map_of_snoc: "k \<notin> fst ` set xs \<Longrightarrow> map_of (xs @ [(k, v)]) = (map_of xs)(k \<mapsto> v)"
proof -
  assume "k \<notin> fst ` set xs"
  then have "[k \<mapsto> v] ++ map_of xs = map_of xs ++ [k \<mapsto> v]"
    by (intro map_add_comm) (simp add: dom_map_of_conv_image_fst)
  then show ?thesis by simp
qed

lemma distinct_keys_update:
  assumes "distinct (map fst xs)" "k = fst (xs ! i) \<or> k \<notin> fst ` set xs"
  shows "distinct (map fst (xs[i := (k, v)]))"
proof (cases "k = fst (xs ! i)")
  case True
  then show ?thesis using assms(1) by (metis list_update_id map_update fst_conv)
next
  case False
  then show ?thesis using assms by (simp add: map_update distinct_list_update)
qed

lemma tracked_at_Some:
  assumes "tracked_at fw ip = Some i" "fw_ok fw"
  shows "i < length (take (fw_tracked fw) (fw_slots fw))" "fst (take (fw_tracked fw) (fw_slots fw) ! i) = ip"
    "fw_slots fw ! i = take (fw_tracked fw) (fw_slots fw) ! i" "seen fw ip = Some (snd (fw_slots fw ! i))"
proof -
  let ?xs = "take (fw_tracked fw) (fw_slots fw)"
  from assms show i: "i < length ?xs" "fst (?xs ! i) = ip" "fw_slots fw ! i = ?xs ! i"
    by (auto simp: tracked_at_def find_Some_iff fw_ok_def)
  have "(ip, snd (?xs ! i)) \<in> set ?xs" using i by (metis nth_mem prod.collapse)
  then show "seen fw ip = Some (snd (fw_slots fw ! i))"
    using assms(2) i(3) by (simp add: seen_def fw_ok_def)
qed

lemma tracked_at_None:
  assumes "tracked_at fw ip = None" "fw_ok fw"
  shows "ip \<notin> fst ` set (take (fw_tracked fw) (fw_slots fw))" "seen fw ip = None"
proof -
  show "ip \<notin> fst ` set (take (fw_tracked fw) (fw_slots fw))"
    using assms by (force simp: tracked_at_def find_None_iff fw_ok_def in_set_conv_nth)
  then show "seen fw ip = None" by (simp add: seen_def map_of_eq_None_iff)
qed

lemma seen_None: "fw_ok fw \<Longrightarrow> seen fw ip = None \<longleftrightarrow> tracked_at fw ip = None"
  using tracked_at_Some(4) tracked_at_None(2) by (metis option.distinct(1) option.exhaust)

lemma is_blocked_iff:
  assumes "fw_ok fw"
  shows "is_blocked fw now ip \<longleftrightarrow> \<not> fw_list_held fw \<and> (\<exists>e. seen fw ip = Some e \<and> block_active now e)"
proof -
  have "seen fw ip = Some e \<longleftrightarrow> (ip, e) \<in> set (take (fw_tracked fw) (fw_slots fw))" for e
    using assms unfolding seen_def fw_ok_def by (simp add: map_of_eq_Some_iff)
  then show ?thesis unfolding is_blocked_def block_active_def by auto
qed

text \<open>A slot that may be given to another address.\<close>

definition evictable :: "u64 \<Rightarrow> block_slot \<Rightarrow> bool" where
  "evictable now slot \<longleftrightarrow> \<not> block_active now (snd slot)"

lemma evictable_iff: "evictable now (a, c, l) \<longleftrightarrow> c < 3 \<or> 3 \<le> c \<and> block_expired now l"
  by (auto simp: evictable_def block_active_def)

lemma victim_step_invariant:
  assumes "\<forall>j. snd acc = Some j \<longrightarrow> j < n \<and> evictable now (slots ! j)" "i < n"
  shows "\<forall>j. snd (victim_step now slots i acc) = Some j \<longrightarrow> j < n \<and> evictable now (slots ! j)"
  using assms by (auto simp: victim_step_def Let_def evictable_iff split: prod.splits)

lemma find_victim_evictable:
  assumes "find_victim now slots = Some i"
  shows "i < MAX_BLOCKLIST \<and> evictable now (slots ! i)"
proof -
  have "\<forall>j. snd (fold (victim_step now slots) [0..<MAX_BLOCKLIST] (- 1, None)) = Some j \<longrightarrow>
      j < MAX_BLOCKLIST \<and> evictable now (slots ! j)"
    by (rule fold_invariant[where Q = "\<lambda>i. i < MAX_BLOCKLIST"])
      (simp, simp, rule victim_step_invariant)
  then show ?thesis using assms unfolding find_victim_def by blast
qed

text \<open>Recording an attempt on the map.\<close>

lemma record_tracked:
  assumes "fw_ok fw" "\<not> fw_list_held fw" "seen fw ip = Some (c, l)"
  shows "seen (record_syn_attempt fw now ip) = (seen fw)(ip \<mapsto>
      (if 3 \<le> c \<and> block_expired now l then 1 else saturating_add c 1, now))"
    "fw_ok (record_syn_attempt fw now ip)"
proof -
  obtain i where i: "tracked_at fw ip = Some i"
    using tracked_at_None(2)[OF _ assms(1)] assms(3) by fastforce
  note t = tracked_at_Some[OF i assms(1)]
  let ?n = "if 3 \<le> c \<and> block_expired now l then 1 else saturating_add c 1"
  obtain a where a: "fw_slots fw ! i = (a, c, l)" using t(4) assms(3) by (metis option.inject prod.collapse)
  have r: "record_syn_attempt fw now ip = fw\<lparr> fw_slots := (fw_slots fw)[i := (ip, ?n, now)] \<rparr>"
    using assms(2) i a by (simp add: record_syn_attempt_def)
  show "seen (record_syn_attempt fw now ip) = (seen fw)(ip \<mapsto> (?n, now))"
    unfolding r using map_of_update[OF _ t(1), of ip "(?n, now)"] t(2) assms(1)
    by (simp add: seen_def take_update_swap fw_ok_def)
  show "fw_ok (record_syn_attempt fw now ip)"
    unfolding r using assms(1) t(2) by (simp add: fw_ok_def take_update_swap distinct_keys_update)
qed

lemma record_new:
  assumes "fw_ok fw" "\<not> fw_list_held fw" "seen fw ip = None" "fw_tracked fw < MAX_BLOCKLIST"
  shows "seen (record_syn_attempt fw now ip) = (seen fw)(ip \<mapsto> (1, now))"
    "fw_ok (record_syn_attempt fw now ip)"
proof -
  have i: "tracked_at fw ip = None" using assms(3) by (simp only: seen_None[OF assms(1)])
  note t = tracked_at_None(1)[OF i assms(1)]
  have r: "record_syn_attempt fw now ip =
      fw\<lparr> fw_slots := (fw_slots fw)[fw_tracked fw := (ip, 1, now)], fw_tracked := fw_tracked fw + 1 \<rparr>"
    using assms(2,4) i by (simp add: record_syn_attempt_def)
  have "take (fw_tracked fw + 1) ((fw_slots fw)[fw_tracked fw := (ip, 1, now)]) =
      take (fw_tracked fw) (fw_slots fw) @ [(ip, 1, now)]"
    using assms(1,4) by (simp add: fw_ok_def take_Suc_conv_app_nth)
  then show "seen (record_syn_attempt fw now ip) = (seen fw)(ip \<mapsto> (1, now))"
    "fw_ok (record_syn_attempt fw now ip)"
    unfolding r using assms(1,4) t map_of_snoc[OF t] by (simp_all add: seen_def fw_ok_def)
qed

lemma record_full:
  assumes "fw_ok fw" "\<not> fw_list_held fw" "seen fw ip = None" "\<not> fw_tracked fw < MAX_BLOCKLIST"
  shows "(find_victim now (fw_slots fw) = None \<and> record_syn_attempt fw now ip = fw) \<or>
    (\<exists>a e. seen fw a = Some e \<and> \<not> block_active now e \<and> fw_ok (record_syn_attempt fw now ip) \<and>
       seen (record_syn_attempt fw now ip) = (seen fw)(a := None, ip \<mapsto> (1, now)))"
proof (cases "find_victim now (fw_slots fw)")
  case None
  moreover have "tracked_at fw ip = None" using assms(3) by (simp only: seen_None[OF assms(1)])
  ultimately show ?thesis using assms(2,4) by (simp add: record_syn_attempt_def)
next
  case (Some i)
  have n: "tracked_at fw ip = None" using assms(3) by (simp only: seen_None[OF assms(1)])
  have k: "take (fw_tracked fw) (fw_slots fw) = fw_slots fw" "length (fw_slots fw) = MAX_BLOCKLIST"
    "distinct (map fst (fw_slots fw))"
    using assms(1,4) by (auto simp: fw_ok_def)
  note v = find_victim_evictable[OF Some] and t = tracked_at_None(1)[OF n assms(1)]
  have r: "record_syn_attempt fw now ip = fw\<lparr> fw_slots := (fw_slots fw)[i := (ip, 1, now)] \<rparr>"
    using assms(2,4) n Some by (simp add: record_syn_attempt_def)
  have "seen fw (fst (fw_slots fw ! i)) = Some (snd (fw_slots fw ! i))"
    using v k by (simp add: seen_def)
  moreover have "seen (record_syn_attempt fw now ip) =
      (seen fw)(fst (fw_slots fw ! i) := None, ip \<mapsto> (1, now))"
    unfolding r using map_of_update[OF k(3), of i ip "(1, now)"] v k t
    by (simp add: seen_def take_update_swap)
  moreover have "fw_ok (record_syn_attempt fw now ip)"
    unfolding r using assms(1) k t by (simp add: fw_ok_def take_update_swap distinct_keys_update)
  ultimately show ?thesis using v unfolding evictable_def by blast
qed

lemma record_held: "fw_list_held fw \<Longrightarrow> record_syn_attempt fw now ip = fw"
  by (simp add: record_syn_attempt_def)

section \<open>Sequences of frames\<close>

text \<open>One call of the filter: whether another context holds the tracker's lock, the clock, the frame.\<close>

type_synonym fw_event = "bool \<times> (nat \<Rightarrow> u64) \<times> u8 list"

definition fw_call :: "fw_event \<Rightarrow> Firewall \<Rightarrow> Firewall" where
  "fw_call ev fw =
     (case ev of (held, now, f) \<Rightarrow>
        (case filter_packet (fw\<lparr> fw_list_held := held \<rparr>) now f of Some (fw', _) \<Rightarrow> fw' | None \<Rightarrow> fw))"

definition fw_run :: "fw_event list \<Rightarrow> Firewall \<Rightarrow> Firewall" where
  "fw_run evs fw = fold fw_call evs fw"

lemma tracker_fields [simp]:
  "seen (fw\<lparr> fw_list_held := h \<rparr>) = seen fw" "fw_ok (fw\<lparr> fw_list_held := h \<rparr>) = fw_ok fw"
  "seen (fw\<lparr> fw_drops := d \<rparr>) = seen fw" "fw_ok (fw\<lparr> fw_drops := d \<rparr>) = fw_ok fw"
  "seen (fw\<lparr> fw_allows := d \<rparr>) = seen fw" "fw_ok (fw\<lparr> fw_allows := d \<rparr>) = fw_ok fw"
  "seen (fw\<lparr> fw_suspicious := q \<rparr>) = seen fw" "fw_ok (fw\<lparr> fw_suspicious := q \<rparr>) = fw_ok fw"
  "seen (log_drop fw a b c) = seen fw" "fw_ok (log_drop fw a b c) = fw_ok fw"
  "fw_list_held (log_drop fw a b c) = fw_list_held fw"
  by (simp_all add: seen_def fw_ok_def log_drop_def Let_def)

lemma refuse_attempt_tracker [simp]:
  "seen (refuse_attempt fw now f) = seen (record_syn_attempt fw (now 1) (ip_source f))"
  "fw_ok (refuse_attempt fw now f) = fw_ok (record_syn_attempt fw (now 1) (ip_source f))"
  by (simp_all add: refuse_attempt_def Let_def)

lemma block_expired_iff: "block_expired now l \<longleftrightarrow> unat l + 120000 \<le> unat now"
  by (auto simp: block_expired_def BLOCK_DURATION_MS_def word_le_nat_alt unat_saturating_sub)

lemma block_active_earlier: "block_active t e \<Longrightarrow> now \<le> t \<Longrightarrow> block_active now e"
  by (auto simp: block_active_def block_expired_iff word_le_nat_alt)

lemma refused_has_ports: "\<not> admitted fw t f \<Longrightarrow> 14 \<le> length f \<Longrightarrow> ip_complete f \<Longrightarrow> has_ports f"
  by (auto simp: admitted_def ip_complete_def has_ports_def split: if_splits)

lemma fw_call_cases:
  assumes "fw_call (held, now, f) fw = fw'"
  obtains (unrecorded) "seen fw' = seen fw" "fw_ok fw' = fw_ok fw"
  | (recorded) "fw' = refuse_attempt (fw\<lparr> fw_list_held := held \<rparr>) now f"
      "\<not> is_blocked (fw\<lparr> fw_list_held := held \<rparr>) (now 0) (ip_source f)"
proof -
  let ?fw = "fw\<lparr> fw_list_held := held \<rparr>"
  show ?thesis
  proof (cases "\<not> admitted ?fw (now 0) f \<and> \<not> (has_ports f \<and> is_blocked ?fw (now 0) (ip_source f)) \<and>
      14 \<le> length f \<and> ip_complete f")
    case True
    then have "filter_packet ?fw now f = Some (refuse_attempt ?fw now f, Drop)"
      unfolding filter_packet_cases by meson
    then have "fw' = refuse_attempt ?fw now f" using assms by (simp add: fw_call_def)
    with True show ?thesis using recorded refused_has_ports by blast
  next
    case False
    then have "fw' \<in> {?fw, ?fw\<lparr> fw_allows := fw_allows ?fw + 1 \<rparr>, ?fw\<lparr> fw_drops := fw_drops ?fw + 1 \<rparr>}"
      using assms by (auto simp: fw_call_def filter_packet_cases fw_allow_def fw_count_drop_def split: if_splits)
    then show ?thesis using unrecorded by auto
  qed
qed

lemma record_ok: "fw_ok fw \<Longrightarrow> fw_ok (record_syn_attempt fw now ip)"
proof (cases "fw_list_held fw")
  case False
  assume ok: "fw_ok fw"
  show ?thesis
  proof (cases "seen fw ip")
    case None
    show ?thesis
    proof (cases "fw_tracked fw < MAX_BLOCKLIST")
      case True
      then show ?thesis using record_new(2)[OF ok False None] by blast
    next
      case full: False
      then show ?thesis using record_full[OF ok False None full, of now] ok by auto
    qed
  next
    case (Some e)
    then show ?thesis using record_tracked(2)[OF ok False] by (cases e) blast
  qed
qed (simp add: record_held)

lemma record_keeps_active:
  assumes "fw_ok fw" "seen fw ip = Some e" "block_active t e" "now \<le> t" "ip' \<noteq> ip"
  shows "seen (record_syn_attempt fw now ip') ip = Some e"
proof (cases "fw_list_held fw")
  case False
  have active: "block_active now e" using assms(3,4) by (rule block_active_earlier)
  show ?thesis
  proof (cases "seen fw ip'")
    case None
    show ?thesis
    proof (cases "fw_tracked fw < MAX_BLOCKLIST")
      case True
      then show ?thesis using record_new(1)[OF assms(1) False None] assms(2,5) by simp
    next
      case full: False
      show ?thesis using record_full[OF assms(1) False None full, of now] active assms(2,5) by auto
    qed
  next
    case (Some e')
    then show ?thesis using record_tracked(1)[OF assms(1) False, of ip'] assms(2,5) by (cases e') simp
  qed
qed (simp add: record_held assms(2))

lemma fw_call_ok: "fw_ok fw \<Longrightarrow> fw_ok (fw_call ev fw)"
  by (cases ev, rule fw_call_cases[OF refl]) (auto simp: record_ok)

lemma fw_call_keeps_active:
  assumes "fw_ok fw" "seen fw ip = Some e" "block_active t e" "now 0 \<le> t" "now 1 \<le> t"
  shows "seen (fw_call (held, now, f) fw) ip = Some e"
proof (rule fw_call_cases[OF refl, of held now f fw])
  assume r: "fw_call (held, now, f) fw = refuse_attempt (fw\<lparr> fw_list_held := held \<rparr>) now f"
    and nb: "\<not> is_blocked (fw\<lparr> fw_list_held := held \<rparr>) (now 0) (ip_source f)"
  have "block_active (now 0) e" using assms(3,4) by (rule block_active_earlier)
  then have "held \<or> ip_source f \<noteq> ip" using nb assms(1,2) by (auto simp: is_blocked_iff simp del: split_paired_Ex split_paired_All)
  then show ?thesis
    using r assms record_keeps_active[of "fw\<lparr> fw_list_held := held \<rparr>" ip e t "now 1" "ip_source f"]
    by (auto simp: record_held)
qed (use assms in simp)

lemma fw_run_keeps_active:
  assumes "fw_ok fw" "seen fw ip = Some e" "block_active t e"
    and "\<forall>(held, now, f) \<in> set evs. now 0 \<le> t \<and> now 1 \<le> t"
  shows "fw_ok (fw_run evs fw) \<and> seen (fw_run evs fw) ip = Some e"
  using assms
proof (induction evs arbitrary: fw)
  case (Cons ev evs)
  obtain held now f where ev: "ev = (held, now, f)" by (cases ev)
  have "seen (fw_call ev fw) ip = Some e"
    unfolding ev using Cons.prems by (intro fw_call_keeps_active) (auto simp: ev)
  then show ?case
    using Cons.IH[OF fw_call_ok[OF Cons.prems(1)], of ev] Cons.prems(3,4) by (simp add: fw_run_def)
qed (simp add: fw_run_def)

text \<open>A connection attempt of a source to a port that is not open.\<close>

definition attempt_from :: "ip4 \<Rightarrow> u8 list \<Rightarrow> bool" where
  "attempt_from ip f \<longleftrightarrow> has_ports f \<and> ip_complete f \<and> unsolicited f \<and> dest_port f \<noteq> 2222 \<and> ip_source f = ip"

lemma fw_call_attempt:
  assumes "attempt_from ip f"
  shows "seen (fw_call (False, now, f) fw) =
      (if is_blocked (fw\<lparr> fw_list_held := False \<rparr>) (now 0) ip then seen fw
       else seen (record_syn_attempt (fw\<lparr> fw_list_held := False \<rparr>) (now 1) ip))"
proof -
  have "\<not> admitted fw' t f" "14 \<le> length f" for fw' t
    using assms by (auto simp: attempt_from_def admitted_def has_ports_def unsolicited_def)
  then show ?thesis
    using assms by (simp add: fw_call_def filter_packet_cases attempt_from_def fw_count_drop_def)
qed

text \<open>The tracker has counted \<open>k\<close> attempts, or a block, at or after the time \<open>t1\<close>.\<close>

definition counted :: "ip4 \<Rightarrow> u64 \<Rightarrow> nat \<Rightarrow> u64 \<Rightarrow> Firewall \<Rightarrow> bool" where
  "counted ip t1 k t fw \<longleftrightarrow> fw_ok fw \<and>
     (\<exists>c l. seen fw ip = Some (c, l) \<and> min k 3 \<le> unat c \<and> t1 \<le> l \<and> l \<le> t)"

lemma unat_ge_3: "(3 :: u8) \<le> c \<longleftrightarrow> 3 \<le> unat c"
  by (simp add: word_le_nat_alt)

lemma counted_step:
  assumes "counted ip t1 k t fw" "attempt_from ip f" "t \<le> now 0" "now 0 \<le> now 1" "unat (now 1) < unat t1 + 120000"
  shows "counted ip t1 (Suc k) (now 1) (fw_call (False, now, f) fw)"
proof -
  obtain c l where cl: "seen fw ip = Some (c, l)" "min k 3 \<le> unat c" "t1 \<le> l" "l \<le> t" and ok: "fw_ok fw"
    using assms(1) by (auto simp: counted_def)
  have live: "\<not> block_expired (now 0) l" "\<not> block_expired (now 1) l" "t1 \<le> now 1" "l \<le> now 1"
    using assms(3-5) cl(3,4) by (auto simp: block_expired_iff word_le_nat_alt)
  have "min (Suc k) 3 \<le> unat (saturating_add c 1)" using cl(2) unat_lt2p[of c]
    by (auto simp: unat_saturating_add)
  moreover have "is_blocked (fw\<lparr> fw_list_held := False \<rparr>) (now 0) ip \<longleftrightarrow> 3 \<le> unat c"
    using ok cl(1) live(1) by (simp add: is_blocked_iff block_active_def unat_ge_3)
  ultimately show ?thesis
    using cl live ok fw_call_ok[OF ok] record_tracked(1)[of "fw\<lparr> fw_list_held := False \<rparr>" ip c l "now 1"]
    by (auto simp: counted_def fw_call_attempt[OF assms(2)] min_def split: if_splits)
qed

text \<open>The tracker has a slot for the source.\<close>

definition trackable :: "Firewall \<Rightarrow> u64 \<Rightarrow> ip4 \<Rightarrow> bool" where
  "trackable fw now ip \<longleftrightarrow> tracked_at fw ip \<noteq> None \<or> fw_tracked fw < MAX_BLOCKLIST \<or>
     find_victim now (fw_slots fw) \<noteq> None"

lemma counted_first:
  assumes "fw_ok fw" "attempt_from ip f" "trackable fw (now 1) ip"
    and "\<not> is_blocked (fw\<lparr> fw_list_held := False \<rparr>) (now 0) ip"
  shows "counted ip (now 1) 1 (now 1) (fw_call (False, now, f) fw)"
proof -
  let ?fw = "fw\<lparr> fw_list_held := False \<rparr>"
  have "\<exists>c. seen (record_syn_attempt ?fw (now 1) ip) ip = Some (c, now 1) \<and> 1 \<le> unat c"
  proof (cases "seen fw ip")
    case None
    then have n: "tracked_at fw ip = None" by (simp only: seen_None[OF assms(1)])
    show ?thesis
    proof (cases "fw_tracked fw < MAX_BLOCKLIST")
      case True
      then show ?thesis using record_new(1)[of ?fw ip "now 1"] assms(1) None by simp
    next
      case False
      then show ?thesis using record_full[of ?fw ip "now 1"] assms(1,3) n None by (auto simp: trackable_def)
    qed
  next
    case (Some e)
    obtain c l where "e = (c, l)" by force
    then show ?thesis
      using record_tracked(1)[of ?fw ip c l "now 1"] assms(1) Some by (simp add: unat_saturating_add)
  qed
  then show ?thesis using fw_call_ok[OF assms(1)] assms(4) by (auto simp: counted_def fw_call_attempt[OF assms(2)])
qed

text \<open>C14: the filter never panics and decides exactly by its policy: a frame is let through if and only
  if it is complete and it is not IPv4, or it is ICMP or UDP, or its source is not blocked and it is no
  connection attempt, or one to the shell port 2222.  A frame that is let through only counts as allowed,
  and a refused connection attempt of a source that is not blocked is recorded with the tracker.\<close>

theorem filter_policy_exact:
  "\<exists>fw' act. filter_packet fw now f = Some (fw', act) \<and> (act = Allow \<longleftrightarrow> admitted fw (now 0) f) \<and>
     fw' = (if act = Allow then fw\<lparr> fw_allows := fw_allows fw + 1 \<rparr>
            else if has_ports f \<and> is_blocked fw (now 0) (ip_source f) then fw\<lparr> fw_drops := fw_drops fw + 1 \<rparr>
            else if 14 \<le> length f \<and> ip_complete f then refuse_attempt fw now f else fw)"
  by (simp add: filter_packet_cases fw_allow_def fw_count_drop_def)

text \<open>C15: a block holds: once a source is blocked at a time, no frames of any sources, whatever slots of
  the tracker they fill, lift the block before that time, also when another context holds the lock
  during some of the calls; and every TCP frame of the source that finds the lock free is dropped
  without a trace in the tracker.\<close>

theorem block_holds:
  assumes "fw_ok fw" "is_blocked fw t ip" "\<forall>(held, now, f) \<in> set evs. now 0 \<le> t \<and> now 1 \<le> t"
    and "has_ports f" "ip_source f = ip" "now 0 \<le> t"
  shows "filter_packet ((fw_run evs fw)\<lparr> fw_list_held := False \<rparr>) now f =
           fw_count_drop ((fw_run evs fw)\<lparr> fw_list_held := False \<rparr>)"
proof -
  obtain e where e: "seen fw ip = Some e" "block_active t e" using assms(1,2) by (auto simp: is_blocked_iff)
  note k = fw_run_keeps_active[OF assms(1) e, of evs]
  then have "is_blocked ((fw_run evs fw)\<lparr> fw_list_held := False \<rparr>) (now 0) ip"
    using assms(3) block_active_earlier[OF e(2) assms(6)] by (simp add: is_blocked_iff del: split_paired_Ex)
  moreover from this have "\<not> admitted ((fw_run evs fw)\<lparr> fw_list_held := False \<rparr>) (now 0) f"
    using assms(4,5) by (auto simp: admitted_def has_ports_def)
  ultimately show ?thesis using assms(4,5) by (simp add: filter_packet_cases)
qed


text \<open>A connection attempt of 10.0.0.9 to port 22, and the tracker after three of them.\<close>

definition syn_frame :: "u8 list" where
  "syn_frame = replicate 12 0 @ [8, 0, 0x45, 0, 0, 40, 0, 0, 0, 0, 64, 6, 0, 0, 10, 0, 0, 9, 10, 0, 0, 1,
     0x12, 0x34, 0, 22, 0, 0, 0, 0, 0, 0, 0, 0, 0x50, 2, 0, 0, 0, 0, 0, 0]"

definition flooded :: Firewall where
  "flooded = fw_run [(False, \<lambda>_. 1000, syn_frame), (False, \<lambda>_. 2000, syn_frame), (False, \<lambda>_. 3000, syn_frame)]
     Firewall_boot"

lemma syn_frame_attempt: "attempt_from (10, 0, 0, 9) syn_frame"
  unfolding attempt_from_def by code_simp


theorem block_holds_witness:
  "fw_ok flooded \<and> is_blocked flooded 100000 (10, 0, 0, 9) \<and>
   filter_packet ((fw_run [(True, \<lambda>_. 50000, syn_frame)] flooded)\<lparr> fw_list_held := False \<rparr>) (\<lambda>_. 60000) syn_frame =
     fw_count_drop ((fw_run [(True, \<lambda>_. 50000, syn_frame)] flooded)\<lparr> fw_list_held := False \<rparr>)"
proof -
  have f: "fw_ok flooded" "is_blocked flooded 100000 (10, 0, 0, 9)" by code_simp+
  then show ?thesis
    using block_holds[OF f, of "[(True, \<lambda>_. 50000, syn_frame)]" syn_frame "\<lambda>_. 60000"] syn_frame_attempt
    by (simp add: attempt_from_def)
qed

end
