(* ===== verification/Shmem.thy ===== *)
theory Shmem
  imports Task
begin

text \<open>
  Shared memory between tasks, kernel/src/ipc/shared_memory.rs, the system calls
  for it in kernel/src/arch/x86_64/syscall/handlers/memory.rs, and the page
  mapping functions of kernel/src/memory/paging.rs it calls.  The page tables
  themselves are edited by the x86_64 crate.  Its mapper and its address checks
  are the record \<open>Mapper\<close> of functions over an abstract state of all page
  tables, an argument of every definition that uses them.  The region table is a
  hash map: a function from identifiers, and where the code iterates over it the
  order of the iteration is an argument.  \<open>None\<close> is a panic.
\<close>

section \<open>Data\<close>

datatype ShmemPerms = ReadOnly | WriteOnly | ReadWrite

type_synonym PageFlags = u8

definition PF_READABLE :: PageFlags where "PF_READABLE = 1"
definition PF_WRITABLE :: PageFlags where "PF_WRITABLE = 2"
definition PF_USER :: PageFlags where "PF_USER = 4"

text \<open>The page-table flags of the crate that the code sets.\<close>

datatype PageTableFlag = PRESENT | WRITABLE | USER_ACCESSIBLE | NO_EXECUTE | NO_CACHE | WRITE_THROUGH

datatype PageSize = Size4KiB | Size2MiB

datatype MapError = MapperNotInitialized | MapFailed | UnmapFailed | PageNotMapped | OutOfMemory

datatype ShmemError =
    ShInvalidId
  | ShPermissionDenied
  | ShOutOfMemory
  | ShIdOverflow
  | ShInvalidSize
  | ShMapFailed
  | ShUnmapFailed

record SharedMemory =
  sm_id :: u32
  sm_phys_pages :: "usize list"
  sm_block_order :: u8
  sm_size :: usize
  sm_perms :: ShmemPerms
  sm_tasks :: "TaskId list"
  sm_mappings :: "(TaskId \<times> usize) list"

definition HUGE_PAGE_SIZE :: usize where "HUGE_PAGE_SIZE = 2 * 1024 * 1024"
definition HUGE_PAGE_ORDER :: u8 where "HUGE_PAGE_ORDER = 9"

text \<open>
  The functions of the crate: which addresses \<open>VirtAddr::new\<close> and
  \<open>PhysAddr::new\<close> accept without a panic, and \<open>map_to\<close> and \<open>unmap\<close> on the page
  table at a physical address.  Mapping may take frames for intermediate tables
  from the allocator; it reports success, unmapping the frame it found.
\<close>

record 'pt Mapper =
  virt_valid :: "u64 \<Rightarrow> bool"
  phys_valid :: "u64 \<Rightarrow> bool"
  map_to :: "'pt \<Rightarrow> Pmm \<Rightarrow> u64 \<Rightarrow> PageSize \<Rightarrow> usize \<Rightarrow> usize \<Rightarrow> PageTableFlag set \<Rightarrow> 'pt \<times> Pmm \<times> bool"
  unmap :: "'pt \<Rightarrow> u64 \<Rightarrow> PageSize \<Rightarrow> usize \<Rightarrow> 'pt \<times> usize option"

record 'pt ShmemState =
  sh_kernel :: Kernel
  sh_pt :: 'pt
  sh_table :: "u32 \<Rightarrow> SharedMemory option"
  sh_next_id :: u32

abbreviation sh_pmm :: "'pt ShmemState \<Rightarrow> Pmm" where
  "sh_pmm s \<equiv> pmm (sh_kernel s)"

definition set_pmm :: "Pmm \<Rightarrow> 'pt ShmemState \<Rightarrow> 'pt ShmemState" where
  "set_pmm p s = s\<lparr> sh_kernel := (sh_kernel s)\<lparr> pmm := p \<rparr> \<rparr>"

section \<open>Page mapping\<close>

text \<open>\<open>Page::containing_address\<close> and \<open>PhysFrame::containing_address\<close> round down.\<close>

definition page_of :: "PageSize \<Rightarrow> usize \<Rightarrow> usize" where
  "page_of z a = (case z of Size4KiB \<Rightarrow> a AND NOT 0xFFF | Size2MiB \<Rightarrow> a AND NOT 0x1FFFFF)"

definition map_page_in_table ::
  "'pt Mapper \<Rightarrow> 'pt \<Rightarrow> Pmm \<Rightarrow> u64 \<Rightarrow> usize \<Rightarrow> usize \<Rightarrow> PageTableFlag set
    \<Rightarrow> ('pt \<times> Pmm \<times> (MapError, unit) result) option" where
  "map_page_in_table M pt p pml4_phys virt_addr phys_addr flags =
     (if \<not> virt_valid M virt_addr \<or> \<not> phys_valid M phys_addr then None
      else case map_to M pt p pml4_phys Size4KiB (page_of Size4KiB virt_addr) (page_of Size4KiB phys_addr) flags of
             (pt', p', ok) \<Rightarrow> Some (pt', p', if ok then Ok () else Err MapFailed))"

definition map_huge_page_in_table ::
  "'pt Mapper \<Rightarrow> 'pt \<Rightarrow> Pmm \<Rightarrow> u64 \<Rightarrow> usize \<Rightarrow> usize \<Rightarrow> PageTableFlag set
    \<Rightarrow> ('pt \<times> Pmm \<times> (MapError, unit) result) option" where
  "map_huge_page_in_table M pt p pml4_phys virt_addr phys_addr flags =
     (if virt_addr AND 0x1FFFFF \<noteq> 0 \<or> phys_addr AND 0x1FFFFF \<noteq> 0 then Some (pt, p, Err MapFailed)
      else if \<not> virt_valid M virt_addr \<or> \<not> phys_valid M phys_addr then None
      else case map_to M pt p pml4_phys Size2MiB (page_of Size2MiB virt_addr) (page_of Size2MiB phys_addr) flags of
             (pt', p', ok) \<Rightarrow> Some (pt', p', if ok then Ok () else Err MapFailed))"

definition unmap_page_in_table ::
  "'pt Mapper \<Rightarrow> 'pt \<Rightarrow> u64 \<Rightarrow> usize \<Rightarrow> ('pt \<times> (MapError, usize) result) option" where
  "unmap_page_in_table M pt pml4_phys virt_addr =
     (if \<not> virt_valid M virt_addr then None
      else case unmap M pt pml4_phys Size4KiB (page_of Size4KiB virt_addr) of
             (pt', Some frame) \<Rightarrow> Some (pt', Ok frame)
           | (pt', None) \<Rightarrow> Some (pt', Err UnmapFailed))"

definition unmap_huge_page_in_table ::
  "'pt Mapper \<Rightarrow> 'pt \<Rightarrow> u64 \<Rightarrow> usize \<Rightarrow> ('pt \<times> (MapError, usize) result) option" where
  "unmap_huge_page_in_table M pt pml4_phys virt_addr =
     (if virt_addr AND 0x1FFFFF \<noteq> 0 then Some (pt, Err UnmapFailed)
      else if \<not> virt_valid M virt_addr then None
      else case unmap M pt pml4_phys Size2MiB (page_of Size2MiB virt_addr) of
             (pt', Some frame) \<Rightarrow> Some (pt', Ok frame)
           | (pt', None) \<Rightarrow> Some (pt', Err UnmapFailed))"

definition convert_page_flags :: "PageFlags \<Rightarrow> PageTableFlag set" where
  "convert_page_flags flags =
     {PRESENT} \<union> (if flags AND PF_WRITABLE \<noteq> 0 then {WRITABLE} else {})
       \<union> (if flags AND PF_USER \<noteq> 0 then {USER_ACCESSIBLE} else {}) \<union> {NO_EXECUTE}"

section \<open>Regions\<close>

definition is_huge :: "SharedMemory \<Rightarrow> bool" where
  "is_huge r = (sm_block_order r = HUGE_PAGE_ORDER)"

definition block_size :: "SharedMemory \<Rightarrow> usize" where
  "block_size r = (if is_huge r then HUGE_PAGE_SIZE else PAGE_SIZE)"

definition perm_flags :: "ShmemPerms \<Rightarrow> PageFlags" where
  "perm_flags p =
     (case p of
        ReadOnly \<Rightarrow> PF_READABLE OR PF_USER
      | WriteOnly \<Rightarrow> PF_WRITABLE OR PF_USER
      | ReadWrite \<Rightarrow> PF_READABLE OR PF_WRITABLE OR PF_USER)"

text \<open>The allocation loops: the blocks obtained so far, and whether all were.\<close>

fun alloc_blocks :: "request \<Rightarrow> nat \<Rightarrow> Pmm \<Rightarrow> usize list \<Rightarrow> Pmm \<times> usize list \<times> bool" where
  "alloc_blocks req 0 p acc = (p, acc, True)"
| "alloc_blocks req (Suc n) p acc =
     (case pmm_alloc p req of
        (p', Some addr) \<Rightarrow> alloc_blocks req n p' (acc @ [addr])
      | (p', None) \<Rightarrow> (p', acc, False))"

fun free_blocks_of :: "Pmm \<Rightarrow> nat \<Rightarrow> usize list \<Rightarrow> Pmm option" where
  "free_blocks_of p order [] = Some p"
| "free_blocks_of p order (addr # addrs) =
     (case free_pages p addr order of None \<Rightarrow> None | Some p' \<Rightarrow> free_blocks_of p' order addrs)"

definition new_region :: "u32 \<Rightarrow> usize list \<Rightarrow> u8 \<Rightarrow> usize \<Rightarrow> ShmemPerms \<Rightarrow> TaskId \<Rightarrow> SharedMemory" where
  "new_region sid pages order sz perms creator =
     \<lparr> sm_id = sid, sm_phys_pages = pages, sm_block_order = order, sm_size = sz, sm_perms = perms,
       sm_tasks = [creator], sm_mappings = [] \<rparr>"

definition shmem_create ::
  "usize \<Rightarrow> ShmemPerms \<Rightarrow> 'pt ShmemState \<Rightarrow> ('pt ShmemState \<times> (ShmemError, u32) result) option" where
  "shmem_create sz perms s =
     (if sz = 0 then Some (s, Err ShInvalidSize)
      else
        (let num_pages = (sz + PAGE_SIZE - 1) div PAGE_SIZE; actual_size = num_pages * PAGE_SIZE in
         case alloc_blocks Page (unat num_pages) (sh_pmm s) [] of
           (p, pages, False) \<Rightarrow>
             (case free_blocks_of p 0 pages of
                None \<Rightarrow> None
              | Some p' \<Rightarrow> Some (set_pmm p' s, Err ShOutOfMemory))
         | (p, pages, True) \<Rightarrow>
             (let id_raw = sh_next_id s; s1 = (set_pmm p s)\<lparr> sh_next_id := id_raw + 1 \<rparr> in
              if id_raw = 0 then Some (s1, Err ShIdOverflow)
              else
                (case current_task (sh_kernel s1) of
                   None \<Rightarrow> None
                 | Some t \<Rightarrow>
                     Some (s1\<lparr> sh_table := (sh_table s1)(id_raw \<mapsto>
                                new_region id_raw pages 0 actual_size perms (task_id t)) \<rparr>, Ok id_raw)))))"

definition shmem_create_huge ::
  "usize \<Rightarrow> ShmemPerms \<Rightarrow> 'pt ShmemState \<Rightarrow> ('pt ShmemState \<times> (ShmemError, u32) result) option" where
  "shmem_create_huge sz perms s =
     (if sz = 0 then Some (s, Err ShInvalidSize)
      else
        (let num_blocks = (sz + HUGE_PAGE_SIZE - 1) div HUGE_PAGE_SIZE; actual_size = num_blocks * HUGE_PAGE_SIZE in
         case alloc_blocks (Pages (unat HUGE_PAGE_ORDER)) (unat num_blocks) (sh_pmm s) [] of
           (p, pages, False) \<Rightarrow>
             (case free_blocks_of p (unat HUGE_PAGE_ORDER) pages of
                None \<Rightarrow> None
              | Some p' \<Rightarrow> shmem_create sz perms (set_pmm p' s))
         | (p, pages, True) \<Rightarrow>
             (let id_raw = sh_next_id s; s1 = (set_pmm p s)\<lparr> sh_next_id := id_raw + 1 \<rparr> in
              if id_raw = 0 then
                (case free_blocks_of p (unat HUGE_PAGE_ORDER) pages of
                   None \<Rightarrow> None
                 | Some p' \<Rightarrow> Some (set_pmm p' s1, Err ShIdOverflow))
              else
                (case current_task (sh_kernel s1) of
                   None \<Rightarrow> None
                 | Some t \<Rightarrow>
                     Some (s1\<lparr> sh_table := (sh_table s1)(id_raw \<mapsto>
                                new_region id_raw pages HUGE_PAGE_ORDER actual_size perms (task_id t)) \<rparr>,
                           Ok id_raw)))))"

text \<open>One block of a region, at the size the region uses.\<close>

definition map_block ::
  "'pt Mapper \<Rightarrow> bool \<Rightarrow> 'pt \<Rightarrow> Pmm \<Rightarrow> u64 \<Rightarrow> usize \<Rightarrow> usize \<Rightarrow> PageTableFlag set
    \<Rightarrow> ('pt \<times> Pmm \<times> (MapError, unit) result) option" where
  "map_block M huge = (if huge then map_huge_page_in_table M else map_page_in_table M)"

definition unmap_block ::
  "'pt Mapper \<Rightarrow> bool \<Rightarrow> 'pt \<Rightarrow> u64 \<Rightarrow> usize \<Rightarrow> ('pt \<times> (MapError, usize) result) option" where
  "unmap_block M huge = (if huge then unmap_huge_page_in_table M else unmap_page_in_table M)"

text \<open>The mapping loop: \<open>n\<close> blocks are mapped so far, the result says whether all were.\<close>

fun map_blocks ::
  "'pt Mapper \<Rightarrow> bool \<Rightarrow> usize \<Rightarrow> PageTableFlag set \<Rightarrow> u64 \<Rightarrow> usize \<Rightarrow> nat \<Rightarrow> usize list \<Rightarrow> 'pt \<Rightarrow> Pmm
    \<Rightarrow> ('pt \<times> Pmm \<times> nat \<times> bool) option" where
  "map_blocks M huge bsize flags pml4 virt n [] pt p = Some (pt, p, n, True)"
| "map_blocks M huge bsize flags pml4 virt n (phys # rest) pt p =
     (case map_block M huge pt p pml4 (virt + of_nat n * bsize) phys flags of
        None \<Rightarrow> None
      | Some (pt', p', Ok _) \<Rightarrow> map_blocks M huge bsize flags pml4 virt (Suc n) rest pt' p'
      | Some (pt', p', Err _) \<Rightarrow> Some (pt', p', n, False))"

text \<open>The best-effort unmapping loop over the block numbers.\<close>

fun clear_blocks :: "'pt Mapper \<Rightarrow> bool \<Rightarrow> usize \<Rightarrow> u64 \<Rightarrow> usize \<Rightarrow> nat list \<Rightarrow> 'pt \<Rightarrow> 'pt option" where
  "clear_blocks M huge bsize pml4 virt [] pt = Some pt"
| "clear_blocks M huge bsize pml4 virt (i # rest) pt =
     (case unmap_block M huge pt pml4 (virt + of_nat i * bsize) of
        None \<Rightarrow> None
      | Some (pt', _) \<Rightarrow> clear_blocks M huge bsize pml4 virt rest pt')"

text \<open>
  \<open>shmem_map\<close> in two parts, since the table lock is free in between: looking up
  the region and installing its blocks, and recording the mapping if the region
  still exists.
\<close>

definition shmem_map_install ::
  "'pt Mapper \<Rightarrow> u32 \<Rightarrow> usize \<Rightarrow> 'pt ShmemState
    \<Rightarrow> ('pt ShmemState \<times> (ShmemError, SharedMemory \<times> Task \<times> nat) result) option" where
  "shmem_map_install M sid virt s =
     (case sh_table s sid of
        None \<Rightarrow> Some (s, Err ShInvalidId)
      | Some sh \<Rightarrow>
          if virt mod block_size sh \<noteq> 0 then Some (s, Err ShInvalidSize)
          else (case current_task (sh_kernel s) of
            None \<Rightarrow> None
          | Some t \<Rightarrow>
              if task_id t \<notin> set (sm_tasks sh) then Some (s, Err ShPermissionDenied)
              else
                (let pt_flags = convert_page_flags (perm_flags (sm_perms sh)); task_pml4 = page_table_phys t in
                 if task_pml4 = 0 then Some (s, Err ShMapFailed)
                 else (case map_blocks M (is_huge sh) (block_size sh) pt_flags task_pml4 virt 0
                             (sm_phys_pages sh) (sh_pt s) (sh_pmm s) of
                   None \<Rightarrow> None
                 | Some (pt, p, mapped, True) \<Rightarrow> Some ((set_pmm p s)\<lparr> sh_pt := pt \<rparr>, Ok (sh, t, mapped))
                 | Some (pt, p, mapped, False) \<Rightarrow>
                     (case clear_blocks M (is_huge sh) (block_size sh) task_pml4 virt [0..<mapped] pt of
                        None \<Rightarrow> None
                      | Some pt' \<Rightarrow> Some ((set_pmm p s)\<lparr> sh_pt := pt' \<rparr>, Err ShMapFailed))))))"

definition shmem_map_commit ::
  "'pt Mapper \<Rightarrow> u32 \<Rightarrow> usize \<Rightarrow> SharedMemory \<times> Task \<times> nat \<Rightarrow> 'pt ShmemState
    \<Rightarrow> ('pt ShmemState \<times> (ShmemError, unit) result) option" where
  "shmem_map_commit M sid virt installed s =
     (case installed of (sh, t, mapped) \<Rightarrow>
        (case sh_table s sid of
           Some region \<Rightarrow>
             Some (s\<lparr> sh_table := (sh_table s)(sid \<mapsto>
                       region\<lparr> sm_mappings := sm_mappings region @ [(task_id t, virt)] \<rparr>) \<rparr>, Ok ())
         | None \<Rightarrow>
             (case clear_blocks M (is_huge sh) (block_size sh) (page_table_phys t) virt [0..<mapped] (sh_pt s) of
                None \<Rightarrow> None
              | Some pt \<Rightarrow> Some (s\<lparr> sh_pt := pt \<rparr>, Err ShInvalidId))))"

definition shmem_map ::
  "'pt Mapper \<Rightarrow> u32 \<Rightarrow> usize \<Rightarrow> 'pt ShmemState \<Rightarrow> ('pt ShmemState \<times> (ShmemError, unit) result) option" where
  "shmem_map M sid virt s =
     (case shmem_map_install M sid virt s of
        None \<Rightarrow> None
      | Some (s', Err e) \<Rightarrow> Some (s', Err e)
      | Some (s', Ok installed) \<Rightarrow> shmem_map_commit M sid virt installed s')"

text \<open>The unmapping loop of \<open>shmem_unmap\<close> stops at the first failure.\<close>

fun unmap_blocks ::
  "'pt Mapper \<Rightarrow> bool \<Rightarrow> usize \<Rightarrow> u64 \<Rightarrow> usize \<Rightarrow> nat list \<Rightarrow> 'pt \<Rightarrow> ('pt \<times> bool) option" where
  "unmap_blocks M huge bsize pml4 virt [] pt = Some (pt, True)"
| "unmap_blocks M huge bsize pml4 virt (i # rest) pt =
     (case unmap_block M huge pt pml4 (virt + of_nat i * bsize) of
        None \<Rightarrow> None
      | Some (pt', Ok _) \<Rightarrow> unmap_blocks M huge bsize pml4 virt rest pt'
      | Some (pt', Err _) \<Rightarrow> Some (pt', False))"

definition shmem_unmap ::
  "'pt Mapper \<Rightarrow> u32 \<Rightarrow> usize \<Rightarrow> 'pt ShmemState \<Rightarrow> ('pt ShmemState \<times> (ShmemError, unit) result) option" where
  "shmem_unmap M sid virt s =
     (case sh_table s sid of
        None \<Rightarrow> Some (s, Err ShInvalidId)
      | Some sh \<Rightarrow>
          if virt mod block_size sh \<noteq> 0 then Some (s, Err ShInvalidSize)
          else (case current_task (sh_kernel s) of
            None \<Rightarrow> None
          | Some t \<Rightarrow>
              (let task_pml4 = page_table_phys t in
               if task_pml4 = 0 then Some (s, Err ShUnmapFailed)
               else (case unmap_blocks M (is_huge sh) (block_size sh) task_pml4 virt
                           [0..<length (sm_phys_pages sh)] (sh_pt s) of
                 None \<Rightarrow> None
               | Some (pt, False) \<Rightarrow> Some (s\<lparr> sh_pt := pt \<rparr>, Err ShUnmapFailed)
               | Some (pt, True) \<Rightarrow>
                   Some (s\<lparr> sh_pt := pt,
                            sh_table := (sh_table s)(sid \<mapsto> sh\<lparr> sm_mappings :=
                              filter (\<lambda>(t', v). \<not> (t' = task_id t \<and> v = virt)) (sm_mappings sh) \<rparr>) \<rparr>, Ok ())))))"

fun clear_mappings_of ::
  "'pt Mapper \<Rightarrow> Kernel \<Rightarrow> bool \<Rightarrow> usize \<Rightarrow> nat \<Rightarrow> (TaskId \<times> usize) list \<Rightarrow> 'pt \<Rightarrow> 'pt option" where
  "clear_mappings_of M k huge bsize num_blocks [] pt = Some pt"
| "clear_mappings_of M k huge bsize num_blocks ((tid, virt_base) # rest) pt =
     (case get_task tid k of
        None \<Rightarrow> clear_mappings_of M k huge bsize num_blocks rest pt
      | Some t \<Rightarrow>
          if page_table_phys t = 0 then clear_mappings_of M k huge bsize num_blocks rest pt
          else (case clear_blocks M huge bsize (page_table_phys t) virt_base [0..<num_blocks] pt of
            None \<Rightarrow> None
          | Some pt' \<Rightarrow> clear_mappings_of M k huge bsize num_blocks rest pt'))"

definition clear_mappings :: "'pt Mapper \<Rightarrow> Kernel \<Rightarrow> SharedMemory \<Rightarrow> 'pt \<Rightarrow> 'pt option" where
  "clear_mappings M k r pt =
     clear_mappings_of M k (is_huge r) (block_size r) (length (sm_phys_pages r)) (sm_mappings r) pt"

text \<open>Clearing the mappings of a region that has left the table, then freeing its blocks.\<close>

definition release_region :: "'pt Mapper \<Rightarrow> SharedMemory \<Rightarrow> 'pt ShmemState \<Rightarrow> 'pt ShmemState option" where
  "release_region M r s =
     (case clear_mappings M (sh_kernel s) r (sh_pt s) of
        None \<Rightarrow> None
      | Some pt \<Rightarrow>
          (case free_blocks_of (sh_pmm s) (unat (sm_block_order r)) (sm_phys_pages r) of
             None \<Rightarrow> None
           | Some p \<Rightarrow> Some ((set_pmm p s)\<lparr> sh_pt := pt \<rparr>)))"

definition shmem_destroy ::
  "'pt Mapper \<Rightarrow> u32 \<Rightarrow> 'pt ShmemState \<Rightarrow> ('pt ShmemState \<times> (ShmemError, unit) result) option" where
  "shmem_destroy M sid s =
     (case sh_table s sid of
        None \<Rightarrow> Some (s, Err ShInvalidId)
      | Some sh \<Rightarrow>
          (case current_task (sh_kernel s) of
             None \<Rightarrow> None
           | Some t \<Rightarrow>
               if task_id t \<notin> set (sm_tasks sh) then Some (s, Err ShPermissionDenied)
               else (case release_region M sh (s\<lparr> sh_table := (sh_table s)(sid := None) \<rparr>) of
                 None \<Rightarrow> None
               | Some s' \<Rightarrow> Some (s', Ok ()))))"

definition shmem_grant ::
  "u32 \<Rightarrow> TaskId \<Rightarrow> 'pt ShmemState \<Rightarrow> ('pt ShmemState \<times> (ShmemError, unit) result) option" where
  "shmem_grant sid task s =
     (case sh_table s sid of
        None \<Rightarrow> Some (s, Err ShInvalidId)
      | Some sh \<Rightarrow>
          (case current_task (sh_kernel s) of
             None \<Rightarrow> None
           | Some t \<Rightarrow>
               if task_id t \<notin> set (sm_tasks sh) then Some (s, Err ShPermissionDenied)
               else if task \<in> set (sm_tasks sh) then Some (s, Ok ())
               else Some (s\<lparr> sh_table := (sh_table s)(sid \<mapsto>
                               sh\<lparr> sm_tasks := sm_tasks sh @ [task] \<rparr>) \<rparr>, Ok ())))"

definition shmem_revoke ::
  "u32 \<Rightarrow> TaskId \<Rightarrow> 'pt ShmemState \<Rightarrow> ('pt ShmemState \<times> (ShmemError, unit) result) option" where
  "shmem_revoke sid task s =
     (case sh_table s sid of
        None \<Rightarrow> Some (s, Err ShInvalidId)
      | Some sh \<Rightarrow>
          (case current_task (sh_kernel s) of
             None \<Rightarrow> None
           | Some t \<Rightarrow>
               if \<not> (sm_tasks sh \<noteq> [] \<and> hd (sm_tasks sh) = task_id t) then Some (s, Err ShPermissionDenied)
               else Some (s\<lparr> sh_table := (sh_table s)(sid \<mapsto>
                               sh\<lparr> sm_tasks := filter (\<lambda>t'. t' = task_id t \<or> t' \<noteq> task) (sm_tasks sh) \<rparr>) \<rparr>,
                          Ok ())))"

definition created_by :: "TaskId \<Rightarrow> SharedMemory \<Rightarrow> bool" where
  "created_by tid r = (sm_tasks r \<noteq> [] \<and> hd (sm_tasks r) = tid)"

definition drop_task :: "TaskId \<Rightarrow> SharedMemory \<Rightarrow> SharedMemory" where
  "drop_task tid r =
     r\<lparr> sm_tasks := filter (\<lambda>t. t \<noteq> tid) (sm_tasks r),
        sm_mappings := filter (\<lambda>(t, _). t \<noteq> tid) (sm_mappings r) \<rparr>"

text \<open>Phase 1 of \<open>free_task_regions\<close> visits the whole table; phase 2 releases what was pulled out,
  in the order in which the table was visited.\<close>

fun release_regions ::
  "'pt Mapper \<Rightarrow> TaskId \<Rightarrow> SharedMemory list \<Rightarrow> 'pt ShmemState \<Rightarrow> 'pt ShmemState option" where
  "release_regions M tid [] s = Some s"
| "release_regions M tid (r # rest) s =
     (case release_region M (r\<lparr> sm_mappings := filter (\<lambda>(t, _). t \<noteq> tid) (sm_mappings r) \<rparr>) s of
        None \<Rightarrow> None
      | Some s' \<Rightarrow> release_regions M tid rest s')"

definition free_task_regions ::
  "'pt Mapper \<Rightarrow> u32 list \<Rightarrow> TaskId \<Rightarrow> 'pt ShmemState \<Rightarrow> 'pt ShmemState option" where
  "free_task_regions M order tid s =
     (let to_destroy = filter (created_by tid) (List.map_filter (sh_table s) order);
          table = (\<lambda>i. case sh_table s i of
                         None \<Rightarrow> None
                       | Some r \<Rightarrow> if created_by tid r then None else Some (drop_task tid r))
      in release_regions M tid to_destroy (s\<lparr> sh_table := table \<rparr>))"

section \<open>System calls\<close>

definition u64_MAX :: u64 where "u64_MAX = 0xFFFFFFFFFFFFFFFF"

definition unit_status :: "(ShmemError, unit) result \<Rightarrow> u64" where
  "unit_status r = (case r of Ok _ \<Rightarrow> 0 | Err _ \<Rightarrow> u64_MAX)"

definition syscall_shmem_create :: "u64 \<Rightarrow> 'pt ShmemState \<Rightarrow> ('pt ShmemState \<times> u64) option" where
  "syscall_shmem_create sz s =
     (if sz = 0 \<or> 1024 * 1024 * 1024 < sz then Some (s, u64_MAX)
      else map_option (apsnd (\<lambda>r. case r of Ok sid \<Rightarrow> ucast sid | Err _ \<Rightarrow> u64_MAX)) (shmem_create sz ReadWrite s))"

definition syscall_shmem_map :: "'pt Mapper \<Rightarrow> u64 \<Rightarrow> u64 \<Rightarrow> 'pt ShmemState \<Rightarrow> ('pt ShmemState \<times> u64) option" where
  "syscall_shmem_map M shmem_id virt_addr s =
     (let sid = ucast shmem_id in
      if sid = 0 then Some (s, u64_MAX)
      else if virt_addr = 0 then Some (s, u64_MAX)
      else if 0x0000800000000000 \<le> virt_addr then Some (s, u64_MAX)
      else if virt_addr AND 0xFFF \<noteq> 0 then Some (s, u64_MAX)
      else map_option (apsnd unit_status) (shmem_map M sid virt_addr s))"

definition syscall_shmem_grant :: "u64 \<Rightarrow> u64 \<Rightarrow> 'pt ShmemState \<Rightarrow> ('pt ShmemState \<times> u64) option" where
  "syscall_shmem_grant shmem_id target_task s =
     (let sid = ucast shmem_id in
      if sid = 0 then Some (s, u64_MAX)
      else if target_task = 0 \<or> 0xFFFFFFFF < target_task then Some (s, u64_MAX)
      else map_option (apsnd unit_status) (shmem_grant sid (ucast target_task) s))"

definition syscall_shmem_unmap :: "'pt Mapper \<Rightarrow> u64 \<Rightarrow> u64 \<Rightarrow> 'pt ShmemState \<Rightarrow> ('pt ShmemState \<times> u64) option" where
  "syscall_shmem_unmap M shmem_id virt_addr s =
     (let sid = ucast shmem_id in
      if sid = 0 then Some (s, u64_MAX)
      else if virt_addr = 0 then Some (s, u64_MAX)
      else map_option (apsnd unit_status) (shmem_unmap M sid virt_addr s))"

definition syscall_shmem_destroy :: "'pt Mapper \<Rightarrow> u64 \<Rightarrow> 'pt ShmemState \<Rightarrow> ('pt ShmemState \<times> u64) option" where
  "syscall_shmem_destroy M shmem_id s =
     (let sid = ucast shmem_id in
      if sid = 0 then Some (s, u64_MAX)
      else map_option (apsnd unit_status) (shmem_destroy M sid s))"

end
