(* ===== verification/MemCalls.thy ===== *)
theory MemCalls
  imports Shmem Capability
begin

text \<open>
  The remaining system calls of
  kernel/src/arch/x86_64/syscall/handlers/memory.rs: anonymous mappings with the
  list of recycled addresses, changes of protection, physical mappings and the
  heap statistics, together with \<open>protect_in_table\<close> of
  kernel/src/memory/paging.rs.  Physical memory contents are a function from
  addresses to bytes; \<open>translate_page\<close> of the page-table crate is an argument like
  the rest of the crate.
\<close>

section \<open>Recycled address ranges\<close>

text \<open>The used prefix of the array; the rest of it is never read.\<close>

type_synonym MmapFreelist = "(u64 \<times> usize) list"

definition MMAP_FREELIST_CAP :: nat where "MMAP_FREELIST_CAP = 256"

definition MmapFreelist_new :: MmapFreelist where "MmapFreelist_new = []"

text \<open>The coalescing loop of \<open>push\<close>.\<close>

fun freelist_merge :: "u64 \<Rightarrow> usize \<Rightarrow> MmapFreelist \<Rightarrow> MmapFreelist option" where
  "freelist_merge addr pages [] = None"
| "freelist_merge addr pages ((e_addr, e_pages) # rest) =
     (if addr + pages * 4096 = e_addr then Some ((addr, pages + e_pages) # rest)
      else if e_addr + e_pages * 4096 = addr then Some ((e_addr, e_pages + pages) # rest)
      else map_option (Cons (e_addr, e_pages)) (freelist_merge addr pages rest))"

definition freelist_push :: "u64 \<Rightarrow> usize \<Rightarrow> MmapFreelist \<Rightarrow> MmapFreelist" where
  "freelist_push addr pages fl =
     (case freelist_merge addr pages fl of
        Some fl' \<Rightarrow> fl'
      | None \<Rightarrow> if length fl < MMAP_FREELIST_CAP then fl @ [(addr, pages)] else fl)"

text \<open>The index loop of \<open>pop_fit\<close>, from index \<open>i\<close> on.\<close>

function pop_fit_from :: "nat \<Rightarrow> usize \<Rightarrow> MmapFreelist \<Rightarrow> MmapFreelist \<times> u64 option" where
  "pop_fit_from i needed fl =
     (if i < length fl then
        (if needed \<le> snd (fl ! i) then
           (let addr = fst (fl ! i); leftover = snd (fl ! i) - needed in
            if 0 < leftover then (fl[i := (addr + needed * 4096, leftover)], Some addr)
            else
              (let count = length fl - 1 in
               (take count (if i < count then fl[i := fl ! count] else fl), Some addr)))
         else pop_fit_from (Suc i) needed fl)
      else (fl, None))"
  by pat_completeness auto

termination pop_fit_from
  by (relation "measure (\<lambda>(i, _, fl). length fl - i)") auto

declare pop_fit_from.simps [simp del]

definition pop_fit :: "usize \<Rightarrow> MmapFreelist \<Rightarrow> MmapFreelist \<times> u64 option" where
  "pop_fit needed fl = pop_fit_from 0 needed fl"

section \<open>Anonymous mappings\<close>

record 'pt MemState =
  mm_sh :: "'pt ShmemState"
  mm_freelist :: MmapFreelist
  mm_next_addr :: u64
  mm_mem :: "usize \<Rightarrow> u8"

definition MMAP_BASE :: u64 where "MMAP_BASE = 0x40000000"
definition MAX_MMAP_SIZE :: u64 where "MAX_MMAP_SIZE = 16 * 1024 * 1024"
definition USERSPACE_TOP :: u64 where "USERSPACE_TOP = 0x0000800000000000"

definition zero_page :: "usize \<Rightarrow> (usize \<Rightarrow> u8) \<Rightarrow> usize \<Rightarrow> u8" where
  "zero_page phys m = (\<lambda>a. if a - phys < PAGE_SIZE then 0 else m a)"

definition pages_for :: "u64 \<Rightarrow> u64" where
  "pages_for sz = (sz + PAGE_SIZE - 1) div PAGE_SIZE"

text \<open>Choosing the address: the hint after its checks, a recycled range, or fresh addresses.\<close>

definition mmap_base ::
  "u64 \<Rightarrow> u64 \<Rightarrow> 'pt MemState \<Rightarrow> 'pt MemState \<times> u64 option" where
  "mmap_base hint_addr num_pages s =
     (if hint_addr \<noteq> 0 then
        (if hint_addr mod PAGE_SIZE \<noteq> 0 \<or> hint_addr < MMAP_BASE then (s, None)
         else if 2 ^ 64 \<le> unat hint_addr + unat (num_pages * PAGE_SIZE) then (s, None)
         else if USERSPACE_TOP \<le> hint_addr \<or> USERSPACE_TOP < hint_addr + num_pages * PAGE_SIZE then (s, None)
         else (s, Some hint_addr))
      else
        (case pop_fit num_pages (mm_freelist s) of
           (fl, Some addr) \<Rightarrow> (s\<lparr> mm_freelist := fl \<rparr>, Some addr)
         | (fl, None) \<Rightarrow>
             (let addr = mm_next_addr s;
                  s1 = s\<lparr> mm_freelist := fl, mm_next_addr := addr + num_pages * PAGE_SIZE \<rparr> in
              if 0x7FFF00000000 < addr + num_pages * PAGE_SIZE then (s1, None) else (s1, Some addr))))"

definition prot_flags :: "u64 \<Rightarrow> PageTableFlag set" where
  "prot_flags flags =
     {PRESENT, USER_ACCESSIBLE} \<union> (if flags AND 0x2 \<noteq> 0 then {WRITABLE} else {})
       \<union> (if flags AND 0x4 = 0 then {NO_EXECUTE} else {})"

fun mmap_pages ::
  "'pt Mapper \<Rightarrow> PageTableFlag set \<Rightarrow> u64 \<Rightarrow> u64 \<Rightarrow> nat list \<Rightarrow> 'pt \<Rightarrow> Pmm \<Rightarrow> (usize \<Rightarrow> u8)
    \<Rightarrow> ('pt \<times> Pmm \<times> (usize \<Rightarrow> u8) \<times> bool) option" where
  "mmap_pages M flags pml4 base [] pt p m = Some (pt, p, m, True)"
| "mmap_pages M flags pml4 base (i # rest) pt p m =
     (case alloc_page p of
        (p1, None) \<Rightarrow> Some (pt, p1, m, False)
      | (p1, Some phys) \<Rightarrow>
          (case map_page_in_table M pt p1 pml4 (base + of_nat i * PAGE_SIZE) phys flags of
             None \<Rightarrow> None
           | Some (pt', p2, Err _) \<Rightarrow> Some (pt', p2, m, False)
           | Some (pt', p2, Ok _) \<Rightarrow> mmap_pages M flags pml4 base rest pt' p2 (zero_page phys m)))"

definition set_space :: "'pt \<Rightarrow> Pmm \<Rightarrow> 'pt MemState \<Rightarrow> 'pt MemState" where
  "set_space pt p s = s\<lparr> mm_sh := (set_pmm p (mm_sh s))\<lparr> sh_pt := pt \<rparr> \<rparr>"

definition syscall_mmap :: "'pt Mapper \<Rightarrow> u64 \<Rightarrow> u64 \<Rightarrow> u64 \<Rightarrow> 'pt MemState \<Rightarrow> ('pt MemState \<times> u64) option" where
  "syscall_mmap M hint_addr sz flags s =
     (if sz = 0 \<or> MAX_MMAP_SIZE < sz then Some (s, u64_MAX)
      else (case current_task (sh_kernel (mm_sh s)) of
        None \<Rightarrow> None
      | Some t \<Rightarrow>
          if page_table_phys t = 0 then Some (s, u64_MAX)
          else (case mmap_base hint_addr (pages_for sz) s of
            (s1, None) \<Rightarrow> Some (s1, u64_MAX)
          | (s1, Some virt_base) \<Rightarrow>
              (case mmap_pages M (prot_flags flags) (page_table_phys t) virt_base [0..<unat (pages_for sz)]
                      (sh_pt (mm_sh s1)) (sh_pmm (mm_sh s1)) (mm_mem s1) of
                 None \<Rightarrow> None
               | Some (pt, p, m, ok) \<Rightarrow>
                   Some ((set_space pt p s1)\<lparr> mm_mem := m \<rparr>, if ok then virt_base else u64_MAX)))))"

text \<open>The loop of \<open>munmap\<close> counts the pages it freed.\<close>

fun munmap_pages :: "'pt Mapper \<Rightarrow> u64 \<Rightarrow> u64 \<Rightarrow> nat list \<Rightarrow> 'pt \<Rightarrow> Pmm \<Rightarrow> usize \<Rightarrow> ('pt \<times> Pmm \<times> usize) option" where
  "munmap_pages M pml4 virt_addr [] pt p freed = Some (pt, p, freed)"
| "munmap_pages M pml4 virt_addr (i # rest) pt p freed =
     (case unmap_page_in_table M pt pml4 (virt_addr + of_nat i * PAGE_SIZE) of
        None \<Rightarrow> None
      | Some (pt', Err _) \<Rightarrow> munmap_pages M pml4 virt_addr rest pt' p freed
      | Some (pt', Ok phys_addr) \<Rightarrow>
          (case free_pages p phys_addr 0 of
             None \<Rightarrow> None
           | Some p' \<Rightarrow> munmap_pages M pml4 virt_addr rest pt' p' (freed + 1)))"

definition syscall_munmap :: "'pt Mapper \<Rightarrow> u64 \<Rightarrow> u64 \<Rightarrow> 'pt MemState \<Rightarrow> ('pt MemState \<times> u64) option" where
  "syscall_munmap M virt_addr sz s =
     (if sz = 0 \<or> virt_addr mod PAGE_SIZE \<noteq> 0 \<or> virt_addr < MMAP_BASE then Some (s, u64_MAX)
      else (case current_task (sh_kernel (mm_sh s)) of
        None \<Rightarrow> None
      | Some t \<Rightarrow>
          if page_table_phys t = 0 then Some (s, u64_MAX)
          else (case munmap_pages M (page_table_phys t) virt_addr [0..<unat (pages_for sz)]
                      (sh_pt (mm_sh s)) (sh_pmm (mm_sh s)) 0 of
            None \<Rightarrow> None
          | Some (pt, p, freed) \<Rightarrow>
              (let s1 = set_space pt p s in
               Some (if 0 < freed then s1\<lparr> mm_freelist := freelist_push virt_addr freed (mm_freelist s1) \<rparr> else s1, 0)))))"

section \<open>Protection\<close>

type_synonym 'pt translate = "'pt \<Rightarrow> u64 \<Rightarrow> usize \<Rightarrow> usize option"

definition protect_in_table ::
  "'pt Mapper \<Rightarrow> 'pt translate \<Rightarrow> 'pt \<Rightarrow> Pmm \<Rightarrow> u64 \<Rightarrow> usize \<Rightarrow> PageTableFlag set
    \<Rightarrow> ('pt \<times> Pmm \<times> (MapError, unit) result) option" where
  "protect_in_table M translate_page pt p pml4_phys virt_addr flags =
     (if \<not> virt_valid M virt_addr then None
      else
        (let page = page_of Size4KiB virt_addr in
         case translate_page pt pml4_phys page of
           None \<Rightarrow> Some (pt, p, Err PageNotMapped)
         | Some frame \<Rightarrow>
             (case unmap M pt pml4_phys Size4KiB page of
                (pt1, None) \<Rightarrow> Some (pt1, p, Err UnmapFailed)
              | (pt1, Some _) \<Rightarrow>
                  (case map_to M pt1 p pml4_phys Size4KiB page frame flags of
                     (pt2, p', ok) \<Rightarrow> Some (pt2, p', if ok then Ok () else Err MapFailed)))))"

fun mprotect_pages ::
  "'pt Mapper \<Rightarrow> 'pt translate \<Rightarrow> PageTableFlag set \<Rightarrow> u64 \<Rightarrow> u64 \<Rightarrow> nat list \<Rightarrow> 'pt \<Rightarrow> Pmm
    \<Rightarrow> ('pt \<times> Pmm \<times> bool) option" where
  "mprotect_pages M tr flags pml4 virt_addr [] pt p = Some (pt, p, True)"
| "mprotect_pages M tr flags pml4 virt_addr (i # rest) pt p =
     (case protect_in_table M tr pt p pml4 (virt_addr + of_nat i * PAGE_SIZE) flags of
        None \<Rightarrow> None
      | Some (pt', p', Err _) \<Rightarrow> Some (pt', p', False)
      | Some (pt', p', Ok _) \<Rightarrow> mprotect_pages M tr flags pml4 virt_addr rest pt' p')"

definition syscall_mprotect ::
  "'pt Mapper \<Rightarrow> 'pt translate \<Rightarrow> u64 \<Rightarrow> u64 \<Rightarrow> u64 \<Rightarrow> 'pt MemState \<Rightarrow> ('pt MemState \<times> u64) option" where
  "syscall_mprotect M tr virt_addr sz flags s =
     (if sz = 0 \<or> virt_addr mod PAGE_SIZE \<noteq> 0 \<or> virt_addr < MMAP_BASE then Some (s, u64_MAX)
      else if 2 ^ 64 \<le> unat virt_addr + unat sz then Some (s, u64_MAX)
      else if USERSPACE_TOP \<le> virt_addr \<or> USERSPACE_TOP < virt_addr + sz then Some (s, u64_MAX)
      else if flags AND 0x2 \<noteq> 0 \<and> flags AND 0x4 \<noteq> 0 then Some (s, u64_MAX)
      else (case current_task (sh_kernel (mm_sh s)) of
        None \<Rightarrow> None
      | Some t \<Rightarrow>
          if page_table_phys t = 0 then Some (s, u64_MAX)
          else (case mprotect_pages M tr (prot_flags flags) (page_table_phys t) virt_addr
                      [0..<unat (pages_for sz)] (sh_pt (mm_sh s)) (sh_pmm (mm_sh s)) of
            None \<Rightarrow> None
          | Some (pt, p, ok) \<Rightarrow> Some (set_space pt p s, if ok then 0 else u64_MAX))))"

section \<open>Physical mappings\<close>

definition MAP_READ :: u64 where "MAP_READ = 0x01"
definition MAP_WRITE :: u64 where "MAP_WRITE = 0x02"
definition MAP_EXEC :: u64 where "MAP_EXEC = 0x04"
definition MAP_CACHE_WC :: u64 where "MAP_CACHE_WC = 0x10"
definition MAP_CACHE_UC :: u64 where "MAP_CACHE_UC = 0x20"

definition physical_flags :: "u64 \<Rightarrow> PageTableFlag set" where
  "physical_flags flags =
     {PRESENT, USER_ACCESSIBLE, NO_EXECUTE} \<union> (if flags AND MAP_WRITE \<noteq> 0 then {WRITABLE} else {})
       \<union> (if flags AND MAP_CACHE_WC \<noteq> 0 then {NO_CACHE}
          else if flags AND MAP_CACHE_UC \<noteq> 0 then {NO_CACHE, WRITE_THROUGH} else {})"

fun map_physical_pages ::
  "'pt Mapper \<Rightarrow> PageTableFlag set \<Rightarrow> u64 \<Rightarrow> u64 \<Rightarrow> u64 \<Rightarrow> nat list \<Rightarrow> 'pt \<Rightarrow> Pmm \<Rightarrow> ('pt \<times> Pmm \<times> bool) option" where
  "map_physical_pages M ptf pml4 phys_addr virt_addr [] pt p = Some (pt, p, True)"
| "map_physical_pages M ptf pml4 phys_addr virt_addr (i # rest) pt p =
     (case map_page_in_table M pt p pml4 (virt_addr + of_nat i * 0x1000) (phys_addr + of_nat i * 0x1000) ptf of
        None \<Rightarrow> None
      | Some (pt', p', Err _) \<Rightarrow> Some (pt', p', False)
      | Some (pt', p', Ok _) \<Rightarrow> map_physical_pages M ptf pml4 phys_addr virt_addr rest pt' p')"

definition syscall_map_physical ::
  "'pt Mapper \<Rightarrow> u64 \<Rightarrow> u64 \<Rightarrow> u64 \<Rightarrow> u64 \<Rightarrow> 'pt MemState \<Rightarrow> ('pt MemState \<times> u64) option" where
  "syscall_map_physical M phys_addr virt_addr sz flags s =
     (let k = sh_kernel (mm_sh s); tid = current_task_id k in
      if phys_addr AND 0xFFF \<noteq> 0 \<or> virt_addr AND 0xFFF \<noteq> 0 then Some (s, u64_MAX)
      else if 0x8000000000000000 \<le> virt_addr then Some (s, u64_MAX)
      else if sz = 0 \<or> 256 * 1024 * 1024 < sz then Some (s, u64_MAX)
      else if \<not> has_mmio_access tid phys_addr sz k \<and> \<not> has_framebuffer_access tid phys_addr sz k then Some (s, u64_MAX)
      else (case get_task tid k of
        None \<Rightarrow> Some (s, u64_MAX)
      | Some t \<Rightarrow>
          (case map_physical_pages M (physical_flags flags) (page_table_phys t) phys_addr virt_addr
                  [0..<unat ((sz + 0xFFF) div 0x1000)] (sh_pt (mm_sh s)) (sh_pmm (mm_sh s)) of
             None \<Rightarrow> None
           | Some (pt, p, ok) \<Rightarrow> Some (set_space pt p s, if ok then 0 else u64_MAX))))"

section \<open>Heap statistics\<close>

record KernelHeapStats =
  hs_magic :: u32
  hs_layout_version :: u32
  hs_total_bytes :: u64
  hs_used_bytes :: u64
  hs_free_bytes :: u64
  hs_requested_bytes :: u64
  hs_high_water_bytes :: u64
  hs_alloc_count :: u64
  hs_dealloc_count :: u64

definition HEAP_WALK_MAGIC :: u32 where "HEAP_WALK_MAGIC = 0xF01F4EAB"
definition HEAP_WALK_LAYOUT_VERSION :: u32 where "HEAP_WALK_LAYOUT_VERSION = 1"

text \<open>The status, and the structure written at the buffer; its size, with four reserved zero words, is 96 bytes.\<close>

definition syscall_heap_walk ::
  "u64 \<times> u64 \<times> u64 \<Rightarrow> u64 \<times> u64 \<times> u64 \<times> u64 \<Rightarrow> u64 \<Rightarrow> u64 \<Rightarrow> u64 \<times> (u64 \<times> KernelHeapStats) option" where
  "syscall_heap_walk inner counters buf_ptr buf_max =
     (let needed = 96 :: u64 in
      if buf_max < needed then (u64_MAX, None)
      else if buf_ptr < 0x200000 \<or> USERSPACE_TOP \<le> buf_ptr then (u64_MAX, None)
      else if 2 ^ 64 \<le> unat buf_ptr + unat needed then (u64_MAX, None)
      else if USERSPACE_TOP < buf_ptr + needed then (u64_MAX, None)
      else
        (case (inner, counters) of ((total_b, used_b, free_b), (requested, high_water, allocs, deallocs)) \<Rightarrow>
           (needed, Some (buf_ptr,
              \<lparr> hs_magic = HEAP_WALK_MAGIC, hs_layout_version = HEAP_WALK_LAYOUT_VERSION, hs_total_bytes = total_b,
                hs_used_bytes = used_b, hs_free_bytes = free_b, hs_requested_bytes = requested,
                hs_high_water_bytes = high_water, hs_alloc_count = allocs, hs_dealloc_count = deallocs \<rparr>))))"

end
