(* ===== verification/ShmemLoops.thy ===== *)
theory ShmemLoops
  imports Shmem
begin

text \<open>
  What the loops of shared memory do: allocating and freeing lists of blocks on
  the set of blocks held by clients of the allocator, and mapping and unmapping
  the blocks of a region on the entries of the page tables.  The behaviour of the
  page-table crate that they rely on is the predicate \<open>mapper_laws\<close>.
\<close>

section \<open>Blocks held by clients of the allocator\<close>

definition range_of :: "usize \<times> nat \<Rightarrow> nat set" where
  "range_of b = block_range (fst b) (snd b)"

definition holds :: "Pmm \<Rightarrow> (usize \<times> nat) set \<Rightarrow> bool" where
  "holds p B \<longleftrightarrow> pmm_ok p \<and> (\<forall>b \<in> B. block_ok (hhdm_offset p) (fst b) (snd b) \<and> range_of b \<inter> pmm_avail p = {}) \<and>
     (\<forall>x \<in> B. \<forall>y \<in> B. x \<noteq> y \<longrightarrow> range_of x \<inter> range_of y = {})"

definition blks :: "nat \<Rightarrow> usize list \<Rightarrow> (usize \<times> nat) set" where
  "blks order xs = (\<lambda>a. (a, order)) ` set xs"

lemma blks_simps [simp]: "blks n [] = {}" "blks n (a # xs) = insert (a, n) (blks n xs)"
    "blks n (xs @ ys) = blks n xs \<union> blks n ys" "(a, m) \<in> blks n xs \<longleftrightarrow> m = n \<and> a \<in> set xs"
  by (auto simp: blks_def)

lemma range_of_nonempty: "range_of b \<noteq> {}"
  by (simp add: range_of_def block_range_nonempty)

lemma holds_block: "holds p B \<Longrightarrow> (a, n) \<in> B \<Longrightarrow> block_ok (hhdm_offset p) a n \<and> range_of (a, n) \<inter> pmm_avail p = {}"
  unfolding holds_def by (metis fst_conv snd_conv)

lemma holds_mono: "holds p B \<Longrightarrow> A \<subseteq> B \<Longrightarrow> holds p A"
  unfolding holds_def by blast

lemma holds_alloc:
  assumes "holds p B" "request_order r \<le> MAX_ORDER" "pmm_alloc p r = (p', Some a)"
  shows "holds p' (insert (a, request_order r) B)" "(a, request_order r) \<notin> B"
proof -
  let ?b = "(a, request_order r)"
  have ok: "pmm_ok p" and B: "\<And>b. b \<in> B \<Longrightarrow> range_of b \<inter> pmm_avail p = {}"
    "\<And>b. b \<in> B \<Longrightarrow> block_ok (hhdm_offset p) (fst b) (snd b)"
    "\<And>x y. x \<in> B \<Longrightarrow> y \<in> B \<Longrightarrow> x \<noteq> y \<Longrightarrow> range_of x \<inter> range_of y = {}"
    using assms(1) by (auto simp: holds_def)
  note c = pmm.alloc_some[OF ok assms(2,3)] and v = pmm.alloc_valid[OF ok assms(3)]
  have r: "range_of ?b \<subseteq> pmm_avail p" "pmm_avail p' \<subseteq> pmm_avail p - range_of ?b"
    using c by (simp_all add: range_of_def)
  show "?b \<notin> B" using B(1) r(1) range_of_nonempty by blast
  have apart: "range_of ?b \<inter> range_of y = {}" "range_of y \<inter> pmm_avail p' = {}" if "y \<in> B" for y
    using B(1)[OF that] r by blast+
  have "block_ok (hhdm_offset p') (fst b) (snd b)" if "b \<in> insert ?b B" for b
    using that c B(2) v by (metis fst_conv insert_iff snd_conv)
  then show "holds p' (insert ?b B)"
    unfolding holds_def using c r apart B(3) by (auto simp: Int_commute)
qed

lemma holds_alloc_fails:
  assumes "holds p B" "request_order r \<le> MAX_ORDER" "pmm_alloc p r = (p', None)"
  shows "holds p' B" "pmm_avail p' = pmm_avail p"
proof -
  have ok: "pmm_ok p" using assms(1) by (simp add: holds_def)
  note c = pmm.alloc_none[OF ok assms(2,3)] and v = pmm.alloc_valid[OF ok assms(3)]
  show "pmm_avail p' = pmm_avail p" using c by simp
  then show "holds p' B" using assms(1) c fun_cong[OF fun_cong[OF v]] by (simp add: holds_def)
qed

lemma holds_free:
  assumes "holds p B" "(a, n) \<in> B"
  shows "\<exists>p'. free_pages p a n = Some p' \<and> holds p' (B - {(a, n)}) \<and> pmm_avail p' = pmm_avail p \<union> range_of (a, n)"
proof -
  have h: "pmm_ok p" "block_ok (hhdm_offset p) a n" "block_range a n \<inter> pmm_avail p = {}"
    using assms by (force simp: holds_def range_of_def)+
  obtain p' where p': "free_pages p a n = Some p'" "pmm_ok p'" "pmm_avail p' = pmm_avail p \<union> block_range a n"
    "block_ok (hhdm_offset p') = block_ok (hhdm_offset p)"
    using pmm.release_held[OF h] by auto
  have "range_of b \<inter> pmm_avail p' = {}" if "b \<in> B - {(a, n)}" for b
  proof -
    have "range_of b \<inter> pmm_avail p = {}" "range_of b \<inter> range_of (a, n) = {}"
      using that assms unfolding holds_def by blast+
    then show ?thesis using p'(3) by (auto simp: range_of_def)
  qed
  then have "holds p' (B - {(a, n)})" using assms(1) p'(2,4) by (simp add: holds_def)
  then show ?thesis using p' by (auto simp: range_of_def)
qed

lemma alloc_blocks_holds:
  assumes "alloc_blocks req n p acc = (p', pages, ok)" "holds p B" "request_order req \<le> MAX_ORDER"
    "distinct acc" "blks (request_order req) acc \<subseteq> B"
  obtains new where "pages = acc @ new" "distinct pages" "holds p' (B \<union> blks (request_order req) new)"
    "blks (request_order req) new \<inter> B = {}" "ok \<longleftrightarrow> length new = n" "length new \<le> n"
  using assms
proof (induction n arbitrary: p acc B thesis)
  case 0
  then show ?case using "0.prems"(1)[of "[]"] by simp
next
  case (Suc n)
  let ?o = "request_order req"
  show ?case
  proof (cases "pmm_alloc p req")
    case (Pair p1 x)
    show ?thesis
    proof (cases x)
      case None
      then show ?thesis
        using Suc.prems Pair holds_alloc_fails[of p B req p1] by (intro Suc.prems(1)[of "[]"]) auto
    next
      case (Some a)
      note al = holds_alloc[OF Suc.prems(3,4), of p1 a] and al' = Pair Some
      have d: "distinct (acc @ [a])" "blks ?o (acc @ [a]) \<subseteq> insert (a, ?o) B"
        using Suc.prems(5,6) al(2) al' unfolding blks_def by auto
      have rec: "alloc_blocks req n p1 (acc @ [a]) = (p', pages, ok)" using Suc.prems(2) al' by simp
      obtain new where new: "pages = (acc @ [a]) @ new" "distinct pages" "holds p' (insert (a, ?o) B \<union> blks ?o new)"
        "blks ?o new \<inter> insert (a, ?o) B = {}" "ok \<longleftrightarrow> length new = n" "length new \<le> n"
        using Suc.IH[OF _ rec al(1) Suc.prems(4) d] al' by blast
      then show ?thesis using al(2) al' by (intro Suc.prems(1)[of "a # new"]) auto
    qed
  qed
qed

lemma free_blocks_of_holds:
  assumes "holds p (B \<union> blks n xs)" "distinct xs" "B \<inter> blks n xs = {}"
  shows "\<exists>p'. free_blocks_of p n xs = Some p' \<and> holds p' B \<and>
    pmm_avail p' = pmm_avail p \<union> (\<Union>b \<in> blks n xs. range_of b)"
  using assms
proof (induction xs arbitrary: p)
  case (Cons a xs)
  obtain p1 where p1: "free_pages p a n = Some p1" "holds p1 (B \<union> blks n (a # xs) - {(a, n)})"
    "pmm_avail p1 = pmm_avail p \<union> range_of (a, n)"
    using holds_free[OF Cons.prems(1), of a n] by auto
  have "B \<union> blks n (a # xs) - {(a, n)} = B \<union> blks n xs" using Cons.prems(2,3) by auto
  then show ?case using Cons.IH[of p1] Cons.prems p1 by (auto simp: Un_assoc)
qed simp

section \<open>What the page-table crate documents\<close>

text \<open>The lower half of the address space, whose tables no two tasks share.\<close>

definition user_page :: "usize \<Rightarrow> bool" where
  "user_page v \<longleftrightarrow> v < 0x0000800000000000"

text \<open>
  \<open>leaf pt pml4 z v\<close> is the entry for the page of size \<open>z\<close> at \<open>v\<close> in the table at
  \<open>pml4\<close>: its frame and flags.  Mapping creates that entry when it succeeds and
  none otherwise, and takes only free memory from the allocator; unmapping
  removes the entry.  Nothing else in a lower half changes.
\<close>

type_synonym 'pt leaf = "'pt \<Rightarrow> u64 \<Rightarrow> PageSize \<Rightarrow> usize \<Rightarrow> (usize \<times> PageTableFlag set) option"

definition mapper_laws :: "'pt Mapper \<Rightarrow> 'pt leaf \<Rightarrow> bool" where
  "mapper_laws M leaf \<longleftrightarrow>
     (\<forall>pt p pml4 z v a fl pt' p' ok. map_to M pt p pml4 z v a fl = (pt', p', ok) \<longrightarrow>
        (\<forall>B. holds p B \<longrightarrow> (\<exists>T. holds p' (B \<union> T))) \<and>
        (\<forall>q y w. user_page w \<longrightarrow>
           leaf pt' q y w = (if ok \<and> q = pml4 \<and> y = z \<and> w = v then Some (a, fl) else leaf pt q y w))) \<and>
     (\<forall>pt pml4 z v pt' r. unmap M pt pml4 z v = (pt', r) \<longrightarrow>
        (\<forall>q y w. user_page w \<longrightarrow>
           leaf pt' q y w = (if q = pml4 \<and> y = z \<and> w = v then None else leaf pt q y w)))"

lemma map_to_holds:
  assumes "mapper_laws M leaf" "map_to M pt p pml4 z v a fl = (pt', p', ok)" "holds p B"
  shows "\<exists>T. holds p' (B \<union> T)"
  using assms unfolding mapper_laws_def by blast

lemma map_to_leaf:
  assumes "mapper_laws M leaf" "map_to M pt p pml4 z v a fl = (pt', p', ok)" "user_page w"
  shows "leaf pt' q y w = (if ok \<and> q = pml4 \<and> y = z \<and> w = v then Some (a, fl) else leaf pt q y w)"
  using assms unfolding mapper_laws_def by blast

lemma unmap_leaf:
  assumes "mapper_laws M leaf" "unmap M pt pml4 z v = (pt', r)" "user_page w"
  shows "leaf pt' q y w = (if q = pml4 \<and> y = z \<and> w = v then None else leaf pt q y w)"
  using conjunct2[OF assms(1)[unfolded mapper_laws_def]] assms(2,3) by blast

section \<open>Blocks of a region in an address space\<close>

definition size_of_block :: "bool \<Rightarrow> PageSize" where
  "size_of_block huge = (if huge then Size2MiB else Size4KiB)"

definition bytes_of_block :: "bool \<Rightarrow> usize" where
  "bytes_of_block huge = (if huge then HUGE_PAGE_SIZE else PAGE_SIZE)"

definition size_order :: "PageSize \<Rightarrow> nat" where
  "size_order z = (case z of Size4KiB \<Rightarrow> 0 | Size2MiB \<Rightarrow> 9)"

definition block_at :: "bool \<Rightarrow> usize \<Rightarrow> nat \<Rightarrow> usize" where
  "block_at huge virt i = virt + of_nat i * bytes_of_block huge"

lemma block_size_bytes: "block_size r = bytes_of_block (is_huge r)"
  by (simp add: block_size_def bytes_of_block_def)

lemma bytes_of_block_pow: "bytes_of_block huge = 2 ^ (size_order (size_of_block huge) + 12)"
  by (simp add: bytes_of_block_def size_order_def size_of_block_def HUGE_PAGE_SIZE_def PAGE_SIZE_def)

lemma page_of_take_bit: "page_of z a = a - take_bit (size_order z + 12) a"
proof -
  have "(0xFFF :: usize) = mask 12" "(0x1FFFFF :: usize) = mask 21" by (simp_all add: mask_eq_exp_minus_1)
  then show ?thesis by (cases z) (simp_all only: page_of_def size_order_def PageSize.case and_not_mask_sub, simp_all)
qed

lemma aligned_take_bit: "aligned k a \<longleftrightarrow> take_bit k a = 0"
proof -
  have "unat (take_bit k a) = unat a mod 2 ^ k"
    unfolding unsigned_take_bit_eq unfolding take_bit_eq_mod ..
  then show ?thesis by (auto simp: aligned_def mod_eq_0_iff_dvd simp flip: unat_eq_unat_iff)
qed

lemma aligned_add:
  fixes a b :: "'a::len word"
  assumes "aligned k a" "aligned k b" "k \<le> LENGTH('a)"
  shows "aligned k (a + b)"
  using assms unfolding aligned_def by (simp add: unat_word_ariths dvd_mod le_imp_power_dvd)

lemma block_at_take_bit:
  assumes "virt mod bytes_of_block huge = 0"
  shows "take_bit (size_order (size_of_block huge) + 12) (block_at huge virt i) = 0"
proof -
  let ?k = "size_order (size_of_block huge) + 12"
  have "take_bit ?k virt = 0" using assms by (simp add: bytes_of_block_pow take_bit_eq_mod)
  moreover have "take_bit ?k (of_nat i * bytes_of_block huge) = 0"
    unfolding bytes_of_block_pow push_bit_eq_mult[symmetric] by (simp add: take_bit_push_bit)
  moreover have "?k \<le> 64" by (simp add: size_order_def split: PageSize.split)
  ultimately show ?thesis unfolding block_at_def aligned_take_bit[symmetric] by (simp add: aligned_add)
qed

lemma page_of_block_at:
  "virt mod bytes_of_block huge = 0 \<Longrightarrow> page_of (size_of_block huge) (block_at huge virt i) = block_at huge virt i"
  by (simp only: page_of_take_bit block_at_take_bit) simp

lemma page_of_aligned: "aligned (size_order z + 12) a \<Longrightarrow> page_of z a = a"
  by (simp add: page_of_take_bit aligned_take_bit)

lemma huge_low_bits: "a AND 0x1FFFFF = 0 \<longleftrightarrow> take_bit 21 (a :: usize) = 0"
proof -
  have "(0x1FFFFF :: usize) = mask 21" by (simp add: mask_eq_exp_minus_1)
  then show ?thesis by (simp only: take_bit_eq_mask)
qed

text \<open>Mapping and unmapping one block.\<close>

lemma map_block_leaf:
  assumes "mapper_laws M leaf" "map_block M huge pt p pml4 (block_at huge virt i) a fl = Some (pt', p', r)"
    "virt mod bytes_of_block huge = 0" "aligned (size_order (size_of_block huge) + 12) a" "user_page w"
  shows "leaf pt' q y w =
    (if is_ok r \<and> q = pml4 \<and> y = size_of_block huge \<and> w = block_at huge virt i then Some (a, fl) else leaf pt q y w)"
  using assms map_to_leaf[OF assms(1) _ assms(5)] page_of_block_at[OF assms(3), of i] page_of_aligned[OF assms(4)]
  by (auto simp: map_block_def map_huge_page_in_table_def map_page_in_table_def size_of_block_def
      split: if_splits prod.splits)

lemma map_block_holds:
  assumes "mapper_laws M leaf" "map_block M huge pt p pml4 v a fl = Some (pt', p', r)" "holds p B"
  shows "\<exists>T. holds p' (B \<union> T)"
  using assms map_to_holds[OF assms(1) _ assms(3)]
  by (auto simp: map_block_def map_huge_page_in_table_def map_page_in_table_def split: if_splits prod.splits
      intro: exI[of _ "{}"])

lemma map_block_valid:
  "map_block M huge pt p pml4 v a fl = Some (pt', p', Ok u) \<Longrightarrow> virt_valid M v"
  by (auto simp: map_block_def map_huge_page_in_table_def map_page_in_table_def split: if_splits prod.splits)

lemma unmap_block_leaf:
  assumes "mapper_laws M leaf" "unmap_block M huge pt pml4 (block_at huge virt i) = Some (pt', r)"
    "virt mod bytes_of_block huge = 0" "user_page w"
  shows "leaf pt' q y w =
    (if q = pml4 \<and> y = size_of_block huge \<and> w = block_at huge virt i then None else leaf pt q y w)"
proof -
  have "huge \<Longrightarrow> block_at huge virt i AND 0x1FFFFF = 0"
    unfolding huge_low_bits using block_at_take_bit[OF assms(3), of i] by (simp add: size_order_def size_of_block_def)
  then show ?thesis
    using assms unmap_leaf[OF assms(1) _ assms(4)] page_of_block_at[OF assms(3), of i]
    by (auto simp: unmap_block_def unmap_huge_page_in_table_def unmap_page_in_table_def size_of_block_def
        split: if_splits prod.splits option.splits)
qed

lemma unmap_block_total: "virt_valid M v \<Longrightarrow> \<exists>pt' r. unmap_block M huge pt pml4 v = Some (pt', r)"
  by (auto simp: unmap_block_def unmap_huge_page_in_table_def unmap_page_in_table_def split: prod.splits option.splits)

text \<open>The loops.\<close>

definition touched :: "bool \<Rightarrow> usize \<Rightarrow> nat set \<Rightarrow> u64 \<Rightarrow> u64 \<Rightarrow> PageSize \<Rightarrow> usize \<Rightarrow> bool" where
  "touched huge virt I pml4 q y w \<longleftrightarrow> q = pml4 \<and> y = size_of_block huge \<and> w \<in> block_at huge virt ` I"

lemma clear_blocks_leaf:
  assumes "mapper_laws M leaf" "virt mod bytes_of_block huge = 0" "user_page w"
    "clear_blocks M huge (bytes_of_block huge) pml4 virt is pt = Some pt'"
  shows "leaf pt' q y w = (if touched huge virt (set is) pml4 q y w then None else leaf pt q y w)"
  using assms(4)
proof (induction "is" arbitrary: pt)
  case (Cons i "is")
  then obtain pt1 r where u: "unmap_block M huge pt pml4 (block_at huge virt i) = Some (pt1, r)"
    "clear_blocks M huge (bytes_of_block huge) pml4 virt is pt1 = Some pt'"
    by (auto simp: block_at_def split: option.splits)
  show ?case
    using Cons.IH[OF u(2)] unmap_block_leaf[OF assms(1) u(1) assms(2,3), of q y] by (auto simp: touched_def)
qed (simp add: touched_def)

lemma clear_blocks_total:
  assumes "\<forall>i \<in> set is. virt_valid M (block_at huge virt i)"
  shows "\<exists>pt'. clear_blocks M huge (bytes_of_block huge) pml4 virt is pt = Some pt'"
  using assms
proof (induction "is" arbitrary: pt)
  case (Cons i "is")
  then obtain pt1 r where "unmap_block M huge pt pml4 (block_at huge virt i) = Some (pt1, r)"
    using unmap_block_total by fastforce
  then show ?case using Cons by (auto simp: block_at_def)
qed simp

lemma unmap_blocks_leaf:
  assumes "mapper_laws M leaf" "virt mod bytes_of_block huge = 0" "user_page w"
    "unmap_blocks M huge (bytes_of_block huge) pml4 virt is pt = Some (pt', ok)"
  shows "leaf pt' q y w = leaf pt q y w \<or> leaf pt' q y w = None"
    "ok \<Longrightarrow> touched huge virt (set is) pml4 q y w \<Longrightarrow> leaf pt' q y w = None"
proof -
  have "(leaf pt' q y w = leaf pt q y w \<or> leaf pt' q y w = None) \<and>
      (ok \<longrightarrow> touched huge virt (set is) pml4 q y w \<longrightarrow> leaf pt' q y w = None)"
    using assms(4)
  proof (induction "is" arbitrary: pt)
    case (Cons i "is")
    then obtain pt1 r where u: "unmap_block M huge pt pml4 (block_at huge virt i) = Some (pt1, r)"
      by (auto simp: block_at_def split: option.splits)
    note l = unmap_block_leaf[OF assms(1) u assms(2,3), of q y]
    show ?case
    proof (cases r)
      case (Inl e)
      then show ?thesis using Cons.prems u l by (auto simp: block_at_def)
    next
      case (Inr f)
      then have "unmap_blocks M huge (bytes_of_block huge) pml4 virt is pt1 = Some (pt', ok)"
        using Cons.prems u by (simp add: block_at_def)
      from Cons.IH[OF this] l show ?thesis by (auto simp: touched_def split: if_splits)
    qed
  qed (auto simp: touched_def)
  then show "leaf pt' q y w = leaf pt q y w \<or> leaf pt' q y w = None"
    "ok \<Longrightarrow> touched huge virt (set is) pml4 q y w \<Longrightarrow> leaf pt' q y w = None" by auto
qed

lemma map_blocks_count:
  assumes "map_blocks M huge (bytes_of_block huge) fl pml4 virt n pages pt p = Some (pt', p', m, ok)"
  shows "n \<le> m" "m \<le> n + length pages" "ok \<Longrightarrow> m = n + length pages"
    "n \<le> i \<Longrightarrow> i < m \<Longrightarrow> virt_valid M (block_at huge virt i)"
proof -
  have "n \<le> m \<and> m \<le> n + length pages \<and> (ok \<longrightarrow> m = n + length pages) \<and>
      (\<forall>i. n \<le> i \<longrightarrow> i < m \<longrightarrow> virt_valid M (block_at huge virt i))"
    using assms
  proof (induction pages arbitrary: n pt p)
    case (Cons a pages)
    then obtain pt1 p1 r where u: "map_block M huge pt p pml4 (block_at huge virt n) a fl = Some (pt1, p1, r)"
      by (auto simp: block_at_def split: option.splits)
    show ?case
    proof (cases r)
      case (Inl e)
      then show ?thesis using Cons.prems u by (auto simp: block_at_def)
    next
      case (Inr x)
      then have "map_blocks M huge (bytes_of_block huge) fl pml4 virt (Suc n) pages pt1 p1 = Some (pt', p', m, ok)"
        using Cons.prems u by (simp add: block_at_def)
      note ih = Cons.IH[OF this]
      have v: "virt_valid M (block_at huge virt n)" by (rule map_block_valid[OF u[unfolded Inr]])
      have "virt_valid M (block_at huge virt i)" if "n \<le> i" "i < m" for i
        using that ih v by (cases "i = n") auto
      then show ?thesis using ih by auto
    qed
  qed simp
  then show "n \<le> m" "m \<le> n + length pages" "ok \<Longrightarrow> m = n + length pages"
    "n \<le> i \<Longrightarrow> i < m \<Longrightarrow> virt_valid M (block_at huge virt i)" by auto
qed

lemma map_blocks_leaf:
  assumes "mapper_laws M leaf" "virt mod bytes_of_block huge = 0" "user_page w"
    "\<forall>a \<in> set pages. aligned (size_order (size_of_block huge) + 12) a"
    "map_blocks M huge (bytes_of_block huge) fl pml4 virt n pages pt p = Some (pt', p', m, ok)"
  shows "leaf pt' q y w = leaf pt q y w \<or>
    (\<exists>i. n \<le> i \<and> i < m \<and> q = pml4 \<and> y = size_of_block huge \<and> w = block_at huge virt i \<and>
       leaf pt' q y w = Some (pages ! (i - n), fl))"
  using assms(4,5)
proof (induction pages arbitrary: n pt p)
  case (Cons a pages)
  then obtain pt1 p1 r where u: "map_block M huge pt p pml4 (block_at huge virt n) a fl = Some (pt1, p1, r)"
    by (auto simp: block_at_def split: option.splits)
  have l: "leaf pt1 q y w =
      (if is_ok r \<and> q = pml4 \<and> y = size_of_block huge \<and> w = block_at huge virt n then Some (a, fl) else leaf pt q y w)"
    using Cons.prems(1) by (intro map_block_leaf[OF assms(1) u assms(2) _ assms(3)]) simp
  show ?case
  proof (cases r)
    case (Inl e)
    then show ?thesis using Cons.prems u l by (auto simp: block_at_def)
  next
    case (Inr x)
    then have b: "map_blocks M huge (bytes_of_block huge) fl pml4 virt (Suc n) pages pt1 p1 = Some (pt', p', m, ok)"
      using Cons.prems(2) u by (simp add: block_at_def)
    then have "n < m" by (rule map_blocks_count(1)[THEN Suc_le_lessD])
    from Cons.IH[OF _ b] Cons.prems(1) consider "leaf pt' q y w = leaf pt1 q y w"
      | i where "Suc n \<le> i" "i < m" "q = pml4" "y = size_of_block huge" "w = block_at huge virt i"
          "leaf pt' q y w = Some (pages ! (i - Suc n), fl)" by auto
    then show ?thesis
    proof cases
      case 1
      then show ?thesis using l Inr \<open>n < m\<close> by (cases "q = pml4 \<and> y = size_of_block huge \<and> w = block_at huge virt n") auto
    next
      case 2
      then show ?thesis by (intro disjI2 exI[of _ i]) (auto simp: nth_Cons')
    qed
  qed
qed simp

lemma map_blocks_holds:
  assumes "mapper_laws M leaf" "map_blocks M huge bsize fl pml4 virt n pages pt p = Some (pt', p', m, ok)" "holds p B"
  shows "\<exists>T. holds p' (B \<union> T)"
  using assms(2,3)
proof (induction pages arbitrary: n pt p B)
  case Nil
  then show ?case by (intro exI[of _ "{}"]) simp
next
  case (Cons a pages)
  then obtain pt1 p1 r where u: "map_block M huge pt p pml4 (virt + of_nat n * bsize) a fl = Some (pt1, p1, r)"
    by (auto split: option.splits)
  obtain T where T: "holds p1 (B \<union> T)" using map_block_holds[OF assms(1) u Cons.prems(2)] by blast
  show ?case
  proof (cases r)
    case (Inl e)
    then show ?thesis using Cons.prems u T by auto
  next
    case (Inr x)
    then have "map_blocks M huge bsize fl pml4 virt (Suc n) pages pt1 p1 = Some (pt', p', m, ok)"
      using Cons.prems(1) u by simp
    from Cons.IH[OF this T] obtain T' where "holds p' (B \<union> T \<union> T')" by blast
    then show ?thesis by (intro exI[of _ "T \<union> T'"]) (simp add: Un_assoc)
  qed
qed

end
