(* ===== verification/ShmemInv.thy ===== *)
theory ShmemInv
  imports ShmemLoops
begin

text \<open>
  The invariant of shared memory and its preservation by every operation.  It
  follows the memory: which blocks are held by regions and by everyone else, and
  which region and which recorded mapping stands behind every entry of a live
  task.
\<close>

section \<open>The invariant\<close>

definition region_blocks :: "SharedMemory \<Rightarrow> (usize \<times> nat) set" where
  "region_blocks r = blks (unat (sm_block_order r)) (sm_phys_pages r)"

abbreviation region_at :: "SharedMemory \<Rightarrow> usize \<Rightarrow> nat \<Rightarrow> usize" where
  "region_at r \<equiv> block_at (is_huge r)"

definition mapping_ok :: "'pt Mapper \<Rightarrow> SharedMemory \<Rightarrow> usize \<Rightarrow> bool" where
  "mapping_ok M r base \<longleftrightarrow> base mod block_size r = 0 \<and> (\<forall>i < length (sm_phys_pages r). virt_valid M (region_at r base i))"

definition region_wf :: "'pt Mapper \<Rightarrow> SharedMemory \<Rightarrow> bool" where
  "region_wf M r \<longleftrightarrow> distinct (sm_phys_pages r) \<and> sm_block_order r \<in> {0, HUGE_PAGE_ORDER} \<and>
     (\<forall>t base. (t, base) \<in> set (sm_mappings r) \<longrightarrow> mapping_ok M r base)"

definition table_blocks :: "(u32 \<Rightarrow> SharedMemory option) \<Rightarrow> (usize \<times> nat) set" where
  "table_blocks tbl = (\<Union>r \<in> ran tbl. region_blocks r)"

text \<open>The entry of task \<open>t\<close> is behind a recorded mapping of a region.\<close>

definition recorded :: "SharedMemory \<Rightarrow> TaskId \<Rightarrow> PageSize \<Rightarrow> usize \<Rightarrow> usize \<Rightarrow> bool" where
  "recorded r t z w a \<longleftrightarrow> (\<exists>base i. (t, base) \<in> set (sm_mappings r) \<and> i < length (sm_phys_pages r) \<and>
     z = size_of_block (is_huge r) \<and> w = region_at r base i \<and> a = sm_phys_pages r ! i)"

text \<open>\<open>Oth\<close> is the memory held by the other clients of the allocator.\<close>

definition backed ::
  "(usize \<times> nat) set \<Rightarrow> (u32 \<Rightarrow> SharedMemory option) \<Rightarrow> TaskId \<Rightarrow> PageSize \<Rightarrow> usize \<Rightarrow> usize \<Rightarrow> bool" where
  "backed Oth tbl t z w a \<longleftrightarrow>
     (\<exists>i r. tbl i = Some r \<and> recorded r t z w a) \<or> (\<exists>b \<in> Oth. block_range a (size_order z) \<subseteq> range_of b)"

definition live_entry :: "'pt leaf \<Rightarrow> Kernel \<Rightarrow> 'pt \<Rightarrow> TaskId \<Rightarrow> PageSize \<Rightarrow> usize \<Rightarrow> usize \<Rightarrow> bool" where
  "live_entry leaf k pt t z w a \<longleftrightarrow> user_page w \<and>
     (\<exists>T fl. get_task t k = Some T \<and> page_table_phys T \<noteq> 0 \<and> leaf pt (page_table_phys T) z w = Some (a, fl))"

definition spaces_ok :: "Kernel \<Rightarrow> bool" where
  "spaces_ok k \<longleftrightarrow> (\<forall>t T. get_task t k = Some T \<longrightarrow> task_id T = t) \<and>
     (\<forall>t t' T T'. get_task t k = Some T \<and> get_task t' k = Some T' \<and> page_table_phys T = page_table_phys T' \<and>
        page_table_phys T \<noteq> 0 \<longrightarrow> t = t')"

text \<open>
  The entries in \<open>X\<close> do not count: those of a task that is on its way out, or those of a mapping that
  is not recorded yet.
\<close>

definition core ::
  "'pt Mapper \<Rightarrow> 'pt leaf \<Rightarrow> (usize \<times> nat) set \<Rightarrow> (TaskId \<times> PageSize \<times> usize) set
    \<Rightarrow> (u32 \<Rightarrow> SharedMemory option) \<Rightarrow> Kernel \<Rightarrow> 'pt \<Rightarrow> bool"
where
  "core M leaf Oth X tbl k pt \<longleftrightarrow>
     holds (pmm k) (Oth \<union> table_blocks tbl) \<and> Oth \<inter> table_blocks tbl = {} \<and>
     (\<forall>i r. tbl i = Some r \<longrightarrow> region_wf M r) \<and>
     (\<forall>i j r r'. tbl i = Some r \<longrightarrow> tbl j = Some r' \<longrightarrow> i \<noteq> j \<longrightarrow> region_blocks r \<inter> region_blocks r' = {}) \<and>
     spaces_ok k \<and>
     (\<forall>t z w a. live_entry leaf k pt t z w a \<longrightarrow> (t, z, w) \<notin> X \<longrightarrow> backed Oth tbl t z w a)"

lemma coreI:
  assumes "holds (pmm k) (Oth \<union> table_blocks tbl)" "Oth \<inter> table_blocks tbl = {}"
    "\<And>i r. tbl i = Some r \<Longrightarrow> region_wf M r"
    "\<And>i j r r'. tbl i = Some r \<Longrightarrow> tbl j = Some r' \<Longrightarrow> i \<noteq> j \<Longrightarrow> region_blocks r \<inter> region_blocks r' = {}"
    "spaces_ok k" "\<And>t z w a. live_entry leaf k pt t z w a \<Longrightarrow> (t, z, w) \<notin> X \<Longrightarrow> backed Oth tbl t z w a"
  shows "core M leaf Oth X tbl k pt"
  unfolding core_def using assms by (intro conjI allI impI) assumption+

lemma coreD:
  assumes "core M leaf Oth X tbl k pt"
  shows "holds (pmm k) (Oth \<union> table_blocks tbl)" "Oth \<inter> table_blocks tbl = {}"
    "tbl i = Some r \<Longrightarrow> region_wf M r"
    "tbl i = Some r \<Longrightarrow> tbl j = Some r' \<Longrightarrow> i \<noteq> j \<Longrightarrow> region_blocks r \<inter> region_blocks r' = {}"
    "spaces_ok k" "live_entry leaf k pt t z w a \<Longrightarrow> (t, z, w) \<notin> X \<Longrightarrow> backed Oth tbl t z w a"
  using assms unfolding core_def by (elim conjE, simp)+

lemma kernel_pmm [simp]: "get_task t (k\<lparr> pmm := p \<rparr>) = get_task t k" "spaces_ok (k\<lparr> pmm := p \<rparr>) = spaces_ok k"
    "live_entry leaf (k\<lparr> pmm := p \<rparr>) pt = live_entry leaf k pt"
    "current_task (k\<lparr> pmm := p \<rparr>) = current_task k"
  by (simp_all add: get_task_def spaces_ok_def live_entry_def current_task_def fun_eq_iff)

lemma region_blocks_table: "tbl i = Some r \<Longrightarrow> region_blocks r \<subseteq> table_blocks tbl"
  by (auto simp: table_blocks_def ran_def)

lemma table_blocks_iff: "b \<in> table_blocks tbl \<longleftrightarrow> (\<exists>i r. tbl i = Some r \<and> b \<in> region_blocks r)"
  by (auto simp: table_blocks_def ran_def)

lemma region_order:
  assumes "region_wf M r"
  shows "unat (sm_block_order r) = size_order (size_of_block (is_huge r))"
  using assms by (auto simp: region_wf_def is_huge_def size_of_block_def size_order_def HUGE_PAGE_ORDER_def)

lemma recorded_block:
  assumes "recorded r t z w a" "region_wf M r"
  shows "(a, size_order z) \<in> region_blocks r"
  using assms region_order[OF assms(2)] by (auto simp: recorded_def region_blocks_def)

text \<open>Entries stay backed when regions keep their records or their blocks pass to other owners.\<close>

lemma backed_mono:
  assumes "backed Oth tbl t z w a" "Oth \<subseteq> Oth'" "\<And>i r. tbl i = Some r \<Longrightarrow> region_wf M r"
    "\<And>i r. tbl i = Some r \<Longrightarrow> recorded r t z w a \<Longrightarrow>
       (\<exists>j r'. tbl' j = Some r' \<and> recorded r' t z w a) \<or> region_blocks r \<subseteq> Oth'"
  shows "backed Oth' tbl' t z w a"
proof -
  from assms(1) consider i r where "tbl i = Some r" "recorded r t z w a"
    | b where "b \<in> Oth" "block_range a (size_order z) \<subseteq> range_of b" unfolding backed_def by blast
  then show ?thesis
  proof cases
    case 1
    then have "(a, size_order z) \<in> region_blocks r" using recorded_block assms(3) by blast
    moreover have "block_range a (size_order z) = range_of (a, size_order z)" by (simp add: range_of_def)
    ultimately show ?thesis using assms(4)[OF 1] unfolding backed_def by blast
  next
    case 2
    then show ?thesis using assms(2) unfolding backed_def by blast
  qed
qed

section \<open>Every operation keeps the invariant\<close>

lemma table_blocks_split: "tbl i = Some r \<Longrightarrow> table_blocks tbl = region_blocks r \<union> table_blocks (tbl(i := None))"
proof -
  assume i: "tbl i = Some r"
  have "b \<in> table_blocks tbl \<longleftrightarrow> b \<in> region_blocks r \<or> b \<in> table_blocks (tbl(i := None))" for b
  proof
    assume "b \<in> table_blocks tbl"
    then obtain j r' where "tbl j = Some r'" "b \<in> region_blocks r'" by (auto simp: table_blocks_iff)
    then show "b \<in> region_blocks r \<or> b \<in> table_blocks (tbl(i := None))"
      using i unfolding table_blocks_iff by (cases "j = i") (auto intro!: exI[of _ j])
  next
    assume "b \<in> region_blocks r \<or> b \<in> table_blocks (tbl(i := None))"
    then show "b \<in> table_blocks tbl" using i unfolding table_blocks_iff by (auto split: if_splits)
  qed
  then show ?thesis by blast
qed

lemma table_blocks_insert: "table_blocks (tbl(i \<mapsto> r)) = region_blocks r \<union> table_blocks (tbl(i := None))"
  using table_blocks_split[of "tbl(i \<mapsto> r)" i r] by simp

lemma core_apart:
  assumes "core M leaf Oth X tbl k pt" "tbl i = Some r"
  shows "region_blocks r \<inter> table_blocks (tbl(i := None)) = {}"
  using coreD(4)[OF assms(1,2)] by (fastforce simp: table_blocks_iff split: if_splits)

lemma core_other_pmm:
  assumes "core M leaf Oth X tbl k pt" "holds p (Oth \<union> table_blocks tbl \<union> N)"
  shows "core M leaf (Oth \<union> (N - table_blocks tbl)) X tbl (k\<lparr> pmm := p \<rparr>) pt"
proof (rule coreI)
  have "Oth \<union> (N - table_blocks tbl) \<union> table_blocks tbl = Oth \<union> table_blocks tbl \<union> N" by blast
  then show "holds (pmm (k\<lparr> pmm := p \<rparr>)) (Oth \<union> (N - table_blocks tbl) \<union> table_blocks tbl)"
    using assms(2) by simp
  show "(Oth \<union> (N - table_blocks tbl)) \<inter> table_blocks tbl = {}" using coreD(2)[OF assms(1)] by blast
  show "spaces_ok (k\<lparr> pmm := p \<rparr>)" using coreD(5)[OF assms(1)] by simp
  fix t z w a
  assume "live_entry leaf (k\<lparr> pmm := p \<rparr>) pt t z w a" "(t, z, w) \<notin> X"
  then have b: "backed Oth tbl t z w a" using coreD(6)[OF assms(1)] by simp
  show "backed (Oth \<union> (N - table_blocks tbl)) tbl t z w a"
    by (rule backed_mono[OF b _ coreD(3)[OF assms(1)]]) auto
qed (fact coreD(3)[OF assms(1)], fact coreD(4)[OF assms(1)])

lemma core_insert_region:
  assumes c: "core M leaf Oth X tbl k pt"
    and h: "holds p (Oth \<union> table_blocks tbl \<union> region_blocks r)" "region_blocks r \<inter> (Oth \<union> table_blocks tbl) = {}"
    and r: "region_wf M r"
  shows "\<exists>Oth'. core M leaf Oth' X (tbl(i \<mapsto> r)) (k\<lparr> pmm := p \<rparr>) pt"
proof -
  let ?old = "case tbl i of None \<Rightarrow> {} | Some r0 \<Rightarrow> region_blocks r0" and ?tbl = "tbl(i \<mapsto> r)"
  let ?rest = "table_blocks (tbl(i := None))"
  have split: "table_blocks tbl = ?old \<union> ?rest" "?old \<inter> ?rest = {}"
  proof -
    have "tbl i = None \<Longrightarrow> tbl(i := None) = tbl" by (rule ext) simp
    then show "table_blocks tbl = ?old \<union> ?rest"
      using table_blocks_split[of tbl i] by (cases "tbl i") auto
    show "?old \<inter> ?rest = {}" using core_apart[OF c, of i] by (cases "tbl i") auto
  qed
  have "core M leaf (Oth \<union> ?old) X ?tbl (k\<lparr> pmm := p \<rparr>) pt"
  proof (rule coreI)
    show "holds (pmm (k\<lparr> pmm := p \<rparr>)) (Oth \<union> ?old \<union> table_blocks ?tbl)"
      using h(1) unfolding split(1) table_blocks_insert by (simp add: Un_ac)
    show "(Oth \<union> ?old) \<inter> table_blocks ?tbl = {}"
      using h(2) split(2) coreD(2)[OF c] unfolding split(1) table_blocks_insert by blast
    show "region_wf M r'" if "?tbl j = Some r'" for j r' using that r coreD(3)[OF c] by (auto split: if_splits)
    have new: "region_blocks r \<inter> region_blocks r' = {}" if "tbl j = Some r'" for j r'
      using h(2) region_blocks_table[of tbl j r', OF that] by blast
    show "region_blocks r1 \<inter> region_blocks r2 = {}" if "?tbl j1 = Some r1" "?tbl j2 = Some r2" "j1 \<noteq> j2" for j1 j2 r1 r2
      using that coreD(4)[OF c, of j1 r1 j2 r2] new by (cases "j1 = i"; cases "j2 = i") auto
    show "spaces_ok (k\<lparr> pmm := p \<rparr>)" using coreD(5)[OF c] by simp
    fix t z w a
    assume "live_entry leaf (k\<lparr> pmm := p \<rparr>) pt t z w a" "(t, z, w) \<notin> X"
    then have b: "backed Oth tbl t z w a" using coreD(6)[OF c] by simp
    show "backed (Oth \<union> ?old) ?tbl t z w a"
    proof (rule backed_mono[OF b _ coreD(3)[OF c]])
      fix j r'
      assume "tbl j = Some r'" "recorded r' t z w a"
      then show "(\<exists>j r'. ?tbl j = Some r' \<and> recorded r' t z w a) \<or> region_blocks r' \<subseteq> Oth \<union> ?old"
        by (cases "j = i") (auto intro!: exI[of _ j])
    qed auto
  qed
  then show ?thesis by blast
qed

text \<open>A region whose lists of tasks and mappings change, while the entries of live tasks only vanish.\<close>

lemma core_modify:
  assumes c: "core M leaf Oth X tbl k pt"
    and same: "\<And>i. map_option sm_phys_pages (tbl' i) = map_option sm_phys_pages (tbl i)"
      "\<And>i. map_option sm_block_order (tbl' i) = map_option sm_block_order (tbl i)"
    and ok: "\<And>i r. tbl' i = Some r \<Longrightarrow> region_wf M r"
    and entries: "\<And>t z w a. live_entry leaf k pt' t z w a \<Longrightarrow> (t, z, w) \<notin> X' \<Longrightarrow> backed Oth tbl' t z w a"
  shows "core M leaf Oth X' tbl' k pt'"
proof (rule coreI)
  have blocks: "map_option region_blocks (tbl' i) = map_option region_blocks (tbl i)" for i
    using same[of i] by (cases "tbl i"; cases "tbl' i") (auto simp: region_blocks_def)
  have corr: "\<exists>r. tbl i = Some r \<and> region_blocks r = region_blocks r'" if "tbl' i = Some r'" for i r'
    using blocks[of i] that by (cases "tbl i") auto
  have corr': "\<exists>r'. tbl' i = Some r' \<and> region_blocks r' = region_blocks r" if "tbl i = Some r" for i r
    using blocks[of i] that by (cases "tbl' i") auto
  have "table_blocks tbl' = table_blocks tbl"
    by (intro set_eqI) (metis table_blocks_iff corr corr')
  then show "holds (pmm k) (Oth \<union> table_blocks tbl')" "Oth \<inter> table_blocks tbl' = {}"
    using coreD(1,2)[OF c] by simp_all
  show "region_blocks r1 \<inter> region_blocks r2 = {}" if "tbl' i = Some r1" "tbl' j = Some r2" "i \<noteq> j" for i j r1 r2
    using corr[OF that(1)] corr[OF that(2)] coreD(4)[OF c] that(3) by metis
qed (fact ok, fact coreD(5)[OF c], fact entries)

definition sh_ok :: "'pt Mapper \<Rightarrow> 'pt leaf \<Rightarrow> (TaskId \<times> PageSize \<times> usize) set \<Rightarrow> 'pt ShmemState \<Rightarrow> bool" where
  "sh_ok M leaf X s \<longleftrightarrow> (\<exists>Oth. core M leaf Oth X (sh_table s) (sh_kernel s) (sh_pt s))"

lemma set_pmm_simps [simp]:
  "sh_table (set_pmm p s) = sh_table s" "sh_pt (set_pmm p s) = sh_pt s" "sh_next_id (set_pmm p s) = sh_next_id s"
  "sh_kernel (set_pmm p s) = (sh_kernel s)\<lparr> pmm := p \<rparr>"
  by (simp_all add: set_pmm_def)

lemma sh_ok_pmm:
  assumes "core M leaf Oth X (sh_table s) (sh_kernel s) (sh_pt s)" "holds p (Oth \<union> table_blocks (sh_table s) \<union> N)"
    "sh_table s' = sh_table s" "sh_kernel s' = (sh_kernel s)\<lparr> pmm := p \<rparr>" "sh_pt s' = sh_pt s"
  shows "sh_ok M leaf X s'"
  using core_other_pmm[OF assms(1,2)] assms(3-5) by (auto simp: sh_ok_def)

lemma alloc_region_blocks:
  assumes "core M leaf Oth X (sh_table s) (sh_kernel s) (sh_pt s)" "alloc_blocks req n (sh_pmm s) [] = (p, pages, ok)"
    "request_order req \<le> MAX_ORDER"
  shows "holds p (Oth \<union> table_blocks (sh_table s) \<union> blks (request_order req) pages)" "distinct pages"
    "blks (request_order req) pages \<inter> (Oth \<union> table_blocks (sh_table s)) = {}"
    "\<exists>p'. free_blocks_of p (request_order req) pages = Some p' \<and> holds p' (Oth \<union> table_blocks (sh_table s))"
proof -
  let ?B = "Oth \<union> table_blocks (sh_table s)"
  obtain new where "pages = [] @ new" "distinct pages" "holds p (?B \<union> blks (request_order req) new)"
    "blks (request_order req) new \<inter> ?B = {}"
    by (rule alloc_blocks_holds[OF assms(2) coreD(1)[OF assms(1)] assms(3)]) auto
  then show h: "holds p (?B \<union> blks (request_order req) pages)" "distinct pages"
    "blks (request_order req) pages \<inter> ?B = {}" by simp_all
  show "\<exists>p'. free_blocks_of p (request_order req) pages = Some p' \<and> holds p' ?B"
    using free_blocks_of_holds[OF h(1,2)] h(3) by blast
qed

lemma new_region_wf: "distinct pages \<Longrightarrow> order \<in> {0, HUGE_PAGE_ORDER} \<Longrightarrow> region_wf M (new_region sid pages order sz perms c)"
  by (simp add: region_wf_def new_region_def)

lemma new_region_blocks: "region_blocks (new_region sid pages order sz perms c) = blks (unat order) pages"
  by (simp add: region_blocks_def new_region_def)

lemma sh_ok_insert:
  assumes "core M leaf Oth X (sh_table s) (sh_kernel s) (sh_pt s)"
    "holds p (Oth \<union> table_blocks (sh_table s) \<union> blks (unat order) pages)"
    "blks (unat order) pages \<inter> (Oth \<union> table_blocks (sh_table s)) = {}" "distinct pages" "order \<in> {0, HUGE_PAGE_ORDER}"
    "sh_table s' = (sh_table s)(i \<mapsto> new_region sid pages order sz perms c)"
    "sh_kernel s' = (sh_kernel s)\<lparr> pmm := p \<rparr>" "sh_pt s' = sh_pt s"
  shows "sh_ok M leaf X s'"
  using core_insert_region[OF assms(1), of p "new_region sid pages order sz perms c" i] assms(2-8)
  by (simp add: sh_ok_def new_region_blocks new_region_wf)

lemma orders [simp]: "unat HUGE_PAGE_ORDER = 9" "(9 :: nat) \<le> MAX_ORDER"
  by (simp_all add: HUGE_PAGE_ORDER_def MAX_ORDER_def)

text \<open>Creating a region keeps the invariant, whatever its result, and does not panic.\<close>

lemma shmem_create_ok:
  assumes "sh_ok M leaf X s" "current_task (sh_kernel s) \<noteq> None"
  shows "\<exists>s' r. shmem_create sz perms s = Some (s', r) \<and> sh_ok M leaf X s'"
proof (cases "sz = 0")
  case True
  then show ?thesis using assms by (simp add: shmem_create_def)
next
  case False
  obtain Oth where c: "core M leaf Oth X (sh_table s) (sh_kernel s) (sh_pt s)" using assms(1) by (auto simp: sh_ok_def)
  obtain t where t: "current_task (sh_kernel s) = Some t" using assms(2) by auto
  define n where "n = (sz + PAGE_SIZE - 1) div PAGE_SIZE"
  obtain p pages ok where a: "alloc_blocks Page (unat n) (sh_pmm s) [] = (p, pages, ok)" by (metis prod_cases3)
  note h = alloc_region_blocks[OF c a, simplified]
  show ?thesis
  proof (cases ok)
    case False
    obtain p' where p': "free_blocks_of p 0 pages = Some p'" "holds p' (Oth \<union> table_blocks (sh_table s))" using h(4) by blast
    have "sh_ok M leaf X (set_pmm p' s)" by (rule sh_ok_pmm[OF c, of p' "{}"]) (simp_all add: p'(2))
    then show ?thesis using \<open>sz \<noteq> 0\<close> a False p'(1) unfolding shmem_create_def Let_def n_def by simp
  next
    case True
    let ?s1 = "(set_pmm p s)\<lparr> sh_next_id := sh_next_id s + 1 \<rparr>"
    have "sh_ok M leaf X ?s1" by (rule sh_ok_pmm[OF c h(1)]) simp_all
    moreover have "sh_ok M leaf X (?s1\<lparr> sh_table := (sh_table ?s1)(sh_next_id s \<mapsto>
        new_region (sh_next_id s) pages 0 (n * PAGE_SIZE) perms (task_id t)) \<rparr>)"
      by (rule sh_ok_insert[OF c, where order = 0]) (use h in simp_all)
    ultimately show ?thesis
      using \<open>sz \<noteq> 0\<close> a True t unfolding shmem_create_def Let_def n_def by auto
  qed
qed

lemma shmem_create_huge_ok:
  assumes "sh_ok M leaf X s" "current_task (sh_kernel s) \<noteq> None"
  shows "\<exists>s' r. shmem_create_huge sz perms s = Some (s', r) \<and> sh_ok M leaf X s'"
proof (cases "sz = 0")
  case True
  then show ?thesis using assms by (simp add: shmem_create_huge_def)
next
  case False
  obtain Oth where c: "core M leaf Oth X (sh_table s) (sh_kernel s) (sh_pt s)" using assms(1) by (auto simp: sh_ok_def)
  obtain t where t: "current_task (sh_kernel s) = Some t" using assms(2) by auto
  define n where "n = (sz + HUGE_PAGE_SIZE - 1) div HUGE_PAGE_SIZE"
  obtain p pages ok where a: "alloc_blocks (Pages (unat HUGE_PAGE_ORDER)) (unat n) (sh_pmm s) [] = (p, pages, ok)"
    by (metis prod_cases3)
  note h = alloc_region_blocks[OF c a, simplified]
  obtain p' where p': "free_blocks_of p 9 pages = Some p'" "holds p' (Oth \<union> table_blocks (sh_table s))" using h(4) by blast
  show ?thesis
  proof (cases ok)
    case False
    have "sh_ok M leaf X (set_pmm p' s)" by (rule sh_ok_pmm[OF c, of p' "{}"]) (simp_all add: p'(2))
    moreover have "current_task (sh_kernel (set_pmm p' s)) \<noteq> None" using assms(2) by simp
    ultimately show ?thesis
      using shmem_create_ok[of M leaf X "set_pmm p' s" sz perms] \<open>sz \<noteq> 0\<close> a False p'(1)
      unfolding shmem_create_huge_def Let_def n_def by simp
  next
    case True
    let ?s1 = "(set_pmm p s)\<lparr> sh_next_id := sh_next_id s + 1 \<rparr>"
    have "sh_ok M leaf X (set_pmm p' ?s1)" by (rule sh_ok_pmm[OF c, of p' "{}"]) (simp_all add: p'(2))
    moreover have "sh_ok M leaf X (?s1\<lparr> sh_table := (sh_table ?s1)(sh_next_id s \<mapsto>
        new_region (sh_next_id s) pages HUGE_PAGE_ORDER (n * HUGE_PAGE_SIZE) perms (task_id t)) \<rparr>)"
      by (rule sh_ok_insert[OF c, where order = HUGE_PAGE_ORDER]) (use h in simp_all)
    ultimately show ?thesis
      using \<open>sz \<noteq> 0\<close> a True t p'(1) unfolding shmem_create_huge_def Let_def n_def by auto
  qed
qed

text \<open>The entries that mapping the first \<open>m\<close> blocks of a region at \<open>virt\<close> may create.\<close>

definition entries_at :: "TaskId \<Rightarrow> SharedMemory \<Rightarrow> usize \<Rightarrow> nat \<Rightarrow> (TaskId \<times> PageSize \<times> usize) set" where
  "entries_at t r virt m = {t} \<times> {size_of_block (is_huge r)} \<times> region_at r virt ` {..<m}"

lemma core_page_aligned:
  assumes "core M leaf Oth X tbl k pt" "tbl i = Some r" "a \<in> set (sm_phys_pages r)"
  shows "aligned (size_order (size_of_block (is_huge r)) + 12) a"
proof -
  have "(a, unat (sm_block_order r)) \<in> table_blocks tbl"
    using assms(2,3) by (auto simp: table_blocks_iff region_blocks_def)
  then have "block_ok (hhdm_offset (pmm k)) a (unat (sm_block_order r))"
    using holds_block[OF coreD(1)[OF assms(1)]] by simp
  then show ?thesis using region_order[OF coreD(3)[OF assms(1,2)]] by (simp add: block_ok_def)
qed

lemma live_entryI:
  assumes "user_page w" "get_task t k = Some T" "page_table_phys T \<noteq> 0" "leaf pt (page_table_phys T) z w = Some (a, f)"
  shows "live_entry leaf k pt t z w a"
  using assms unfolding live_entry_def by blast

lemma map_entries:
  assumes c: "core M leaf Oth X tbl k pt" and laws: "mapper_laws M leaf" and r: "tbl i = Some r"
    and al: "virt mod block_size r = 0" and t: "get_task (task_id T) k = Some T" "page_table_phys T \<noteq> 0"
    and m: "map_blocks M (is_huge r) (block_size r) fl (page_table_phys T) virt 0 (sm_phys_pages r) pt p = Some (pt', p', n, ok)"
    and e: "live_entry leaf k pt' t z w a"
  shows "live_entry leaf k pt t z w a \<or>
    (t = task_id T \<and> z = size_of_block (is_huge r) \<and> (\<exists>i < n. w = region_at r virt i \<and> a = sm_phys_pages r ! i))"
proof -
  from e obtain T' f where T': "user_page w" "get_task t k = Some T'" "page_table_phys T' \<noteq> 0"
    "leaf pt' (page_table_phys T') z w = Some (a, f)" unfolding live_entry_def by blast
  have "leaf pt' (page_table_phys T') z w = leaf pt (page_table_phys T') z w \<or>
      (\<exists>i. 0 \<le> i \<and> i < n \<and> page_table_phys T' = page_table_phys T \<and> z = size_of_block (is_huge r) \<and> w = region_at r virt i \<and>
        leaf pt' (page_table_phys T') z w = Some (sm_phys_pages r ! (i - 0), fl))"
    using al m core_page_aligned[OF c r] T'(1) unfolding block_size_bytes
    by (intro map_blocks_leaf[OF laws]) auto
  moreover have "page_table_phys T' = page_table_phys T \<Longrightarrow> t = task_id T"
    using coreD(5)[OF c] T'(2,3) t unfolding spaces_ok_def by metis
  ultimately show ?thesis
    using T'(4) live_entryI[OF T'(1-3), of leaf pt z a f] by (metis diff_zero option.inject prod.inject)
qed

lemma core_clear:
  assumes c: "core M leaf Oth (X \<union> entries_at t r virt m) tbl k pt" and laws: "mapper_laws M leaf"
    and al: "virt mod block_size r = 0" and t: "\<And>T. get_task t k = Some T \<Longrightarrow> page_table_phys T = pml4"
    and cl: "clear_blocks M (is_huge r) (block_size r) pml4 virt [0..<m] pt = Some pt'"
  shows "core M leaf Oth X tbl k pt'"
proof (rule core_modify[OF c])
  fix t' z w a
  assume e: "live_entry leaf k pt' t' z w a" and x: "(t', z, w) \<notin> X"
  obtain T f where T: "user_page w" "get_task t' k = Some T" "page_table_phys T \<noteq> 0"
    "leaf pt' (page_table_phys T) z w = Some (a, f)" using e unfolding live_entry_def by blast
  have l: "leaf pt' (page_table_phys T) z w =
      (if touched (is_huge r) virt (set [0..<m]) pml4 (page_table_phys T) z w then None else leaf pt (page_table_phys T) z w)"
    using al cl unfolding block_size_bytes by (intro clear_blocks_leaf[OF laws _ T(1)])
  then have nt: "\<not> touched (is_huge r) virt (set [0..<m]) pml4 (page_table_phys T) z w"
    and "leaf pt (page_table_phys T) z w = Some (a, f)" using T(4) by (metis option.distinct(1))+
  then have "live_entry leaf k pt t' z w a" by (intro live_entryI[OF T(1-3)])
  moreover have "(t', z, w) \<notin> entries_at t r virt m"
    using nt t T(2) by (auto simp: entries_at_def touched_def)
  ultimately show "backed Oth tbl t' z w a" using coreD(6)[OF c] x by blast
qed (use coreD(3)[OF c] in auto)

lemma current_task_id:
  assumes "core M leaf Oth X tbl k pt" "current_task k = Some T"
  shows "get_task (task_id T) k = Some T"
  using assms coreD(5)[OF assms(1)] unfolding spaces_ok_def current_task_def by metis

text \<open>The first half of a mapping: its entries are the only ones that no record stands behind.\<close>

definition installed ::
  "'pt Mapper \<Rightarrow> 'pt leaf \<Rightarrow> (TaskId \<times> PageSize \<times> usize) set \<Rightarrow> u32 \<Rightarrow> usize \<Rightarrow> SharedMemory \<Rightarrow> Task \<Rightarrow> nat
    \<Rightarrow> 'pt ShmemState \<Rightarrow> bool" where
  "installed M leaf X sid virt r T m s \<longleftrightarrow>
     sh_table s sid = Some r \<and> virt mod block_size r = 0 \<and> m = length (sm_phys_pages r) \<and>
     get_task (task_id T) (sh_kernel s) = Some T \<and> (\<forall>i < m. virt_valid M (region_at r virt i)) \<and>
     (\<exists>Oth. core M leaf Oth (X \<union> entries_at (task_id T) r virt m) (sh_table s) (sh_kernel s) (sh_pt s) \<and>
        (\<forall>t z w a. live_entry leaf (sh_kernel s) (sh_pt s) t z w a \<longrightarrow> (t, z, w) \<notin> X \<longrightarrow> backed Oth (sh_table s) t z w a \<or>
           (t = task_id T \<and> z = size_of_block (is_huge r) \<and> (\<exists>i < m. w = region_at r virt i \<and> a = sm_phys_pages r ! i))))"

lemma shmem_map_install_ok:
  assumes ok: "sh_ok M leaf X s" and laws: "mapper_laws M leaf"
    and i: "shmem_map_install M sid virt s = Some (s', res)"
  shows "sh_table s' = sh_table s" "res = Err e \<Longrightarrow> sh_ok M leaf X s'"
    "res = Ok (r, T, m) \<Longrightarrow> installed M leaf X sid virt r T m s'"
proof -
  obtain Oth where c: "core M leaf Oth X (sh_table s) (sh_kernel s) (sh_pt s)" using ok by (auto simp: sh_ok_def)
  have "sh_table s' = sh_table s \<and> (\<forall>e. res = Err e \<longrightarrow> sh_ok M leaf X s') \<and>
      (\<forall>r T m. res = Ok (r, T, m) \<longrightarrow> installed M leaf X sid virt r T m s')"
  proof (cases "s' = s \<and> (\<exists>e. res = Err e)")
    case True
    then show ?thesis using ok by auto
  next
    case False
    then obtain r T where r: "sh_table s sid = Some r" "virt mod block_size r = 0"
      and T: "current_task (sh_kernel s) = Some T" "page_table_phys T \<noteq> 0" "task_id T \<in> set (sm_tasks r)"
      using i by (auto simp: shmem_map_install_def Let_def split: option.splits if_splits)
    let ?fl = "convert_page_flags (perm_flags (sm_perms r))"
    obtain pt p m fin where b: "map_blocks M (is_huge r) (block_size r) ?fl (page_table_phys T) virt 0 (sm_phys_pages r)
        (sh_pt s) (sh_pmm s) = Some (pt, p, m, fin)"
      using i r T by (auto simp: shmem_map_install_def Let_def split: option.splits)
    note g = current_task_id[OF c T(1)] and cnt = map_blocks_count[OF b[unfolded block_size_bytes]]
    obtain N where N: "holds p (Oth \<union> table_blocks (sh_table s) \<union> N)"
      using map_blocks_holds[OF laws b coreD(1)[OF c]] by blast
    note c1 = core_other_pmm[OF c N] and e = map_entries[OF c laws r g T(2) b]
    let ?k = "(sh_kernel s)\<lparr> pmm := p \<rparr>" and ?X = "X \<union> entries_at (task_id T) r virt m"
    let ?Oth = "Oth \<union> (N - table_blocks (sh_table s))"
    have ent: "backed ?Oth (sh_table s) t z w a \<or>
        (t = task_id T \<and> z = size_of_block (is_huge r) \<and> (\<exists>i < m. w = region_at r virt i \<and> a = sm_phys_pages r ! i))"
      if "live_entry leaf ?k pt t z w a" "(t, z, w) \<notin> X" for t z w a
      using e[of t z w a] coreD(6)[OF c1, of t z w a] that by auto
    have c2: "core M leaf ?Oth ?X (sh_table s) ?k pt"
    proof (rule core_modify[OF c1])
      fix t z w a
      assume "live_entry leaf ?k pt t z w a" "(t, z, w) \<notin> ?X"
      then show "backed ?Oth (sh_table s) t z w a" using ent[of t z w a] by (auto simp: entries_at_def)
    qed (use coreD(3)[OF c] in auto)
    show ?thesis
    proof (cases fin)
      case True
      then have res: "res = Ok (r, T, m)" "s' = (set_pmm p s)\<lparr> sh_pt := pt \<rparr>"
        using i r T b by (simp_all add: shmem_map_install_def Let_def)
      have k: "sh_kernel s' = ?k" "sh_pt s' = pt" "sh_table s' = sh_table s" using res(2) by simp_all
      have "installed M leaf X sid virt r T m s'"
        unfolding installed_def k
      proof (intro conjI exI[of _ ?Oth] allI impI)
        show "m = length (sm_phys_pages r)" using cnt(3) True by simp
        show "virt_valid M (region_at r virt i)" if "i < m" for i using cnt(4)[of i] that by simp
        show "get_task (task_id T) ?k = Some T" using g by simp
      qed (fact r c2 ent)+
      then show ?thesis using res by auto
    next
      case False
      then obtain pt' where cl: "clear_blocks M (is_huge r) (block_size r) (page_table_phys T) virt [0..<m] pt = Some pt'"
        and res: "res = Err ShMapFailed" "s' = (set_pmm p s)\<lparr> sh_pt := pt' \<rparr>"
        using i r T b by (auto simp: shmem_map_install_def Let_def split: option.splits)
      have "core M leaf ?Oth X (sh_table s) ?k pt'" using g by (intro core_clear[OF c2 laws r(2) _ cl]) simp
      then show ?thesis using res by (auto simp: sh_ok_def)
    qed
  qed
  then show "sh_table s' = sh_table s" "res = Err e \<Longrightarrow> sh_ok M leaf X s'"
    "res = Ok (r, T, m) \<Longrightarrow> installed M leaf X sid virt r T m s'" by blast+
qed

lemma block_size_order: "sm_block_order r' = sm_block_order r \<Longrightarrow> block_size r' = block_size r"
    "sm_block_order r' = sm_block_order r \<Longrightarrow> is_huge r' = is_huge r"
  by (simp_all add: block_size_def is_huge_def)

lemma recorded_mono:
  assumes "recorded r t z w a" "set (sm_mappings r) \<subseteq> set (sm_mappings r')" "sm_phys_pages r' = sm_phys_pages r"
    "sm_block_order r' = sm_block_order r"
  shows "recorded r' t z w a"
  using assms(1) subsetD[OF assms(2)] unfolding recorded_def assms(3) block_size_order(2)[OF assms(4)] by blast

lemma region_wf_subset:
  assumes "region_wf M r" "set (sm_mappings r') \<subseteq> set (sm_mappings r)" "sm_phys_pages r' = sm_phys_pages r"
    "sm_block_order r' = sm_block_order r"
  shows "region_wf M r'"
proof -
  have m: "mapping_ok M r' = mapping_ok M r"
    unfolding mapping_ok_def block_size_order[OF assms(4)] assms(3) ..
  show ?thesis
    using assms(1) subsetD[OF assms(2)] unfolding region_wf_def m assms(3,4) by blast
qed

text \<open>Replacing one region by one with the same blocks.\<close>

lemma core_replace:
  assumes c: "core M leaf Oth X tbl k pt" and r: "tbl i = Some r"
    and same: "sm_phys_pages r' = sm_phys_pages r" "sm_block_order r' = sm_block_order r" and ok: "region_wf M r'"
    and entries: "\<And>t z w a. live_entry leaf k pt' t z w a \<Longrightarrow> (t, z, w) \<notin> X' \<Longrightarrow> backed Oth (tbl(i \<mapsto> r')) t z w a"
  shows "core M leaf Oth X' (tbl(i \<mapsto> r')) k pt'"
  by (rule core_modify[OF c]) (use r same ok entries coreD(3)[OF c] in \<open>auto split: if_splits\<close>)

lemma backed_replace:
  assumes c: "core M leaf Oth X tbl k pt" and b: "backed Oth tbl t z w a" and r: "tbl i = Some r"
    and r': "recorded r t z w a \<Longrightarrow> recorded r' t z w a"
  shows "backed Oth (tbl(i \<mapsto> r')) t z w a"
proof (rule backed_mono[OF b order_refl coreD(3)[OF c]])
  fix j q
  assume "tbl j = Some q" "recorded q t z w a"
  then show "(\<exists>j r'a. (tbl(i \<mapsto> r')) j = Some r'a \<and> recorded r'a t z w a) \<or> region_blocks q \<subseteq> Oth"
    using r r' by (intro disjI1 exI[of _ j]) (cases "j = i"; auto)
qed

text \<open>The second half of a mapping, when the region is still there and when it is gone.\<close>

lemma shmem_map_commit_ok:
  assumes inst: "installed M leaf X sid virt r T m s" and cm: "shmem_map_commit M sid virt (r, T, m) s = Some (s', res)"
  shows "sh_ok M leaf X s'"
proof -
  have r: "sh_table s sid = Some r" "virt mod block_size r = 0" "m = length (sm_phys_pages r)"
    "\<And>i. i < m \<Longrightarrow> virt_valid M (region_at r virt i)" using inst unfolding installed_def by blast+
  obtain Oth where c: "core M leaf Oth (X \<union> entries_at (task_id T) r virt m) (sh_table s) (sh_kernel s) (sh_pt s)"
    and ent: "\<And>t z w a. live_entry leaf (sh_kernel s) (sh_pt s) t z w a \<Longrightarrow> (t, z, w) \<notin> X \<Longrightarrow> backed Oth (sh_table s) t z w a \<or>
      (t = task_id T \<and> z = size_of_block (is_huge r) \<and> (\<exists>i < m. w = region_at r virt i \<and> a = sm_phys_pages r ! i))"
    using inst unfolding installed_def by blast
  let ?r = "r\<lparr> sm_mappings := sm_mappings r @ [(task_id T, virt)] \<rparr>"
  have "core M leaf Oth X ((sh_table s)(sid \<mapsto> ?r)) (sh_kernel s) (sh_pt s)"
  proof (rule core_replace[OF c r(1)])
    have "mapping_ok M ?r = mapping_ok M r" "mapping_ok M r virt"
      using r(2-4) by (simp_all add: mapping_ok_def block_size_def is_huge_def fun_eq_iff)
    then show "region_wf M ?r" using coreD(3)[OF c r(1)] by (auto simp: region_wf_def)
    fix t z w a
    assume e: "live_entry leaf (sh_kernel s) (sh_pt s) t z w a" and x: "(t, z, w) \<notin> X"
    from ent[OF e x] show "backed Oth ((sh_table s)(sid \<mapsto> ?r)) t z w a"
    proof
      assume b: "backed Oth (sh_table s) t z w a"
      show ?thesis by (rule backed_replace[OF c b r(1)]) (erule recorded_mono; simp add: subset_iff)
    next
      assume "t = task_id T \<and> z = size_of_block (is_huge r) \<and> (\<exists>i < m. w = region_at r virt i \<and> a = sm_phys_pages r ! i)"
      then have "recorded ?r t z w a" unfolding r(3) recorded_def is_huge_def by auto
      then show ?thesis unfolding backed_def by (metis fun_upd_same)
    qed
  qed simp_all
  moreover have "s' = s\<lparr> sh_table := (sh_table s)(sid \<mapsto> ?r) \<rparr>" using cm r(1) by (simp add: shmem_map_commit_def)
  ultimately show ?thesis by (auto simp: sh_ok_def)
qed

lemma shmem_map_ok:
  assumes ok: "sh_ok M leaf X s" and laws: "mapper_laws M leaf" and m: "shmem_map M sid virt s = Some (s', res)"
  shows "sh_ok M leaf X s'"
proof -
  obtain s1 res1 where i: "shmem_map_install M sid virt s = Some (s1, res1)"
    using m by (auto simp: shmem_map_def split: option.splits)
  note inst = shmem_map_install_ok[OF ok laws i]
  show ?thesis
  proof (cases res1)
    case (Inl e)
    then show ?thesis using inst(2)[of e] i m by (simp add: shmem_map_def)
  next
    case (Inr x)
    obtain r T n where x: "x = (r, T, n)" by (cases x)
    then have "shmem_map_commit M sid virt (r, T, n) s1 = Some (s', res)" using m i Inr by (simp add: shmem_map_def)
    then show ?thesis using shmem_map_commit_ok inst(3)[of r T n] Inr x by blast
  qed
qed

lemma shmem_map_commit_gone:
  assumes ok: "sh_ok M leaf (X \<union> entries_at (task_id T) r virt m) s" and laws: "mapper_laws M leaf"
    and gone: "sh_table s sid = None" and al: "virt mod block_size r = 0"
    and v: "\<forall>i < m. virt_valid M (region_at r virt i)"
    and t: "\<And>T'. get_task (task_id T) (sh_kernel s) = Some T' \<Longrightarrow> page_table_phys T' = page_table_phys T"
  shows "\<exists>s'. shmem_map_commit M sid virt (r, T, m) s = Some (s', Err ShInvalidId) \<and> sh_ok M leaf X s'"
proof -
  obtain Oth where c: "core M leaf Oth (X \<union> entries_at (task_id T) r virt m) (sh_table s) (sh_kernel s) (sh_pt s)"
    using ok by (auto simp: sh_ok_def)
  obtain pt' where cl: "clear_blocks M (is_huge r) (block_size r) (page_table_phys T) virt [0..<m] (sh_pt s) = Some pt'"
    using clear_blocks_total[of "[0..<m]" M "is_huge r" virt] v unfolding block_size_bytes by fastforce
  have "core M leaf Oth X (sh_table s) (sh_kernel s) pt'" by (rule core_clear[OF c laws al t cl])
  then show ?thesis using gone cl by (auto simp: shmem_map_commit_def sh_ok_def)
qed

lemma mappings_filter_ok:
  assumes "core M leaf Oth X tbl k pt" "tbl i = Some r"
  shows "region_wf M (r\<lparr> sm_mappings := filter P (sm_mappings r) \<rparr>)"
  by (rule region_wf_subset[OF coreD(3)[OF assms]]) auto

lemma shmem_unmap_ok:
  assumes ok: "sh_ok M leaf X s" and laws: "mapper_laws M leaf" and u: "shmem_unmap M sid virt s = Some (s', res)"
  shows "sh_ok M leaf X s'"
proof -
  obtain Oth where c: "core M leaf Oth X (sh_table s) (sh_kernel s) (sh_pt s)" using ok by (auto simp: sh_ok_def)
  show ?thesis
  proof (cases "s' = s")
    case False
    then obtain r T where r: "sh_table s sid = Some r" "virt mod block_size r = 0"
      and T: "current_task (sh_kernel s) = Some T" "page_table_phys T \<noteq> 0"
      using u by (auto simp: shmem_unmap_def Let_def split: option.splits if_splits)
    obtain pt fin where b: "unmap_blocks M (is_huge r) (block_size r) (page_table_phys T) virt [0..<length (sm_phys_pages r)] (sh_pt s)
        = Some (pt, fin)"
      and s': "s' = (if fin then s\<lparr> sh_pt := pt, sh_table := (sh_table s)(sid \<mapsto> r\<lparr> sm_mappings :=
          filter (\<lambda>(t', v). \<not> (t' = task_id T \<and> v = virt)) (sm_mappings r) \<rparr>) \<rparr> else s\<lparr> sh_pt := pt \<rparr>)"
      using u r T by (auto simp: shmem_unmap_def Let_def split: option.splits bool.splits)
    let ?r = "r\<lparr> sm_mappings := filter (\<lambda>(t', v). \<not> (t' = task_id T \<and> v = virt)) (sm_mappings r) \<rparr>"
    note l = unmap_blocks_leaf[OF laws r(2)[unfolded block_size_bytes] _ b[unfolded block_size_bytes]]
    have old: "live_entry leaf (sh_kernel s) (sh_pt s) t z w a" if "live_entry leaf (sh_kernel s) pt t z w a" for t z w a
      using that l(1) unfolding live_entry_def by (metis option.distinct(1))
    have "core M leaf Oth X (sh_table s) (sh_kernel s) pt"
      by (rule core_modify[OF c]) (use coreD(3)[OF c] coreD(6)[OF c] old in auto)
    moreover have "core M leaf Oth X ((sh_table s)(sid \<mapsto> ?r)) (sh_kernel s) pt" if fin
    proof (rule core_replace[OF c r(1)])
      show "region_wf M ?r" by (rule mappings_filter_ok[OF c r(1)])
      fix t z w a
      assume e: "live_entry leaf (sh_kernel s) pt t z w a" and x: "(t, z, w) \<notin> X"
      show "backed Oth ((sh_table s)(sid \<mapsto> ?r)) t z w a"
      proof (rule backed_replace[OF c coreD(6)[OF c old[OF e] x] r(1)])
        assume "recorded r t z w a"
        then obtain base i where m: "(t, base) \<in> set (sm_mappings r)" "i < length (sm_phys_pages r)"
          "z = size_of_block (is_huge r)" "w = region_at r base i" "a = sm_phys_pages r ! i" by (auto simp: recorded_def)
        have "\<not> (t = task_id T \<and> base = virt)"
        proof
          assume tb: "t = task_id T \<and> base = virt"
          then have "user_page w" and "\<exists>f. leaf pt (page_table_phys T) z w = Some (a, f)"
            using e current_task_id[OF c T(1)] unfolding live_entry_def by auto
          moreover have "touched (is_huge r) virt (set [0..<length (sm_phys_pages r)]) (page_table_phys T) (page_table_phys T) z w"
            using m tb by (auto simp: touched_def)
          ultimately show False using l(2)[of w] that by auto
        qed
        then show "recorded ?r t z w a" using m unfolding recorded_def is_huge_def by auto
      qed
    qed simp_all
    ultimately show ?thesis using s' by (auto simp: sh_ok_def)
  qed (use ok in simp)
qed

text \<open>Clearing all recorded mappings of a region.\<close>

lemma clear_mappings_of_leaf:
  assumes laws: "mapper_laws M leaf" and w: "user_page w"
    and ok: "\<forall>t base. (t, base) \<in> set ms \<longrightarrow> base mod bytes_of_block huge = 0 \<and> (\<forall>i < n. virt_valid M (block_at huge base i))"
  shows "\<exists>pt'. clear_mappings_of M k huge (bytes_of_block huge) n ms pt = Some pt' \<and>
    (\<forall>q y. leaf pt' q y w = leaf pt q y w \<or> leaf pt' q y w = None) \<and>
    (\<forall>t base T y. (t, base) \<in> set ms \<longrightarrow> get_task t k = Some T \<longrightarrow> page_table_phys T \<noteq> 0 \<longrightarrow>
       touched huge base {..<n} (page_table_phys T) (page_table_phys T) y w \<longrightarrow> leaf pt' (page_table_phys T) y w = None)"
  using ok
proof (induction ms arbitrary: pt)
  case (Cons m ms)
  obtain t base where m: "m = (t, base)" by force
  have al: "base mod bytes_of_block huge = 0" and v: "\<forall>i \<in> set [0..<n]. virt_valid M (block_at huge base i)"
    using Cons.prems m by auto
  have IH: "\<exists>pt'. clear_mappings_of M k huge (bytes_of_block huge) n ms pt1 = Some pt' \<and>
    (\<forall>q y. leaf pt' q y w = leaf pt1 q y w \<or> leaf pt' q y w = None) \<and>
    (\<forall>t base T y. (t, base) \<in> set ms \<longrightarrow> get_task t k = Some T \<longrightarrow> page_table_phys T \<noteq> 0 \<longrightarrow>
       touched huge base {..<n} (page_table_phys T) (page_table_phys T) y w \<longrightarrow> leaf pt' (page_table_phys T) y w = None)" for pt1
    using Cons.prems by (intro Cons.IH) simp
  show ?case
  proof (cases "get_task t k")
    case None
    then show ?thesis using IH[of pt] m by auto
  next
    case (Some T)
    show ?thesis
    proof (cases "page_table_phys T = 0")
      case True
      then show ?thesis using IH[of pt] m Some by auto
    next
      case False
      obtain pt1 where pt1: "clear_blocks M huge (bytes_of_block huge) (page_table_phys T) base [0..<n] pt = Some pt1"
        using clear_blocks_total[OF v] by blast
      note l = clear_blocks_leaf[OF laws al w pt1]
      obtain pt' where pt': "clear_mappings_of M k huge (bytes_of_block huge) n ms pt1 = Some pt'"
        "\<And>q y. leaf pt' q y w = leaf pt1 q y w \<or> leaf pt' q y w = None"
        "\<And>t base T y. (t, base) \<in> set ms \<Longrightarrow> get_task t k = Some T \<Longrightarrow> page_table_phys T \<noteq> 0 \<Longrightarrow>
           touched huge base {..<n} (page_table_phys T) (page_table_phys T) y w \<Longrightarrow> leaf pt' (page_table_phys T) y w = None"
        using IH[of pt1] by blast
      have "leaf pt' (page_table_phys T) y w = None"
        if "touched huge base {..<n} (page_table_phys T) (page_table_phys T) y w" for y
        using that pt'(2)[of "page_table_phys T" y] l[of "page_table_phys T" y] by (auto simp: lessThan_atLeast0)
      moreover have "leaf pt' q y w = leaf pt q y w \<or> leaf pt' q y w = None" for q y
        using pt'(2)[of q y] l[of q y] by (auto split: if_splits)
      ultimately show ?thesis using Some False m pt1 pt' by auto
    qed
  qed
qed simp

text \<open>Releasing a region of a table \<open>V\<close> that lists it, whether or not the kernel's table still does.\<close>

lemma user_page_zero: "user_page 0"
  by (simp add: user_page_def)

lemma release_region_ok:
  assumes c: "core M leaf Oth X V (sh_kernel s) (sh_pt s)" and laws: "mapper_laws M leaf" and r: "V i = Some r"
  shows "\<exists>s' p. release_region M r s = Some s' \<and> core M leaf Oth X (V(i := None)) (sh_kernel s') (sh_pt s') \<and>
    sh_table s' = sh_table s \<and> sh_kernel s' = (sh_kernel s)\<lparr> pmm := p \<rparr>"
proof -
  let ?k = "sh_kernel s" and ?B = "Oth \<union> table_blocks (V(i := None))" and ?n = "length (sm_phys_pages r)"
  have rok: "region_wf M r" by (rule coreD(3)[OF c r])
  then have ms: "\<forall>t base. (t, base) \<in> set (sm_mappings r) \<longrightarrow> base mod bytes_of_block (is_huge r) = 0 \<and>
      (\<forall>i < ?n. virt_valid M (region_at r base i))"
    by (simp add: region_wf_def mapping_ok_def block_size_bytes)
  note cl = clear_mappings_of_leaf[OF laws _ ms, of _ ?k "sh_pt s"]
  obtain pt' where pt': "clear_mappings M ?k r (sh_pt s) = Some pt'"
    using cl[OF user_page_zero] by (auto simp: clear_mappings_def block_size_bytes)
  have gone: "leaf pt' q y w = leaf (sh_pt s) q y w \<or> leaf pt' q y w = None"
    "(t, base) \<in> set (sm_mappings r) \<Longrightarrow> get_task t ?k = Some T \<Longrightarrow> page_table_phys T \<noteq> 0 \<Longrightarrow>
      touched (is_huge r) base {..<?n} (page_table_phys T) (page_table_phys T) y w \<Longrightarrow> leaf pt' (page_table_phys T) y w = None"
    if "user_page w" for q y w t base T
    using cl[OF that] pt' unfolding clear_mappings_def block_size_bytes by auto
  have b: "region_blocks r = blks (unat (sm_block_order r)) (sm_phys_pages r)" by (simp add: region_blocks_def)
  have "holds (sh_pmm s) (?B \<union> blks (unat (sm_block_order r)) (sm_phys_pages r))"
    using coreD(1)[OF c] unfolding table_blocks_split[of V, OF r] b by (simp add: Un_ac)
  moreover have dist: "distinct (sm_phys_pages r)" using rok by (simp add: region_wf_def)
  moreover have "?B \<inter> blks (unat (sm_block_order r)) (sm_phys_pages r) = {}"
    using core_apart[OF c r] coreD(2)[OF c] region_blocks_table[of V i r, OF r] unfolding b by blast
  ultimately obtain p where p: "free_blocks_of (sh_pmm s) (unat (sm_block_order r)) (sm_phys_pages r) = Some p" "holds p ?B"
    using free_blocks_of_holds by blast
  have "core M leaf Oth X (V(i := None)) (?k\<lparr> pmm := p \<rparr>) pt'"
  proof (rule coreI)
    show "Oth \<inter> table_blocks (V(i := None)) = {}" using coreD(2)[OF c] unfolding table_blocks_split[of V, OF r] by blast
    show "region_wf M r'" if "(V(i := None)) j = Some r'" for j r' using that coreD(3)[OF c] by (auto split: if_splits)
    show "region_blocks r1 \<inter> region_blocks r2 = {}" if "(V(i := None)) j1 = Some r1" "(V(i := None)) j2 = Some r2" "j1 \<noteq> j2"
      for j1 j2 r1 r2 using that coreD(4)[OF c, of j1 r1 j2 r2] by (auto split: if_splits)
    fix t z w a
    assume e: "live_entry leaf (?k\<lparr> pmm := p \<rparr>) pt' t z w a" and x: "(t, z, w) \<notin> X"
    then obtain T f where T: "user_page w" "get_task t ?k = Some T" "page_table_phys T \<noteq> 0"
      "leaf pt' (page_table_phys T) z w = Some (a, f)" unfolding live_entry_def by auto
    then have "live_entry leaf ?k (sh_pt s) t z w a"
      using gone(1)[OF T(1), of "page_table_phys T" z] by (intro live_entryI[OF T(1-3), where f = f]) auto
    then have bk: "backed Oth V t z w a" using coreD(6)[OF c] x by blast
    show "backed Oth (V(i := None)) t z w a"
    proof (rule backed_mono[OF bk order_refl coreD(3)[OF c]])
      fix j q
      assume q: "V j = Some q" "recorded q t z w a"
      have "j \<noteq> i"
      proof
        assume "j = i"
        then obtain base n where m: "(t, base) \<in> set (sm_mappings r)" "n < ?n" "z = size_of_block (is_huge r)"
          "w = region_at r base n" using q r by (auto simp: recorded_def)
        then have "touched (is_huge r) base {..<?n} (page_table_phys T) (page_table_phys T) z w" by (auto simp: touched_def)
        then show False using gone(2)[OF T(1) m(1) T(2,3)] T(4) by simp
      qed
      then show "(\<exists>j r'. (V(i := None)) j = Some r' \<and> recorded r' t z w a) \<or> region_blocks q \<subseteq> Oth"
        using q by (intro disjI1 exI[of _ j]) simp
    qed
  qed (use p(2) coreD(5)[OF c] in simp_all)
  then show ?thesis using pt' p(1) by (auto simp: release_region_def)
qed

lemma shmem_destroy_ok:
  assumes ok: "sh_ok M leaf X s" and laws: "mapper_laws M leaf" and cur: "current_task (sh_kernel s) \<noteq> None"
  shows "\<exists>s' res. shmem_destroy M sid s = Some (s', res) \<and> sh_ok M leaf X s' \<and>
    (\<exists>p. sh_kernel s' = (sh_kernel s)\<lparr> pmm := p \<rparr>) \<and> (is_ok res \<longrightarrow> sh_table s' = (sh_table s)(sid := None))"
proof -
  obtain Oth where c: "core M leaf Oth X (sh_table s) (sh_kernel s) (sh_pt s)" using ok by (auto simp: sh_ok_def)
  obtain T where T: "current_task (sh_kernel s) = Some T" using cur by auto
  have self: "\<exists>p. sh_kernel s = (sh_kernel s)\<lparr> pmm := p \<rparr>" by (rule exI[of _ "sh_pmm s"]) simp
  show ?thesis
  proof (cases "sh_table s sid")
    case None
    then show ?thesis using ok self by (simp add: shmem_destroy_def)
  next
    case (Some r)
    show ?thesis
    proof (cases "task_id T \<in> set (sm_tasks r)")
      case False
      then show ?thesis using ok self Some T by (simp add: shmem_destroy_def)
    next
      case True
      let ?s = "s\<lparr> sh_table := (sh_table s)(sid := None) \<rparr>"
      have "core M leaf Oth X (sh_table s) (sh_kernel ?s) (sh_pt ?s)" using c by simp
      then obtain s' p where "release_region M r ?s = Some s'" "core M leaf Oth X ((sh_table s)(sid := None)) (sh_kernel s') (sh_pt s')"
        "sh_table s' = sh_table ?s" "sh_kernel s' = (sh_kernel ?s)\<lparr> pmm := p \<rparr>"
        using release_region_ok[of M leaf Oth X "sh_table s" ?s, OF _ laws Some] by blast
      then show ?thesis using Some T True by (auto simp: shmem_destroy_def sh_ok_def)
    qed
  qed
qed

text \<open>Granting and revoking only change the list of tasks.\<close>

lemma core_tasks:
  assumes c: "core M leaf Oth X tbl k pt" and r: "tbl i = Some r"
  shows "core M leaf Oth X (tbl(i \<mapsto> r\<lparr> sm_tasks := ts \<rparr>)) k pt"
proof (rule core_replace[OF c r])
  show "region_wf M (r\<lparr> sm_tasks := ts \<rparr>)" by (rule region_wf_subset[OF coreD(3)[OF c r]]) simp_all
  fix t z w a
  assume "live_entry leaf k pt t z w a" "(t, z, w) \<notin> X"
  then have b: "backed Oth tbl t z w a" by (rule coreD(6)[OF c])
  show "backed Oth (tbl(i \<mapsto> r\<lparr> sm_tasks := ts \<rparr>)) t z w a"
    by (rule backed_replace[OF c b r]) (erule recorded_mono; simp)
qed simp_all

lemma shmem_grant_ok:
  "sh_ok M leaf X s \<Longrightarrow> shmem_grant sid task s = Some (s', res) \<Longrightarrow> sh_ok M leaf X s'"
  by (auto simp: shmem_grant_def sh_ok_def split: option.splits if_splits intro!: exI core_tasks)

lemma shmem_revoke_ok:
  "sh_ok M leaf X s \<Longrightarrow> shmem_revoke sid task s = Some (s', res) \<Longrightarrow> sh_ok M leaf X s'"
  by (auto simp: shmem_revoke_def sh_ok_def split: option.splits if_splits intro!: exI core_tasks)

section \<open>Task exit\<close>

definition all_entries :: "TaskId \<Rightarrow> (TaskId \<times> PageSize \<times> usize) set" where
  "all_entries tid = {tid} \<times> UNIV"

definition without_task :: "TaskId \<Rightarrow> SharedMemory \<Rightarrow> SharedMemory" where
  "without_task tid r = r\<lparr> sm_mappings := filter (\<lambda>(t, _). t \<noteq> tid) (sm_mappings r) \<rparr>"

lemma without_task_simps [simp]:
  "sm_phys_pages (without_task tid r) = sm_phys_pages r" "sm_block_order (without_task tid r) = sm_block_order r"
  "set (sm_mappings (without_task tid r)) \<subseteq> set (sm_mappings r)"
  "sm_phys_pages (drop_task tid r) = sm_phys_pages r" "sm_block_order (drop_task tid r) = sm_block_order r"
  "sm_mappings (drop_task tid r) = sm_mappings (without_task tid r)"
  by (auto simp: without_task_def drop_task_def)

lemma recorded_without_task:
  assumes "recorded r t z w a" "t \<noteq> tid" "sm_phys_pages r' = sm_phys_pages r" "sm_block_order r' = sm_block_order r"
    "sm_mappings r' = sm_mappings (without_task tid r)"
  shows "recorded r' t z w a"
  using assms block_size_order(2)[OF assms(4)] unfolding recorded_def by (auto simp: without_task_def)

text \<open>The table while the regions of the exiting task are torn down.\<close>

definition leaving :: "TaskId \<Rightarrow> (u32 \<Rightarrow> SharedMemory option) \<Rightarrow> u32 \<Rightarrow> SharedMemory option" where
  "leaving tid tbl i = map_option (\<lambda>r. if created_by tid r then without_task tid r else drop_task tid r) (tbl i)"

lemma core_leaving:
  assumes c: "core M leaf Oth X tbl k pt"
  shows "core M leaf Oth (X \<union> all_entries tid) (leaving tid tbl) k pt"
proof (rule core_modify[OF c])
  show "region_wf M r" if l: "leaving tid tbl i = Some r" for i r
  proof -
    obtain r0 where "tbl i = Some r0" "r = (if created_by tid r0 then without_task tid r0 else drop_task tid r0)"
      using l by (cases "tbl i") (auto simp: leaving_def)
    then show ?thesis by (intro region_wf_subset[OF coreD(3)[OF c, of i r0]]) simp_all
  qed
  fix t z w a
  assume "live_entry leaf k pt t z w a" and x: "(t, z, w) \<notin> X \<union> all_entries tid"
  then have b: "backed Oth tbl t z w a" using coreD(6)[OF c] by blast
  have t: "t \<noteq> tid" using x by (auto simp: all_entries_def)
  show "backed Oth (leaving tid tbl) t z w a"
  proof (rule backed_mono[OF b order_refl coreD(3)[OF c]])
    fix i r
    assume i: "tbl i = Some r" "recorded r t z w a"
    have "recorded (if created_by tid r then without_task tid r else drop_task tid r) t z w a"
      by (rule recorded_without_task[OF i(2) t]) simp_all
    then show "(\<exists>j r'. leaving tid tbl j = Some r' \<and> recorded r' t z w a) \<or> region_blocks r \<subseteq> Oth"
      using i(1) by (intro disjI1 exI[of _ i]) (auto simp: leaving_def)
  qed
qed (auto simp: leaving_def option.map_comp comp_def if_distrib cong: if_cong)

lemma release_regions_ok:
  assumes laws: "mapper_laws M leaf" and c: "core M leaf Oth X V (sh_kernel s) (sh_pt s)"
    and r: "distinct is" "\<forall>i \<in> set is. V i = Some (without_task tid (f i))"
  shows "\<exists>s' p. release_regions M tid (map f is) s = Some s' \<and>
    core M leaf Oth X (\<lambda>i. if i \<in> set is then None else V i) (sh_kernel s') (sh_pt s') \<and>
    sh_table s' = sh_table s \<and> sh_kernel s' = (sh_kernel s)\<lparr> pmm := p \<rparr>"
  using c r
proof (induction "is" arbitrary: s V)
  case Nil
  then show ?case by (intro exI[of _ s] exI[of _ "sh_pmm s"]) simp
next
  case (Cons i "is")
  have i: "V i = Some (without_task tid (f i))" using Cons.prems(3) by simp
  obtain s1 p1 where s1: "release_region M (without_task tid (f i)) s = Some s1"
    "core M leaf Oth X (V(i := None)) (sh_kernel s1) (sh_pt s1)"
    "sh_table s1 = sh_table s" "sh_kernel s1 = (sh_kernel s)\<lparr> pmm := p1 \<rparr>"
    using release_region_ok[of M leaf Oth X V s i, OF Cons.prems(1) laws i] by blast
  have V1: "\<forall>j \<in> set is. (V(i := None)) j = Some (without_task tid (f j))" using Cons.prems(2,3) by auto
  have "(\<lambda>j. if j \<in> set is then None else (V(i := None)) j) = (\<lambda>j. if j \<in> set (i # is) then None else V j)" by auto
  then show ?case
    using Cons.IH[OF s1(2) _ V1] Cons.prems(2) s1 by (auto simp: without_task_def)
qed

lemma map_filter_created:
  "filter (created_by tid) (List.map_filter tbl order) =
   map (\<lambda>i. the (tbl i)) (filter (\<lambda>i. \<exists>r. tbl i = Some r \<and> created_by tid r) order)"
  by (induction order) (auto simp: List.map_filter_simps split: option.splits)

lemma free_task_regions_ok:
  assumes laws: "mapper_laws M leaf" and ok: "sh_ok M leaf X s" and order: "distinct order" "set order = dom (sh_table s)"
  shows "\<exists>s'. free_task_regions M order tid s = Some s' \<and> sh_ok M leaf (X \<union> all_entries tid) s'"
proof -
  obtain Oth where c: "core M leaf Oth X (sh_table s) (sh_kernel s) (sh_pt s)" using ok by (auto simp: sh_ok_def)
  let ?ids = "filter (\<lambda>i. \<exists>r. sh_table s i = Some r \<and> created_by tid r) order"
  let ?tbl = "\<lambda>i. case sh_table s i of None \<Rightarrow> None | Some r \<Rightarrow> if created_by tid r then None else Some (drop_task tid r)"
  let ?s = "s\<lparr> sh_table := ?tbl \<rparr>"
  have c1: "core M leaf Oth (X \<union> all_entries tid) (leaving tid (sh_table s)) (sh_kernel ?s) (sh_pt ?s)"
    using core_leaving[OF c] by simp
  have V: "distinct ?ids" "\<forall>i \<in> set ?ids. leaving tid (sh_table s) i = Some (without_task tid (the (sh_table s i)))"
    using order(1) by (auto simp: leaving_def)
  obtain s' where s': "release_regions M tid (map (\<lambda>i. the (sh_table s i)) ?ids) ?s = Some s'"
    "core M leaf Oth (X \<union> all_entries tid) (\<lambda>i. if i \<in> set ?ids then None else leaving tid (sh_table s) i) (sh_kernel s') (sh_pt s')"
    "sh_table s' = ?tbl"
    using release_regions_ok[OF laws c1 V] by auto
  have "(\<lambda>i. if i \<in> set ?ids then None else leaving tid (sh_table s) i) = ?tbl"
    using order(2) by (auto simp: leaving_def fun_eq_iff split: option.splits)
  then have "sh_ok M leaf (X \<union> all_entries tid) s'" using s'(2,3) by (auto simp: sh_ok_def)
  then show ?thesis using s'(1) by (simp add: free_task_regions_def Let_def map_filter_created)
qed

lemma remove_task_ok:
  assumes "sh_ok M leaf (X \<union> all_entries tid) s"
  shows "sh_ok M leaf X (s\<lparr> sh_kernel := fst (remove_task tid (sh_kernel s)) \<rparr>)"
proof -
  let ?k = "fst (remove_task tid (sh_kernel s))"
  obtain Oth where c: "core M leaf Oth (X \<union> all_entries tid) (sh_table s) (sh_kernel s) (sh_pt s)"
    using assms by (auto simp: sh_ok_def)
  have g: "get_task t ?k = (if t = tid then None else get_task t (sh_kernel s))" for t
    by (simp add: remove_task_def get_task_def bt.lookup_del)
  have "core M leaf Oth X (sh_table s) ?k (sh_pt s)"
  proof (rule coreI)
    show "holds (pmm ?k) (Oth \<union> table_blocks (sh_table s))" using coreD(1)[OF c] by (simp add: remove_task_def)
    show "spaces_ok ?k" using coreD(5)[OF c] unfolding spaces_ok_def g by (metis option.distinct(1))
    fix t z w a
    assume "live_entry leaf ?k (sh_pt s) t z w a" and x: "(t, z, w) \<notin> X"
    then have "live_entry leaf (sh_kernel s) (sh_pt s) t z w a" "t \<noteq> tid"
      unfolding live_entry_def g by (auto split: if_splits)
    then show "backed Oth (sh_table s) t z w a" using coreD(6)[OF c] x by (simp add: all_entries_def)
  qed (fact coreD(2)[OF c] coreD(3)[OF c] coreD(4)[OF c])+
  then show ?thesis by (auto simp: sh_ok_def)
qed

end
