(* ===== verification/ShmemProps.thy ===== *)
theory ShmemProps
  imports ShmemInv PhysBoot
begin

text \<open>
  Shared memory never leaves a page-table entry behind that points into memory
  the allocator has taken back: the theorems over sequences of operations, over a
  mapping that races with a destruction, and the boundary of the address space.
\<close>

section \<open>Sequences of operations\<close>

text \<open>
  One operation on shared memory by the current task, a switch to another task, an allocation by another
  part of the kernel, or the exit of the current task: its regions are released and then it leaves the
  task table.
\<close>

inductive shmem_step :: "'pt Mapper \<Rightarrow> 'pt ShmemState \<Rightarrow> 'pt ShmemState \<Rightarrow> bool" for M where
  create: "current_task (sh_kernel s) \<noteq> None \<Longrightarrow> shmem_create sz perms s = Some (s', r) \<Longrightarrow> shmem_step M s s'"
| create_huge: "current_task (sh_kernel s) \<noteq> None \<Longrightarrow> shmem_create_huge sz perms s = Some (s', r) \<Longrightarrow> shmem_step M s s'"
| map: "shmem_map M sid virt s = Some (s', u) \<Longrightarrow> shmem_step M s s'"
| unmap: "shmem_unmap M sid virt s = Some (s', u) \<Longrightarrow> shmem_step M s s'"
| destroy: "current_task (sh_kernel s) \<noteq> None \<Longrightarrow> shmem_destroy M sid s = Some (s', u) \<Longrightarrow> shmem_step M s s'"
| grant: "shmem_grant sid task s = Some (s', u) \<Longrightarrow> shmem_step M s s'"
| revoke: "shmem_revoke sid task s = Some (s', u) \<Longrightarrow> shmem_step M s s'"
| switch: "shmem_step M s (s\<lparr> sh_kernel := set_current_task tid (sh_kernel s) \<rparr>)"
| other_alloc: "request_order req \<le> MAX_ORDER \<Longrightarrow> pmm_alloc (sh_pmm s) req = (p, a) \<Longrightarrow> shmem_step M s (set_pmm p s)"
| exit: "distinct order \<Longrightarrow> set order = dom (sh_table s) \<Longrightarrow>
    free_task_regions M order (current_task_id (sh_kernel s)) s = Some s' \<Longrightarrow>
    shmem_step M s (s'\<lparr> sh_kernel := fst (remove_task (current_task_id (sh_kernel s)) (sh_kernel s')) \<rparr>)"

lemma switch_simps [simp]:
  "get_task t (set_current_task tid k) = get_task t k" "pmm (set_current_task tid k) = pmm k"
  by (simp_all add: set_current_task_def get_task_def)

lemma switch_ok: "sh_ok M leaf X s \<Longrightarrow> sh_ok M leaf X (s\<lparr> sh_kernel := set_current_task tid (sh_kernel s) \<rparr>)"
  by (simp add: sh_ok_def core_def spaces_ok_def live_entry_def)

lemma other_alloc_ok:
  assumes ok: "sh_ok M leaf X s" and r: "request_order req \<le> MAX_ORDER" and a: "pmm_alloc (sh_pmm s) req = (p, x)"
  shows "sh_ok M leaf X (set_pmm p s)"
proof -
  obtain Oth where c: "core M leaf Oth X (sh_table s) (sh_kernel s) (sh_pt s)" using ok by (auto simp: sh_ok_def)
  let ?B = "Oth \<union> table_blocks (sh_table s)"
  have "\<exists>N. holds p (?B \<union> N)"
  proof (cases x)
    case None
    then show ?thesis using holds_alloc_fails(1)[OF coreD(1)[OF c] r] a by (metis Un_empty_right)
  next
    case (Some b)
    have "holds p (insert (b, request_order req) ?B)" using holds_alloc(1)[OF coreD(1)[OF c] r] a Some by blast
    then show ?thesis by (intro exI[of _ "{(b, request_order req)}"]) simp
  qed
  then show ?thesis using sh_ok_pmm[OF c] by fastforce
qed

lemma shmem_step_ok:
  assumes step: "shmem_step M s s'" and laws: "mapper_laws M leaf" and ok: "sh_ok M leaf {} s"
  shows "sh_ok M leaf {} s'"
  using step ok
proof (induction rule: shmem_step.induct)
  case (create s sz perms s' r)
  then show ?case using shmem_create_ok[OF create(3,1), of sz perms] by auto
next
  case (create_huge s sz perms s' r)
  then show ?case using shmem_create_huge_ok[OF create_huge(3,1), of sz perms] by auto
next
  case (destroy s sid s' u)
  then show ?case using shmem_destroy_ok[OF destroy(3) laws destroy(1), of sid] by auto
next
  case (exit order s s1)
  have "sh_ok M leaf ({} \<union> all_entries (current_task_id (sh_kernel s))) s1"
    using free_task_regions_ok[OF laws exit(4,1,2), of "current_task_id (sh_kernel s)"] exit(3) by auto
  then show ?case by (rule remove_task_ok)
next
  case (map sid virt s s' u)
  show ?case by (rule shmem_map_ok[OF map(2) laws map(1)])
next
  case (unmap sid virt s s' u)
  show ?case by (rule shmem_unmap_ok[OF unmap(2) laws unmap(1)])
next
  case (grant sid task s s' u)
  show ?case by (rule shmem_grant_ok[OF grant(2,1)])
next
  case (revoke sid task s s' u)
  show ?case by (rule shmem_revoke_ok[OF revoke(2,1)])
next
  case (switch s tid)
  then show ?case by (rule switch_ok)
next
  case (other_alloc req s p a)
  show ?case by (rule other_alloc_ok[OF other_alloc(3,1,2)])
qed

definition no_dangling :: "'pt leaf \<Rightarrow> 'pt ShmemState \<Rightarrow> bool" where
  "no_dangling leaf s \<longleftrightarrow> (\<forall>t z w a. live_entry leaf (sh_kernel s) (sh_pt s) t z w a \<longrightarrow>
     block_range a (size_order z) \<inter> pmm_avail (sh_pmm s) = {})"

lemma sh_ok_no_dangling:
  assumes "sh_ok M leaf {} s"
  shows "no_dangling leaf s"
  unfolding no_dangling_def
proof (intro allI impI)
  fix t z w a
  assume e: "live_entry leaf (sh_kernel s) (sh_pt s) t z w a"
  obtain Oth where c: "core M leaf Oth {} (sh_table s) (sh_kernel s) (sh_pt s)" using assms by (auto simp: sh_ok_def)
  have h: "range_of b \<inter> pmm_avail (sh_pmm s) = {}" if "b \<in> Oth \<union> table_blocks (sh_table s)" for b
    using coreD(1)[OF c] that unfolding holds_def by blast
  from coreD(6)[OF c e] consider i r where "sh_table s i = Some r" "recorded r t z w a"
    | b where "b \<in> Oth" "block_range a (size_order z) \<subseteq> range_of b" unfolding backed_def by blast
  then show "block_range a (size_order z) \<inter> pmm_avail (sh_pmm s) = {}"
  proof cases
    case 1
    then have "(a, size_order z) \<in> table_blocks (sh_table s)"
      using recorded_block[OF 1(2) coreD(3)[OF c 1(1)]] by (auto simp: table_blocks_iff)
    then show ?thesis using h[of "(a, size_order z)"] by (simp add: range_of_def)
  next
    case 2
    then show ?thesis using h[of b] by blast
  qed
qed

text \<open>No use after free through shared memory: whatever sequence of creations, mappings, unmappings,
  grants, revocations and destructions of regions, task switches, other allocations and task exits
  happens, no page-table entry of a live task points into memory that the allocator can hand out again,
  for 4 KiB and for 2 MiB pages.\<close>

theorem shmem_no_dangling:
  assumes "mapper_laws M leaf" "sh_ok M leaf {} s" "(shmem_step M)\<^sup>*\<^sup>* s s'"
  shows "no_dangling leaf s'"
proof -
  have "sh_ok M leaf {} s'" using assms(3,2) by (induction rule: rtranclp_induct) (auto intro: shmem_step_ok[OF _ assms(1)])
  then show ?thesis by (rule sh_ok_no_dangling)
qed

text \<open>C17: a mapping that races with the destruction of its region does not survive: when another task
  destroys the region after its blocks have been mapped and before the mapping is recorded, the mapping
  task gets an error and all its entries are removed again, so none points into the freed memory.\<close>

theorem shmem_map_race:
  assumes "mapper_laws M leaf" "sh_ok M leaf {} s" "shmem_map_install M sid virt s = Some (s1, Ok (r, T, m))"
    and "s2 = s1\<lparr> sh_kernel := set_current_task other (sh_kernel s1) \<rparr>" "get_task other (sh_kernel s1) \<noteq> None"
    and "shmem_destroy M sid s2 = Some (s3, Ok ())"
    and "s4 = s3\<lparr> sh_kernel := set_current_task (task_id T) (sh_kernel s3) \<rparr>"
  shows "\<exists>s5. shmem_map_commit M sid virt (r, T, m) s4 = Some (s5, Err ShInvalidId) \<and> no_dangling leaf s5"
proof -
  let ?X = "{} \<union> entries_at (task_id T) r virt m"
  have inst: "installed M leaf {} sid virt r T m s1" by (rule shmem_map_install_ok(3)[OF assms(2,1,3) refl])
  then have f: "virt mod block_size r = 0" "\<forall>i < m. virt_valid M (region_at r virt i)"
    "get_task (task_id T) (sh_kernel s1) = Some T" "sh_ok M leaf ?X s1"
    unfolding installed_def sh_ok_def by blast+
  have "sh_ok M leaf ?X s2" unfolding assms(4) by (rule switch_ok[OF f(4)])
  moreover have "current_task (sh_kernel s2) \<noteq> None"
    using assms(5) by (simp add: assms(4) current_task_def set_current_task_def get_task_def)
  ultimately have d: "sh_ok M leaf ?X s3" "sh_table s3 = (sh_table s2)(sid := None)"
    "\<exists>p. sh_kernel s3 = (sh_kernel s2)\<lparr> pmm := p \<rparr>"
    using shmem_destroy_ok[of M leaf ?X s2 sid] assms(1,6) by auto
  have s4: "sh_ok M leaf ?X s4" unfolding assms(7) by (rule switch_ok[OF d(1)])
  have "get_task (task_id T) (sh_kernel s4) = Some T" using d(3) f(3) by (auto simp: assms(4,7))
  moreover have "sh_table s4 sid = None" using d(2) by (simp add: assms(7))
  ultimately have "\<exists>s5. shmem_map_commit M sid virt (r, T, m) s4 = Some (s5, Err ShInvalidId) \<and> sh_ok M leaf {} s5"
    by (intro shmem_map_commit_gone[OF s4 assms(1) _ f(1,2)]) simp_all
  then show ?thesis using sh_ok_no_dangling by blast
qed

section \<open>An example machine\<close>

text \<open>Page tables as one map from table, page size and address; addresses must be canonical.\<close>

type_synonym flat_pt = "u64 \<times> PageSize \<times> usize \<Rightarrow> (usize \<times> PageTableFlag set) option"

definition flat_mapper :: "flat_pt Mapper" where
  "flat_mapper =
     \<lparr> virt_valid = (\<lambda>v. v < 0x0000800000000000 \<or> 0xFFFF800000000000 \<le> v), phys_valid = (\<lambda>a. a < 0x10000000000000),
       map_to = (\<lambda>pt p pml4 z v a fl. if pt (pml4, z, v) = None then (pt((pml4, z, v) \<mapsto> (a, fl)), p, True) else (pt, p, False)),
       unmap = (\<lambda>pt pml4 z v. (pt((pml4, z, v) := None), map_option fst (pt (pml4, z, v)))) \<rparr>"

definition flat_leaf :: "flat_pt leaf" where
  "flat_leaf pt pml4 z v = pt (pml4, z, v)"

lemma flat_laws: "mapper_laws flat_mapper flat_leaf"
  unfolding mapper_laws_def flat_mapper_def flat_leaf_def
  by (auto split: if_splits intro: exI[of _ "{}"])

definition demo_task :: "TaskId \<Rightarrow> u64 \<Rightarrow> Task" where
  "demo_task tid pml4 = (Task_new 0 tid 0x400000)\<lparr> page_table_phys := pml4 \<rparr>"

definition demo_shmem :: "flat_pt ShmemState" where
  "demo_shmem = \<lparr> sh_kernel = (Kernel_boot demo_pmm demo_bridge)\<lparr> current_task_id := 1,
       task_table := [(1, demo_task 1 0x1000), (2, demo_task 2 0x2000)] \<rparr>,
     sh_pt = (\<lambda>_. None), sh_table = (\<lambda>_. None), sh_next_id = 1 \<rparr>"

lemma demo_shmem_tasks:
  "get_task t (sh_kernel demo_shmem) =
     (if t = 1 then Some (demo_task 1 0x1000) else if t = 2 then Some (demo_task 2 0x2000) else None)"
  "task_id (demo_task tid p) = tid" "page_table_phys (demo_task tid p) = p"
  by (simp_all add: demo_shmem_def get_task_def bt_get_def demo_task_def Task_new_def)

lemma demo_shmem_ok: "sh_ok flat_mapper flat_leaf {} demo_shmem"
proof -
  have "pmm (sh_kernel demo_shmem) = demo_pmm" "sh_table demo_shmem = Map.empty" "sh_pt demo_shmem = (\<lambda>_. None)"
    by (simp_all add: demo_shmem_def Kernel_boot_def)
  then have "core flat_mapper flat_leaf {} {} (sh_table demo_shmem) (sh_kernel demo_shmem) (sh_pt demo_shmem)"
    using pmm_init_ok(1)[OF demo_ok]
    by (auto simp: core_def holds_def table_blocks_def spaces_ok_def demo_shmem_tasks live_entry_def flat_leaf_def
        demo_pmm_def split: if_splits)
  then show ?thesis by (auto simp: sh_ok_def)
qed

lemma demo_page: "snd (alloc_page demo_pmm) = Some 0x100000"
  by (simp add: alloc_page_def alloc_pages_def demo_lists buddy_alloc_pages.simps MAX_ORDER_def demo_bootstrap
      boot_alloc_page_def Let_def split_beta)

text \<open>Task 1 creates a page, grants it to task 2 and maps it.\<close>

definition demo_created :: "flat_pt ShmemState" where
  "demo_created = (set_pmm (fst (alloc_page demo_pmm)) demo_shmem)\<lparr> sh_next_id := 2,
     sh_table := [1 \<mapsto> new_region 1 [0x100000] 0 4096 ReadWrite 1] \<rparr>"

lemma demo_create: "shmem_create 4096 ReadWrite demo_shmem = Some (demo_created, Ok 1)"
proof -
  have "sh_pmm demo_shmem = demo_pmm" "sh_next_id demo_shmem = 1" "sh_table demo_shmem = Map.empty"
    by (simp_all add: demo_shmem_def Kernel_boot_def)
  moreover obtain p1 where "alloc_page demo_pmm = (p1, Some 0x100000)" using demo_page by (metis prod.collapse)
  moreover have "current_task_id (sh_kernel demo_shmem) = 1" by (simp add: demo_shmem_def)
  ultimately show ?thesis
    unfolding shmem_create_def demo_created_def Let_def
    by (simp add: PAGE_SIZE_def current_task_def demo_shmem_tasks)
qed

definition demo_granted :: "flat_pt ShmemState" where
  "demo_granted = demo_created\<lparr> sh_table := [1 \<mapsto> (new_region 1 [0x100000] 0 4096 ReadWrite 1)\<lparr> sm_tasks := [1, 2] \<rparr>] \<rparr>"

lemma demo_current:
  "current_task (sh_kernel demo_created) = Some (demo_task 1 0x1000)"
  "current_task (sh_kernel demo_granted) = Some (demo_task 1 0x1000)"
  "sh_table demo_created = [1 \<mapsto> new_region 1 [0x100000] 0 4096 ReadWrite 1]" "sh_pt demo_granted = (\<lambda>_. None)"
  by (simp_all add: demo_created_def demo_granted_def current_task_def demo_shmem_tasks)
     (simp_all add: demo_shmem_def)

lemma demo_shmem_grant: "shmem_grant 1 2 demo_created = Some (demo_granted, Ok ())"
  by (simp add: shmem_grant_def demo_current demo_shmem_tasks demo_granted_def new_region_def)

lemma demo_reached: "(shmem_step flat_mapper)\<^sup>*\<^sup>* demo_shmem demo_granted"
proof -
  have "shmem_step flat_mapper demo_shmem demo_created"
    by (rule shmem_step.create[OF _ demo_create]) (simp add: current_task_def demo_shmem_tasks, simp add: demo_shmem_def)
  moreover have "shmem_step flat_mapper demo_created demo_granted" by (rule shmem_step.grant[OF demo_shmem_grant])
  ultimately show ?thesis by (meson converse_rtranclp_into_rtranclp rtranclp.rtrancl_refl)
qed

definition demo_pages :: flat_pt where
  "demo_pages = [(0x1000, Size4KiB, 0x600000) \<mapsto> (0x100000, {PRESENT, WRITABLE, USER_ACCESSIBLE, NO_EXECUTE})]"

lemma demo_install:
  "shmem_map_install flat_mapper 1 0x600000 demo_granted =
     Some (demo_granted\<lparr> sh_pt := demo_pages \<rparr>, Ok (the (sh_table demo_granted 1), demo_task 1 0x1000, 1))"
proof -
  have r: "sh_table demo_granted 1 = Some ((new_region 1 [0x100000] 0 4096 ReadWrite 1)\<lparr> sm_tasks := [1, 2] \<rparr>)"
    by (simp add: demo_granted_def)
  have f: "convert_page_flags (perm_flags ReadWrite) = {PRESENT, WRITABLE, USER_ACCESSIBLE, NO_EXECUTE}"
    by (auto simp: convert_page_flags_def perm_flags_def PF_READABLE_def PF_WRITABLE_def PF_USER_def)
  have "set_pmm (sh_pmm demo_granted) demo_granted = demo_granted" by (simp add: set_pmm_def)
  then show ?thesis
    unfolding shmem_map_install_def r
    by (simp add: new_region_def block_size_def is_huge_def HUGE_PAGE_ORDER_def PAGE_SIZE_def demo_current demo_shmem_tasks
        f map_block_def map_page_in_table_def flat_mapper_def page_of_def demo_pages_def Let_def)
qed

lemma demo_live: "live_entry flat_leaf (sh_kernel demo_granted) demo_pages 1 Size4KiB 0x600000 0x100000"
  by (rule live_entryI[of _ _ _ "demo_task 1 0x1000"])
     (simp_all add: user_page_def demo_granted_def demo_created_def demo_shmem_tasks flat_leaf_def demo_pages_def)

theorem shmem_no_dangling_witness:
  "\<exists>s. (shmem_step flat_mapper)\<^sup>*\<^sup>* demo_shmem s \<and>
     live_entry flat_leaf (sh_kernel s) (sh_pt s) 1 Size4KiB 0x600000 0x100000 \<and> no_dangling flat_leaf s"
proof -
  let ?r = "the (sh_table demo_granted 1)"
  let ?s = "demo_granted\<lparr> sh_pt := demo_pages, sh_table := (sh_table demo_granted)(1 \<mapsto>
      ?r\<lparr> sm_mappings := sm_mappings ?r @ [(1, 0x600000)] \<rparr>) \<rparr>"
  have "shmem_map flat_mapper 1 0x600000 demo_granted = Some (?s, Ok ())"
    unfolding shmem_map_def demo_install
    by (simp add: shmem_map_commit_def) (simp add: demo_granted_def demo_shmem_tasks)
  then have "(shmem_step flat_mapper)\<^sup>*\<^sup>* demo_shmem ?s"
    by (intro rtranclp.rtrancl_into_rtrancl[OF demo_reached]) (rule shmem_step.map)
  then show ?thesis
    using shmem_no_dangling[OF flat_laws demo_shmem_ok] demo_live by (intro exI[of _ ?s]) simp
qed

theorem shmem_map_race_witness:
  "\<exists>s3 s5. shmem_destroy flat_mapper 1 (demo_granted\<lparr> sh_pt := demo_pages,
       sh_kernel := set_current_task 2 (sh_kernel demo_granted) \<rparr>) = Some (s3, Ok ()) \<and>
     shmem_map_commit flat_mapper 1 0x600000 (the (sh_table demo_granted 1), demo_task 1 0x1000, 1)
       (s3\<lparr> sh_kernel := set_current_task 1 (sh_kernel s3) \<rparr>) = Some (s5, Err ShInvalidId) \<and> no_dangling flat_leaf s5"
proof -
  let ?s1 = "demo_granted\<lparr> sh_pt := demo_pages \<rparr>"
  let ?s2 = "?s1\<lparr> sh_kernel := set_current_task 2 (sh_kernel ?s1) \<rparr>"
  have ok: "sh_ok flat_mapper flat_leaf {} demo_granted"
    using demo_reached demo_shmem_ok
    by (induction rule: rtranclp_induct) (auto intro: shmem_step_ok[OF _ flat_laws])
  have two: "current_task (sh_kernel ?s2) = Some (demo_task 2 0x2000)" "get_task 2 (sh_kernel ?s1) \<noteq> None"
    by (simp_all add: current_task_def set_current_task_def demo_granted_def demo_created_def)
       (simp_all add: get_task_def bt_get_def demo_shmem_def)
  let ?X = "{} \<union> entries_at (task_id (demo_task 1 0x1000)) (the (sh_table demo_granted 1)) 0x600000 1"
  have "sh_ok flat_mapper flat_leaf ?X ?s1"
    using shmem_map_install_ok(3)[OF ok flat_laws demo_install refl] unfolding installed_def sh_ok_def by blast
  then have "sh_ok flat_mapper flat_leaf ?X ?s2" by (rule switch_ok)
  then obtain s3 where d: "shmem_destroy flat_mapper 1 ?s2 = Some (s3, Ok ())"
    using shmem_destroy_ok[of flat_mapper flat_leaf ?X ?s2 1] flat_laws two(1)
    by (auto simp: shmem_destroy_def demo_shmem_tasks demo_granted_def new_region_def split: option.splits)
  then show ?thesis
    using shmem_map_race[OF flat_laws ok demo_install refl two(2) d refl] by (auto simp: demo_shmem_tasks)
qed



end
