(* ===== verification/MmapProps.thy ===== *)
theory MmapProps
  imports MemCalls ShmemProps
begin

text \<open>
  Properties of the memory system calls: the list of recycled address ranges keeps
  exactly the ranges it was given, anonymous mappings give out fresh zeroed
  memory, anonymous mappings and changes of protection never leave an entry that
  points into free memory, and what \<open>munmap\<close> does to memory that is shared.
\<close>

section \<open>Recycled address ranges\<close>

definition va_range :: "u64 \<Rightarrow> usize \<Rightarrow> nat set" where
  "va_range a n = {unat a ..< unat a + 4096 * unat n}"

definition va_ok :: "u64 \<Rightarrow> usize \<Rightarrow> bool" where
  "va_ok a n \<longleftrightarrow> 0 < n \<and> unat a + 4096 * unat n < 2 ^ 64"

definition fl_bytes :: "MmapFreelist \<Rightarrow> nat set" where
  "fl_bytes fl = (\<Union>(a, n) \<in> set fl. va_range a n)"

fun fl_wf :: "MmapFreelist \<Rightarrow> bool" where
  "fl_wf [] \<longleftrightarrow> True"
| "fl_wf ((a, n) # rest) \<longleftrightarrow> va_ok a n \<and> va_range a n \<inter> fl_bytes rest = {} \<and> fl_wf rest"

lemma fl_bytes_simps [simp]:
  "fl_bytes [] = {}" "fl_bytes ((a, n) # fl) = va_range a n \<union> fl_bytes fl" "fl_bytes (xs @ ys) = fl_bytes xs \<union> fl_bytes ys"
  by (auto simp: fl_bytes_def)

lemma fl_wf_append: "fl_wf (xs @ ys) \<longleftrightarrow> fl_wf xs \<and> fl_wf ys \<and> fl_bytes xs \<inter> fl_bytes ys = {}"
  by (induction xs rule: fl_wf.induct) auto

lemma va_end:
  assumes "va_ok a n"
  shows "unat (a + n * 4096) = unat a + 4096 * unat n"
proof -
  have "unat (n * 4096) = 4096 * unat n"
    using assms by (simp add: va_ok_def unat_word_ariths)
  then show ?thesis using assms by (simp add: va_ok_def unat_word_ariths)
qed

lemma va_join:
  assumes "va_ok a n" "va_ok b m" "a + n * 4096 = b"
  shows "va_ok a (n + m)" "va_range a (n + m) = va_range a n \<union> va_range b m"
proof -
  have b: "unat b = unat a + 4096 * unat n" using va_end[OF assms(1)] assms(3) by simp
  have s: "unat (n + m) = unat n + unat m"
    using assms(1,2) by (simp add: va_ok_def unat_word_ariths)
  show "va_ok a (n + m)" using assms(1,2) b s by (simp add: va_ok_def word_less_nat_alt)
  show "va_range a (n + m) = va_range a n \<union> va_range b m" using b s by (auto simp: va_range_def)
qed

lemma va_split:
  assumes "va_ok a n" "0 < m" "m \<le> n"
  shows "va_range a n = va_range a m \<union> va_range (a + m * 4096) (n - m)" "va_ok a m"
    "va_range a m \<inter> va_range (a + m * 4096) (n - m) = {}" "0 < n - m \<Longrightarrow> va_ok (a + m * 4096) (n - m)"
proof -
  have le: "unat m \<le> unat n" using assms(3) by (simp add: word_le_nat_alt)
  then show ok: "va_ok a m" using assms(1,2) by (simp add: va_ok_def)
  have s: "unat (n - m) = unat n - unat m" using assms(3) by (simp add: unat_sub)
  show "va_range a n = va_range a m \<union> va_range (a + m * 4096) (n - m)"
    "va_range a m \<inter> va_range (a + m * 4096) (n - m) = {}"
    using va_end[OF ok] s le by (auto simp: va_range_def)
  show "0 < n - m \<Longrightarrow> va_ok (a + m * 4096) (n - m)"
    using va_end[OF ok] s le assms(1) by (simp add: va_ok_def diff_mult_distrib2)
qed

lemma freelist_merge_ok:
  assumes "freelist_merge a n fl = Some fl'" "fl_wf fl" "va_ok a n" "va_range a n \<inter> fl_bytes fl = {}"
  shows "fl_wf fl' \<and> fl_bytes fl' = fl_bytes fl \<union> va_range a n \<and> length fl' = length fl"
  using assms
proof (induction a n fl arbitrary: fl' rule: freelist_merge.induct)
  case (2 a n b m rest)
  consider "a + n * 4096 = b" | "a + n * 4096 \<noteq> b" "b + m * 4096 = a" | "a + n * 4096 \<noteq> b" "b + m * 4096 \<noteq> a" by blast
  then show ?case
  proof cases
    case 1
    then show ?thesis using 2 va_join[of a n b m] by auto
  next
    case 2
    then show ?thesis using "2.prems" va_join[of b m a n] by auto
  next
    case 3
    then obtain r where "freelist_merge a n rest = Some r" "fl' = (b, m) # r" using "2.prems"(1) by auto
    then show ?thesis using "2.IH"[OF 3, of r] "2.prems" by auto
  qed
qed simp

lemma freelist_push_ok:
  assumes "fl_wf fl" "length fl \<le> MMAP_FREELIST_CAP" "va_ok a n" "va_range a n \<inter> fl_bytes fl = {}"
  shows "fl_wf (freelist_push a n fl)" "length (freelist_push a n fl) \<le> MMAP_FREELIST_CAP"
    "fl_bytes (freelist_push a n fl) = fl_bytes fl \<union> va_range a n \<or>
       freelist_push a n fl = fl \<and> length fl = MMAP_FREELIST_CAP \<and> freelist_merge a n fl = None"
  using assms freelist_merge_ok[OF _ assms(1,3,4)]
  by (auto simp: freelist_push_def fl_wf_append split: option.splits)

lemma fl_wf_update:
  assumes "fl_wf fl" "i < length fl" "va_ok a n" "va_range a n \<subseteq> va_range (fst (fl ! i)) (snd (fl ! i))"
  shows "fl_wf (fl[i := (a, n)])"
    "fl_bytes (fl[i := (a, n)]) = fl_bytes fl - va_range (fst (fl ! i)) (snd (fl ! i)) \<union> va_range a n"
proof -
  obtain b m where e: "fl ! i = (b, m)" by (cases "fl ! i")
  let ?x = "take i fl" and ?y = "drop (Suc i) fl"
  have fl: "fl = ?x @ (b, m) # ?y" using assms(2) e by (metis id_take_nth_drop)
  have "fl[i := (a, n)] = ?x @ (a, n) # ?y" using assms(2) by (simp add: upd_conv_take_nth_drop)
  moreover have "fl_wf (?x @ (b, m) # ?y)" using assms(1) fl by simp
  moreover have "fl_bytes fl = fl_bytes (?x @ (b, m) # ?y)" using fl by simp
  ultimately show "fl_wf (fl[i := (a, n)])" "fl_bytes (fl[i := (a, n)]) = fl_bytes fl - va_range (fst (fl ! i)) (snd (fl ! i)) \<union> va_range a n"
    using assms(3,4) unfolding e by (auto simp: fl_wf_append)
qed

lemma fl_wf_remove:
  assumes "fl_wf fl" "i < length fl" "fl' = take (length fl - 1) (if i < length fl - 1 then fl[i := fl ! (length fl - 1)] else fl)"
  shows "fl_wf fl'" "fl_bytes fl' = fl_bytes fl - va_range (fst (fl ! i)) (snd (fl ! i))" "length fl' < length fl"
proof -
  obtain b m where e: "fl ! i = (b, m)" by (cases "fl ! i")
  obtain init l where fl: "fl = init @ [l]" using assms(2) by (metis append_butlast_last_id length_0_conv not_less_zero)
  show "length fl' < length fl" using assms(2,3) by simp
  have "fl_wf fl' \<and> fl_bytes fl' = fl_bytes fl - va_range b m"
  proof (cases "i < length init")
    case True
    let ?x = "take i init" and ?y = "drop (Suc i) init"
    have i: "init = ?x @ (b, m) # ?y" using True e fl by (metis id_take_nth_drop nth_append)
    have "length init - i = Suc (length init - Suc i)" using True by simp
    then have fl': "fl' = ?x @ l # ?y" using True assms(3) fl
      by (simp add: upd_conv_take_nth_drop list_update_append nth_append)
    have "fl_wf (?x @ (b, m) # ?y @ [l])" "fl_bytes fl = fl_bytes (?x @ (b, m) # ?y @ [l])" using assms(1) fl i
      by (metis append.assoc append_Cons)+
    then show ?thesis unfolding fl' by (cases l) (auto simp: fl_wf_append)
  next
    case False
    then have "l = (b, m)" "fl' = init" using assms(2,3) e fl by (auto simp: nth_append)
    then show ?thesis using assms(1) fl by (auto simp: fl_wf_append)
  qed
  then show "fl_wf fl'" "fl_bytes fl' = fl_bytes fl - va_range (fst (fl ! i)) (snd (fl ! i))" by (simp_all add: e)
qed

lemma fl_nth:
  assumes "fl_wf fl" "i < length fl"
  shows "va_ok (fst (fl ! i)) (snd (fl ! i))" "va_range (fst (fl ! i)) (snd (fl ! i)) \<subseteq> fl_bytes fl"
proof -
  have "fl_wf (take i fl @ fl ! i # drop (Suc i) fl)" using assms by (metis id_take_nth_drop)
  then show "va_ok (fst (fl ! i)) (snd (fl ! i))" by (cases "fl ! i") (simp add: fl_wf_append)
  show "va_range (fst (fl ! i)) (snd (fl ! i)) \<subseteq> fl_bytes fl"
    using nth_mem[OF assms(2)] unfolding fl_bytes_def by (auto simp: split_beta intro!: bexI[of _ "fl ! i"])
qed

lemma pop_fit_from_cases:
  "i < length fl \<Longrightarrow> needed \<le> snd (fl ! i) \<Longrightarrow> 0 < snd (fl ! i) - needed \<Longrightarrow> pop_fit_from i needed fl =
     (fl[i := (fst (fl ! i) + needed * 4096, snd (fl ! i) - needed)], Some (fst (fl ! i)))"
  "i < length fl \<Longrightarrow> needed \<le> snd (fl ! i) \<Longrightarrow> \<not> 0 < snd (fl ! i) - needed \<Longrightarrow> pop_fit_from i needed fl =
     (take (length fl - 1) (if i < length fl - 1 then fl[i := fl ! (length fl - 1)] else fl), Some (fst (fl ! i)))"
  "i < length fl \<Longrightarrow> \<not> needed \<le> snd (fl ! i) \<Longrightarrow> pop_fit_from i needed fl = pop_fit_from (Suc i) needed fl"
  "\<not> i < length fl \<Longrightarrow> pop_fit_from i needed fl = (fl, None)"
  by (subst pop_fit_from.simps, simp only: Let_def if_True if_False refl simp_thms)+

lemma pop_fit_from_some:
  assumes "pop_fit_from i needed fl = (fl', Some a)" "fl_wf fl" "0 < needed"
  shows "fl_wf fl' \<and> length fl' \<le> length fl \<and> va_ok a needed \<and> va_range a needed \<subseteq> fl_bytes fl \<and>
    fl_bytes fl' = fl_bytes fl - va_range a needed"
  using assms
proof (induction i needed fl rule: pop_fit_from.induct)
  case (1 i needed fl)
  let ?b = "fst (fl ! i)" and ?m = "snd (fl ! i)"
  have i: "i < length fl" using "1.prems"(1) pop_fit_from_cases(4)[of i fl needed] by auto
  note e = fl_nth[OF "1.prems"(2) i]
  show ?case
  proof (cases "needed \<le> ?m")
    case fits: True
    note s = va_split[OF e(1) "1.prems"(3) fits]
    show ?thesis
    proof (cases "0 < ?m - needed")
      case True
      then have f: "fl' = fl[i := (?b + needed * 4096, ?m - needed)]" "a = ?b"
        using "1.prems"(1) pop_fit_from_cases(1)[OF i fits True] by auto
      have sub: "va_range (?b + needed * 4096) (?m - needed) \<subseteq> va_range ?b ?m" using s(1) by blast
      show ?thesis using fl_wf_update[OF "1.prems"(2) i s(4)[OF True] sub] s(1-3) e(2) unfolding f by auto
    next
      case False
      then have n: "needed = ?m" by (simp add: word_gt_0)
      have f: "fl' = take (length fl - 1) (if i < length fl - 1 then fl[i := fl ! (length fl - 1)] else fl)" "a = ?b"
        using "1.prems"(1) pop_fit_from_cases(2)[OF i fits False] by auto
      show ?thesis using fl_wf_remove[OF "1.prems"(2) i f(1)] e unfolding f(2) n by simp
    qed
  next
    case False
    then have "pop_fit_from (Suc i) needed fl = (fl', Some a)"
      using "1.prems"(1) pop_fit_from_cases(3)[OF i False] by simp
    then show ?thesis using "1.IH"[OF i False] "1.prems"(2,3) by blast
  qed
qed

lemma pop_fit_from_none:
  assumes "pop_fit_from i needed fl = (fl', None)"
  shows "fl' = fl \<and> (\<forall>j. i \<le> j \<longrightarrow> j < length fl \<longrightarrow> snd (fl ! j) < needed)"
  using assms
proof (induction i needed fl rule: pop_fit_from.induct)
  case (1 i needed fl)
  show ?case
  proof (cases "i < length fl")
    case i: True
    then have s: "\<not> needed \<le> snd (fl ! i)"
      using "1.prems" pop_fit_from_cases(1,2)[OF i] by (metis option.discI prod.inject)
    then have "pop_fit_from (Suc i) needed fl = (fl', None)"
      using "1.prems" pop_fit_from_cases(3)[OF i s] by simp
    then show ?thesis using "1.IH"[OF i s] s by (metis Suc_leI le_neq_implies_less not_le)
  next
    case False
    then show ?thesis using "1.prems" pop_fit_from_cases(4)[OF False] by simp
  qed
qed




section \<open>Anonymous mappings\<close>

abbreviation va_page :: "u64 \<Rightarrow> nat \<Rightarrow> usize" where
  "va_page \<equiv> block_at False"

lemma page_block_simps: "bytes_of_block False = PAGE_SIZE" "size_of_block False = Size4KiB" "size_order Size4KiB = 0"
  by (simp_all add: bytes_of_block_def size_of_block_def size_order_def)

lemma map_page_block: "map_page_in_table M = map_block M False" "unmap_page_in_table M = unmap_block M False"
  by (simp_all add: map_block_def unmap_block_def)

lemma holds_alloc_page:
  assumes "holds p B" "alloc_page p = (p', Some a)"
  shows "holds p' (insert (a, 0) B)" "(a, 0) \<notin> B" "aligned (size_order (size_of_block False) + 12) a"
proof -
  show h: "holds p' (insert (a, 0) B)" "(a, 0) \<notin> B"
    using holds_alloc[OF assms(1), of Page p' a] assms(2) by (simp_all add: MAX_ORDER_def)
  show "aligned (size_order (size_of_block False) + 12) a"
    using holds_block[OF h(1), of a 0] by (simp add: block_ok_def size_order_def size_of_block_def)
qed

lemma mmap_pages_step:
  "mmap_pages M flags pml4 base (i # rest) pt p m =
     (case alloc_page p of
        (p1, None) \<Rightarrow> Some (pt, p1, m, False)
      | (p1, Some phys) \<Rightarrow>
          (case map_block M False pt p1 pml4 (va_page base i) phys flags of
             None \<Rightarrow> None
           | Some (pt', p2, Err _) \<Rightarrow> Some (pt', p2, m, False)
           | Some (pt', p2, Ok _) \<Rightarrow> mmap_pages M flags pml4 base rest pt' p2 (zero_page phys m)))"
  by (simp only: mmap_pages.simps map_page_block block_at_def page_block_simps)

lemma mmap_pages_ok:
  assumes "mapper_laws M leaf" "mmap_pages M fl pml4 base is pt p m = Some (pt', p', m', True)" "holds p B"
    "base mod PAGE_SIZE = 0" "\<forall>i \<in> set is. user_page (va_page base i)" "distinct (map (va_page base) is)"
  shows "\<exists>frames T. length frames = length is \<and> distinct frames \<and> blks 0 frames \<inter> B = {} \<and>
    holds p' (B \<union> blks 0 frames \<union> T) \<and>
    (\<forall>j < length is. leaf pt' pml4 Size4KiB (va_page base (is ! j)) = Some (frames ! j, fl)) \<and>
    (\<forall>q y w. user_page w \<and> \<not> touched False base (set is) pml4 q y w \<longrightarrow> leaf pt' q y w = leaf pt q y w) \<and>
    m' = (\<lambda>a. if \<exists>f \<in> set frames. a - f < PAGE_SIZE then 0 else m a)"
  using assms(2,3,5,6)
proof (induction "is" arbitrary: pt p m B)
  case Nil
  then show ?case by (intro exI[of _ "[]"] exI[of _ "{}"]) (auto simp: touched_def)
next
  case (Cons i "is")
  obtain p1 f pt1 p2 where a: "alloc_page p = (p1, Some f)"
      "map_block M False pt p1 pml4 (va_page base i) f fl = Some (pt1, p2, Ok ())"
      "mmap_pages M fl pml4 base is pt1 p2 (zero_page f m) = Some (pt', p', m', True)"
    using Cons.prems(1) unfolding mmap_pages_step by (auto split: prod.splits option.splits sum.splits)
  note al = holds_alloc_page[OF Cons.prems(2) a(1)]
  obtain T where T: "holds p2 (insert (f, 0) B \<union> T)" using map_block_holds[OF assms(1) a(2) al(1)] by blast
  have l: "leaf pt1 q y w = (if touched False base {i} pml4 q y w then Some (f, fl) else leaf pt q y w)" if "user_page w" for q y w
    using map_block_leaf[OF assms(1) a(2) _ al(3) that, of q y] assms(4) by (simp add: page_block_simps touched_def)
  obtain frames T' where ih: "length frames = length is" "distinct frames" "blks 0 frames \<inter> (insert (f, 0) B \<union> T) = {}"
    "holds p' (insert (f, 0) B \<union> T \<union> blks 0 frames \<union> T')"
    "\<forall>j < length is. leaf pt' pml4 Size4KiB (va_page base (is ! j)) = Some (frames ! j, fl)"
    "\<forall>q y w. user_page w \<and> \<not> touched False base (set is) pml4 q y w \<longrightarrow> leaf pt' q y w = leaf pt1 q y w"
    "m' = (\<lambda>a. if \<exists>f \<in> set frames. a - f < PAGE_SIZE then 0 else zero_page f m a)"
    using Cons.IH[OF a(3) T] Cons.prems(3,4) by auto
  have "\<not> touched False base (set is) pml4 pml4 Size4KiB (va_page base i)"
    using Cons.prems(4) by (auto simp: touched_def)
  then have "leaf pt' pml4 Size4KiB (va_page base i) = Some (f, fl)"
    using ih(6) l[of "va_page base i"] Cons.prems(3) by (simp add: touched_def page_block_simps)
  moreover have "insert (f, 0) B \<union> T \<union> blks 0 frames \<union> T' = B \<union> blks 0 (f # frames) \<union> (T \<union> T')" by auto
  ultimately show ?case
    using ih al(2) l by (intro exI[of _ "f # frames"] exI[of _ "T \<union> T'"])
      (auto simp: nth_Cons' fun_eq_iff zero_page_def touched_def)
qed

lemma core_pages:
  assumes c: "core M leaf Oth X tbl k pt" and h: "holds p (Oth \<union> table_blocks tbl \<union> N)"
    and e: "\<And>t z w a. live_entry leaf k pt' t z w a \<Longrightarrow> live_entry leaf k pt t z w a \<or>
      (a, size_order z) \<in> N - table_blocks tbl"
  shows "core M leaf (Oth \<union> (N - table_blocks tbl)) X tbl (k\<lparr> pmm := p \<rparr>) pt'"
proof -
  let ?O = "Oth \<union> (N - table_blocks tbl)"
  note c' = core_other_pmm[OF c h]
  show ?thesis
  proof (rule core_modify[OF c'])
    show "region_wf M r" if "tbl i = Some r" for i r using coreD(3)[OF c that] .
    fix t z w a
    assume l: "live_entry leaf (k\<lparr> pmm := p \<rparr>) pt' t z w a" "(t, z, w) \<notin> X"
    then consider "live_entry leaf k pt t z w a" | "(a, size_order z) \<in> ?O" using e[of t z w a] by auto
    then show "backed ?O tbl t z w a"
    proof cases
      case 1
      then show ?thesis using coreD(6)[OF c', of t z w a] l(2) by simp
    next
      case 2
      then show ?thesis unfolding backed_def by (intro disjI2 bexI[of _ "(a, size_order z)"]) (auto simp: range_of_def)
    qed
  qed simp_all
qed

lemma mmap_pages_core:
  assumes "mapper_laws M leaf" "mmap_pages M fl pml4 base is pt p m = Some (pt', p', m', ok)"
    "core M leaf Oth X tbl (k\<lparr> pmm := p \<rparr>) pt" "base mod PAGE_SIZE = 0"
  shows "\<exists>Oth'. core M leaf Oth' X tbl (k\<lparr> pmm := p' \<rparr>) pt'"
  using assms(2,3)
proof (induction "is" arbitrary: pt p m Oth)
  case Nil
  then show ?case by auto
next
  case (Cons i "is")
  have h: "holds p (Oth \<union> table_blocks tbl)" using coreD(1)[OF Cons.prems(2)] by simp
  obtain p1 x where a: "alloc_page p = (p1, x)" by fastforce
  show ?case
  proof (cases x)
    case None
    then have "holds p1 (Oth \<union> table_blocks tbl \<union> {})"
      using holds_alloc_fails(1)[OF h, of Page p1] a by (simp add: MAX_ORDER_def)
    from core_other_pmm[OF Cons.prems(2) this] show ?thesis using Cons.prems(1) a None by auto
  next
    case (Some f)
    note al = holds_alloc_page[OF h a[unfolded Some]]
    obtain pt1 p2 r where mp: "map_block M False pt p1 pml4 (va_page base i) f fl = Some (pt1, p2, r)"
      using Cons.prems(1) a Some unfolding mmap_pages_step by (auto split: option.splits)
    obtain T where T: "holds p2 (insert (f, 0) (Oth \<union> table_blocks tbl) \<union> T)"
      using map_block_holds[OF assms(1) mp al(1)] by blast
    let ?N = "insert (f, 0) T"
    have l: "leaf pt1 q y w = (if is_ok r \<and> q = pml4 \<and> y = Size4KiB \<and> w = va_page base i then Some (f, fl) else leaf pt q y w)"
      if "user_page w" for q y w
      using map_block_leaf[OF assms(1) mp _ al(3) that, of q y] assms(4) by (simp add: page_block_simps)
    have e: "live_entry leaf (k\<lparr> pmm := p \<rparr>) pt t z w b \<or> (b, size_order z) \<in> ?N - table_blocks tbl"
      if "live_entry leaf (k\<lparr> pmm := p \<rparr>) pt1 t z w b" for t z w b
      using that l[of w _ z] al(2) by (fastforce simp: live_entry_def size_order_def split: if_splits)
    have N: "Oth \<union> table_blocks tbl \<union> ?N = insert (f, 0) (Oth \<union> table_blocks tbl) \<union> T" by auto
    have c: "core M leaf (Oth \<union> (?N - table_blocks tbl)) X tbl (k\<lparr> pmm := p2 \<rparr>) pt1"
      using core_pages[OF Cons.prems(2) T[folded N], of pt1] e by simp
    show ?thesis
    proof (cases r)
      case (Inl err)
      then show ?thesis using c Cons.prems(1) a Some mp
        unfolding mmap_pages_step by auto
    next
      case (Inr u)
      then have "mmap_pages M fl pml4 base is pt1 p2 (zero_page f m) = Some (pt', p', m', ok)"
        using Cons.prems(1) a Some mp unfolding mmap_pages_step by simp
      then show ?thesis using Cons.IH c by auto
    qed
  qed
qed


lemma pop_fit_from_entry:
  assumes "pop_fit_from i needed fl = (fl', Some a)"
  shows "\<exists>n. (a, n) \<in> set fl \<and> needed \<le> n"
  using assms
proof (induction i needed fl rule: pop_fit_from.induct)
  case (1 i needed fl)
  have i: "i < length fl" using "1.prems"(1) pop_fit_from_cases(4)[of i fl needed] by auto
  show ?case
  proof (cases "needed \<le> snd (fl ! i)")
    case True
    then have "a = fst (fl ! i)"
      using "1.prems" pop_fit_from_cases(1,2)[OF i True] by (metis option.inject prod.inject)
    then show ?thesis using True nth_mem[OF i] by (metis prod.collapse)
  next
    case False
    then show ?thesis using "1.IH"[OF i False] "1.prems" pop_fit_from_cases(3)[OF i False] by simp
  qed
qed

text \<open>The recycled and the fresh addresses are page aligned and in user space.\<close>

definition va_state :: "'pt MemState \<Rightarrow> bool" where
  "va_state s \<longleftrightarrow> (\<forall>a n. (a, n) \<in> set (mm_freelist s) \<longrightarrow> a mod PAGE_SIZE = 0 \<and> unat a + 4096 * unat n \<le> 2 ^ 47) \<and>
     mm_next_addr s mod PAGE_SIZE = 0 \<and> unat (mm_next_addr s) \<le> 2 ^ 63"

lemma pages_for_bounds:
  assumes "\<not> (sz = 0 \<or> MAX_MMAP_SIZE < sz)"
  shows "0 < unat (pages_for sz)" "unat (pages_for sz) \<le> 4096"
proof -
  have s: "0 < unat sz" "unat sz \<le> 16777216"
    using assms by (auto simp: MAX_MMAP_SIZE_def word_less_nat_alt unat_gt_0)
  then have "unat (sz + PAGE_SIZE - 1) = unat sz + 4095"
    by (simp add: PAGE_SIZE_def unat_word_ariths)
  then have "unat (pages_for sz) = (unat sz + 4095) div 4096"
    by (simp add: pages_for_def PAGE_SIZE_def unat_div)
  then show "0 < unat (pages_for sz)" "unat (pages_for sz) \<le> 4096" using s by auto
qed

lemma mmap_base_ok:
  assumes "mmap_base hint n s = (s1, Some v)" "va_state s" "unat n \<le> 4096"
  shows "v mod PAGE_SIZE = 0" "unat v + 4096 * unat n \<le> 2 ^ 47"
proof -
  have m: "unat (n * PAGE_SIZE) = 4096 * unat n" using assms(3) by (simp add: PAGE_SIZE_def unat_word_ariths)
  have add: "unat (a + n * PAGE_SIZE) = unat a + 4096 * unat n" if "unat a + 4096 * unat n < 2 ^ 64" for a
    using that m by (simp add: unat_word_ariths)
  have "v mod PAGE_SIZE = 0 \<and> unat v + 4096 * unat n \<le> 2 ^ 47"
  proof (cases "hint = 0")
    case False
    then have h: "v = hint" "hint mod PAGE_SIZE = 0" "unat hint + 4096 * unat n < 2 ^ 64"
      "\<not> USERSPACE_TOP < hint + n * PAGE_SIZE"
      using assms(1) m by (auto simp: mmap_base_def split: if_splits)
    then show ?thesis using add[OF h(3)] by (simp add: USERSPACE_TOP_def word_less_nat_alt)
  next
    case True
    show ?thesis
    proof (cases "snd (pop_fit n (mm_freelist s))")
      case None
      then have h: "v = mm_next_addr s" "\<not> 0x7FFF00000000 < v + n * PAGE_SIZE"
        using assms(1) True by (auto simp: mmap_base_def Let_def split: if_splits prod.splits)
      have "unat v + 4096 * unat n < 2 ^ 64" using assms(2,3) h(1) by (simp add: va_state_def)
      from add[OF this] h assms(2) show ?thesis by (simp add: va_state_def word_less_nat_alt)
    next
      case (Some a)
      then have "v = a" using assms(1) True by (auto simp: mmap_base_def split: prod.splits)
      moreover obtain m where "(a, m) \<in> set (mm_freelist s)" "n \<le> m"
        using Some pop_fit_from_entry[of 0 n "mm_freelist s"] unfolding pop_fit_def by (metis prod.collapse)
      moreover from this have "a mod PAGE_SIZE = 0" "unat a + 4096 * unat m \<le> 2 ^ 47"
        using assms(2) unfolding va_state_def by blast+
      ultimately show ?thesis by (simp add: word_le_nat_alt)
    qed
  qed
  then show "v mod PAGE_SIZE = 0" "unat v + 4096 * unat n \<le> 2 ^ 47" by auto
qed

lemma mmap_base_frame:
  assumes "mmap_base hint n s = (s1, v)"
  shows "mm_sh s1 = mm_sh s" "mm_mem s1 = mm_mem s"
  using assms by (auto simp: mmap_base_def Let_def split: if_splits prod.splits option.splits)

lemma va_page_unat:
  assumes "unat v + 4096 * n \<le> 2 ^ 47" "i < n"
  shows "unat (va_page v i) = unat v + 4096 * i" "user_page (va_page v i)"
proof -
  have "unat (of_nat i * PAGE_SIZE) = 4096 * i"
    using assms by (simp add: PAGE_SIZE_def unat_word_ariths unat_of_nat)
  then show u: "unat (va_page v i) = unat v + 4096 * i"
    using assms by (simp add: block_at_def page_block_simps unat_word_ariths)
  show "user_page (va_page v i)" using u assms by (simp add: user_page_def word_less_nat_alt)
qed

lemma va_pages_distinct:
  assumes "unat v + 4096 * n \<le> 2 ^ 47"
  shows "distinct (map (va_page v) [0..<n])"
proof -
  have "inj_on (va_page v) {0..<n}"
    by (rule inj_onI) (metis add_left_imp_eq atLeastLessThan_iff assms mult_left_cancel va_page_unat(1) zero_neq_numeral)
  then show ?thesis by (simp add: distinct_map)
qed

lemma holds_apart: "holds p B \<Longrightarrow> x \<in> B \<Longrightarrow> y \<in> B \<Longrightarrow> x \<noteq> y \<Longrightarrow> range_of x \<inter> range_of y = {}"
  unfolding holds_def by blast

lemma live_entry_apart:
  assumes c: "core M leaf Oth {} tbl k pt" and l: "live_entry leaf k pt t z w a"
    and h: "holds p (Oth \<union> table_blocks tbl \<union> F)" and f: "(f, 0) \<in> F" "(f, 0) \<notin> Oth \<union> table_blocks tbl"
  shows "block_range a (size_order z) \<inter> block_range f 0 = {}"
proof -
  from coreD(6)[OF c l] obtain b where b: "b \<in> Oth \<union> table_blocks tbl" "block_range a (size_order z) \<subseteq> range_of b"
    unfolding backed_def using recorded_block coreD(3)[OF c] table_blocks_iff[of _ tbl] 
    by (metis Un_iff empty_iff fst_conv range_of_def snd_conv subset_refl)
  then have "b \<noteq> (f, 0)" using f(2) by blast
  then have "range_of b \<inter> range_of (f, 0) = {}" using holds_apart[OF h, of b "(f, 0)"] b(1) f(1) by blast
  then show ?thesis using b(2) by (auto simp: range_of_def)
qed

text \<open>C18: a successful anonymous mapping gives the caller exactly the requested number of pages, each
  with the requested protection, backed by distinct frames that no live task had mapped before, and every
  byte of them is zero; no other entry of any task changes.\<close>

theorem mmap_private_zeroed:
  assumes "mapper_laws M leaf" "sh_ok M leaf {} (mm_sh s)" "va_state s"
    and "syscall_mmap M hint sz flags s = Some (s', v)" "v \<noteq> u64_MAX" "current_task (sh_kernel (mm_sh s)) = Some T"
  shows "\<exists>frames. length frames = unat (pages_for sz) \<and> distinct frames \<and>
    (\<forall>j < length frames. leaf (sh_pt (mm_sh s')) (page_table_phys T) Size4KiB (va_page v j) = Some (frames ! j, prot_flags flags)) \<and>
    (\<forall>f \<in> set frames. \<forall>a. a - f < PAGE_SIZE \<longrightarrow> mm_mem s' a = 0) \<and>
    (\<forall>f \<in> set frames. \<forall>t z w a. live_entry leaf (sh_kernel (mm_sh s)) (sh_pt (mm_sh s)) t z w a \<longrightarrow>
       block_range a (size_order z) \<inter> block_range f 0 = {}) \<and>
    (\<forall>q y w. user_page w \<and> \<not> touched False v {0..<length frames} (page_table_phys T) q y w \<longrightarrow>
       leaf (sh_pt (mm_sh s')) q y w = leaf (sh_pt (mm_sh s)) q y w)"
proof -
  let ?n = "unat (pages_for sz)"
  obtain Oth where c: "core M leaf Oth {} (sh_table (mm_sh s)) (sh_kernel (mm_sh s)) (sh_pt (mm_sh s))"
    using assms(2) by (auto simp: sh_ok_def)
  let ?B = "Oth \<union> table_blocks (sh_table (mm_sh s))"
  have sz: "\<not> (sz = 0 \<or> MAX_MMAP_SIZE < sz)" using assms(4,5) by (auto simp: syscall_mmap_def split: if_splits)
  note n = pages_for_bounds[OF sz]
  obtain s1 where b: "mmap_base hint (pages_for sz) s = (s1, Some v)"
    using assms(4-6) sz
    by (auto simp: syscall_mmap_def split: if_splits option.splits prod.splits)
  note fr = mmap_base_frame[OF b] and v = mmap_base_ok[OF b assms(3) n(2)]
  obtain pt p m where mp: "mmap_pages M (prot_flags flags) (page_table_phys T) v [0..<?n]
      (sh_pt (mm_sh s)) (sh_pmm (mm_sh s)) (mm_mem s) = Some (pt, p, m, True)" "s' = (set_space pt p s1)\<lparr> mm_mem := m \<rparr>"
    using assms(4-6) sz b fr
    by (auto simp: syscall_mmap_def split: if_splits option.splits)
  obtain frames T' where f: "length frames = ?n" "distinct frames" "blks 0 frames \<inter> ?B = {}"
    "holds p (?B \<union> blks 0 frames \<union> T')"
    "\<forall>j < ?n. leaf pt (page_table_phys T) Size4KiB (va_page v j) = Some (frames ! j, prot_flags flags)"
    "\<forall>q y w. user_page w \<and> \<not> touched False v {0..<?n} (page_table_phys T) q y w \<longrightarrow> leaf pt q y w = leaf (sh_pt (mm_sh s)) q y w"
    "m = (\<lambda>a. if \<exists>f \<in> set frames. a - f < PAGE_SIZE then 0 else mm_mem s a)"
    using mmap_pages_ok[OF assms(1) mp(1) coreD(1)[OF c] v(1) _ va_pages_distinct[OF v(2)]] va_page_unat(2)[OF v(2)]
    by auto
  have s': "sh_pt (mm_sh s') = pt" "mm_mem s' = m" by (simp_all add: mp(2) set_space_def)
  have apart: "block_range a (size_order z) \<inter> block_range g 0 = {}"
    if "g \<in> set frames" "live_entry leaf (sh_kernel (mm_sh s)) (sh_pt (mm_sh s)) t z w a" for g t z w a
  proof (rule live_entry_apart[OF c that(2)])
    show "holds p (?B \<union> (blks 0 frames \<union> T'))" using f(4) by (simp add: Un_assoc)
    have "(g, 0) \<in> blks 0 frames" using that(1) by simp
    then show "(g, 0) \<in> blks 0 frames \<union> T'" "(g, 0) \<notin> ?B" using f(3) by blast+
  qed
  have zero: "\<forall>f \<in> set frames. \<forall>a. a - f < PAGE_SIZE \<longrightarrow> m a = 0" unfolding f(7) by auto
  show ?thesis unfolding s' using f(1,2,5,6) zero apart by (intro exI[of _ frames]) simp
qed


definition demo_mem :: "flat_pt MemState" where
  "demo_mem = \<lparr> mm_sh = demo_shmem, mm_freelist = MmapFreelist_new, mm_next_addr = MMAP_BASE, mm_mem = (\<lambda>_. 7) \<rparr>"

lemma demo_mem_current: "current_task (sh_kernel (mm_sh demo_mem)) = Some (demo_task 1 0x1000)"
  by (simp add: demo_mem_def current_task_def demo_shmem_tasks) (simp add: demo_shmem_def)

lemma demo_mem_state: "va_state demo_mem" "sh_ok flat_mapper flat_leaf {} (mm_sh demo_mem)"
  using demo_shmem_ok by (simp_all add: demo_mem_def va_state_def MmapFreelist_new_def MMAP_BASE_def PAGE_SIZE_def)

lemma demo_mmap:
  "\<exists>s'. syscall_mmap flat_mapper 0x50000000 4096 flags demo_mem = Some (s', 0x50000000)"
proof -
  obtain p1 where "alloc_page demo_pmm = (p1, Some 0x100000)" using demo_page by (metis prod.collapse)
  moreover have "sh_pmm (mm_sh demo_mem) = demo_pmm" "sh_pt (mm_sh demo_mem) = (\<lambda>_. None)"
    by (simp_all add: demo_mem_def demo_shmem_def Kernel_boot_def)
  moreover have "unat (pages_for 4096) = Suc 0" by (simp add: pages_for_def PAGE_SIZE_def)
  moreover have "mmap_base 0x50000000 (pages_for 4096) demo_mem = (demo_mem, Some 0x50000000)"
    by (simp add: mmap_base_def pages_for_def PAGE_SIZE_def MMAP_BASE_def USERSPACE_TOP_def)
  ultimately show ?thesis
    unfolding syscall_mmap_def demo_mem_current
    by (simp add: MAX_MMAP_SIZE_def demo_shmem_tasks map_page_in_table_def flat_mapper_def PAGE_SIZE_def)
qed

theorem mmap_private_zeroed_witness:
  "\<exists>s' f. syscall_mmap flat_mapper 0x50000000 4096 2 demo_mem = Some (s', 0x50000000) \<and>
     flat_leaf (sh_pt (mm_sh s')) 0x1000 Size4KiB 0x50000000 = Some (f, {PRESENT, USER_ACCESSIBLE, WRITABLE, NO_EXECUTE}) \<and>
     mm_mem s' f = 0"
proof -
  obtain s' where m: "syscall_mmap flat_mapper 0x50000000 4096 2 demo_mem = Some (s', 0x50000000)"
    using demo_mmap by blast
  have n: "unat (pages_for 4096) = 1" by (simp add: pages_for_def PAGE_SIZE_def)
  have f: "prot_flags 2 = {PRESENT, USER_ACCESSIBLE, WRITABLE, NO_EXECUTE}" by (auto simp: prot_flags_def)
  have "(0x50000000 :: u64) \<noteq> u64_MAX" by (simp add: u64_MAX_def)
  from mmap_private_zeroed[OF flat_laws demo_mem_state(2,1) m this demo_mem_current, unfolded n f]
  obtain frames where fr: "length frames = 1"
    "\<forall>j < length frames. flat_leaf (sh_pt (mm_sh s')) (page_table_phys (demo_task 1 0x1000)) Size4KiB
       (va_page 0x50000000 j) = Some (frames ! j, {PRESENT, USER_ACCESSIBLE, WRITABLE, NO_EXECUTE})"
    "\<forall>f \<in> set frames. \<forall>a. a - f < PAGE_SIZE \<longrightarrow> mm_mem s' a = 0" by blast
  have "frames ! 0 \<in> set frames" "frames ! 0 - frames ! 0 < PAGE_SIZE" using fr(1) by (simp_all add: PAGE_SIZE_def)
  then have "mm_mem s' (frames ! 0) = 0" using fr(3) by blast
  moreover have "flat_leaf (sh_pt (mm_sh s')) 0x1000 Size4KiB 0x50000000 =
      Some (frames ! 0, {PRESENT, USER_ACCESSIBLE, WRITABLE, NO_EXECUTE})"
    using fr(1,2) by (simp add: block_at_def demo_shmem_tasks)
  ultimately show ?thesis using m by blast
qed

section \<open>Protection\<close>

text \<open>\<open>translate_page\<close> gives the frame of the entry.\<close>

definition translate_law :: "'pt leaf \<Rightarrow> 'pt translate \<Rightarrow> bool" where
  "translate_law leaf tr \<longleftrightarrow> (\<forall>pt pml4 v. user_page v \<longrightarrow> tr pt pml4 v = map_option fst (leaf pt pml4 Size4KiB v))"

definition with_flags :: "PageTableFlag set \<Rightarrow> usize \<times> PageTableFlag set \<Rightarrow> usize \<times> PageTableFlag set" where
  "with_flags fl e = (fst e, fl)"

lemma with_flags_simps [simp]: "with_flags fl (f, g) = (f, fl)" "with_flags fl (with_flags g e) = with_flags fl e"
    "fst (with_flags fl e) = fst e"
  by (simp_all add: with_flags_def)

lemma protect_leaf:
  assumes "mapper_laws M leaf" "translate_law leaf tr" "protect_in_table M tr pt p pml4 (va_page base i) fl = Some (pt', p', r)"
    "base mod PAGE_SIZE = 0" "user_page (va_page base i)" "user_page w"
  shows "is_ok r \<Longrightarrow> leaf pt' q y w = (if q = pml4 \<and> y = Size4KiB \<and> w = va_page base i
      then map_option (with_flags fl) (leaf pt q y w) else leaf pt q y w)"
    "is_ok r \<Longrightarrow> leaf pt pml4 Size4KiB (va_page base i) \<noteq> None"
    "leaf pt' q y w = None \<or> map_option fst (leaf pt' q y w) = map_option fst (leaf pt q y w)"
    "holds p B \<Longrightarrow> \<exists>T. holds p' (B \<union> T)"
proof -
  let ?v = "va_page base i"
  have pg: "page_of Size4KiB ?v = ?v" using page_of_block_at[of base False i] assms(4) by (simp add: page_block_simps)
  have tr: "tr pt pml4 ?v = map_option fst (leaf pt pml4 Size4KiB ?v)" using assms(2,5) by (simp add: translate_law_def)
  have "(is_ok r \<longrightarrow> leaf pt' q y w = (if q = pml4 \<and> y = Size4KiB \<and> w = ?v
      then map_option (with_flags fl) (leaf pt q y w) else leaf pt q y w)) \<and>
    (is_ok r \<longrightarrow> leaf pt pml4 Size4KiB ?v \<noteq> None) \<and>
    (leaf pt' q y w = None \<or> map_option fst (leaf pt' q y w) = map_option fst (leaf pt q y w)) \<and>
    (holds p B \<longrightarrow> (\<exists>T. holds p' (B \<union> T)))"
  proof (cases "leaf pt pml4 Size4KiB ?v")
    case None
    then show ?thesis using assms(3) tr pg
      by (auto simp: protect_in_table_def Let_def split: if_splits intro: exI[of _ "{}"])
  next
    case (Some e)
    obtain f fl0 where e: "e = (f, fl0)" by (cases e)
    obtain pt1 u where u: "unmap M pt pml4 Size4KiB ?v = (pt1, u)" by fastforce
    note l1 = unmap_leaf[OF assms(1) u assms(6), of q y]
    show ?thesis
    proof (cases u)
      case None
      then show ?thesis using assms(3) tr pg Some u l1
        by (auto simp: protect_in_table_def Let_def split: if_splits intro: exI[of _ "{}"])
    next
      case s: (Some g)
      obtain okb where m: "map_to M pt1 p pml4 Size4KiB ?v f fl = (pt', p', okb)" "r = (if okb then Ok () else Err MapFailed)"
        using assms(3) tr pg Some u s e by (auto simp: protect_in_table_def Let_def split: if_splits prod.splits)
      show ?thesis
        using map_to_leaf[OF assms(1) m(1) assms(6), of q y] map_to_holds[OF assms(1) m(1), of B] l1 m(2) Some e
        by (auto split: if_splits)
    qed
  qed
  then show "is_ok r \<Longrightarrow> leaf pt' q y w = (if q = pml4 \<and> y = Size4KiB \<and> w = ?v
      then map_option (with_flags fl) (leaf pt q y w) else leaf pt q y w)"
    "is_ok r \<Longrightarrow> leaf pt pml4 Size4KiB ?v \<noteq> None"
    "leaf pt' q y w = None \<or> map_option fst (leaf pt' q y w) = map_option fst (leaf pt q y w)"
    "holds p B \<Longrightarrow> \<exists>T. holds p' (B \<union> T)" by blast+
qed


lemma mprotect_step:
  "mprotect_pages M tr fl pml4 base (i # rest) pt p =
     (case protect_in_table M tr pt p pml4 (va_page base i) fl of
        None \<Rightarrow> None
      | Some (pt', p', Err _) \<Rightarrow> Some (pt', p', False)
      | Some (pt', p', Ok _) \<Rightarrow> mprotect_pages M tr fl pml4 base rest pt' p')"
  by (simp only: mprotect_pages.simps block_at_def page_block_simps)

lemma mprotect_pages_leaf:
  assumes "mapper_laws M leaf" "translate_law leaf tr" "base mod PAGE_SIZE = 0"
    "mprotect_pages M tr fl pml4 base is pt p = Some (pt', p', True)" "\<forall>i \<in> set is. user_page (va_page base i)" "user_page w"
  shows "leaf pt' q y w = (if touched False base (set is) pml4 q y w then map_option (with_flags fl) (leaf pt q y w)
      else leaf pt q y w)"
    "i \<in> set is \<Longrightarrow> leaf pt pml4 Size4KiB (va_page base i) \<noteq> None"
proof -
  have "(\<forall>q y w. user_page w \<longrightarrow> leaf pt' q y w = (if touched False base (set is) pml4 q y w
      then map_option (with_flags fl) (leaf pt q y w) else leaf pt q y w)) \<and>
    (\<forall>i \<in> set is. leaf pt pml4 Size4KiB (va_page base i) \<noteq> None)"
    using assms(4,5)
  proof (induction "is" arbitrary: pt p)
    case (Cons j "is")
    obtain pt1 p1 r where u: "protect_in_table M tr pt p pml4 (va_page base j) fl = Some (pt1, p1, Ok r)"
      "mprotect_pages M tr fl pml4 base is pt1 p1 = Some (pt', p', True)"
      using Cons.prems(1) unfolding mprotect_step by (auto split: option.splits sum.splits)
    have uj: "user_page (va_page base j)" "\<forall>i \<in> set is. user_page (va_page base i)" using Cons.prems(2) by auto
    note l = protect_leaf[OF assms(1,2) u(1) assms(3) uj(1)]
    have l1: "leaf pt1 q y w = (if q = pml4 \<and> y = Size4KiB \<and> w = va_page base j
        then map_option (with_flags fl) (leaf pt q y w) else leaf pt q y w)" if "user_page w" for q y w
      using l(1)[OF that, of q y] by (simp add: is_ok_def)
    have l2: "leaf pt pml4 Size4KiB (va_page base j) \<noteq> None" using l(2)[OF uj(1)] by (simp add: is_ok_def)
    note ih = Cons.IH[OF u(2) uj(2)]
    have "leaf pt pml4 Size4KiB (va_page base i) \<noteq> None" if "i \<in> set is" for i
    proof -
      have "leaf pt1 pml4 Size4KiB (va_page base i) \<noteq> None" "user_page (va_page base i)" using conjunct2[OF ih] uj(2) that by blast+
      then show ?thesis using l1[of "va_page base i" pml4 Size4KiB] by (metis option.map_disc_iff)
    qed
    moreover have "leaf pt' q y w = (if touched False base (set (j # is)) pml4 q y w
        then map_option (with_flags fl) (leaf pt q y w) else leaf pt q y w)" if "user_page w" for q y w
    proof -
      let ?j = "q = pml4 \<and> y = Size4KiB \<and> w = va_page base j" and ?r = "touched False base (set is) pml4 q y w"
      have "touched False base (set (j # is)) pml4 q y w \<longleftrightarrow> ?j \<or> ?r" by (auto simp: touched_def page_block_simps)
      moreover have "leaf pt' q y w = (if ?r then map_option (with_flags fl) (leaf pt1 q y w) else leaf pt1 q y w)"
        using conjunct1[OF ih] that by blast
      ultimately show ?thesis using l1[OF that, of q y] by (cases ?j; cases ?r) (auto simp: option.map_comp comp_def)
    qed
    ultimately show ?case using l2 by auto
  qed (auto simp: touched_def)
  then show "leaf pt' q y w = (if touched False base (set is) pml4 q y w then map_option (with_flags fl) (leaf pt q y w)
      else leaf pt q y w)" "i \<in> set is \<Longrightarrow> leaf pt pml4 Size4KiB (va_page base i) \<noteq> None"
    using assms(6) by blast+
qed

lemma mprotect_pages_core:
  assumes "mapper_laws M leaf" "translate_law leaf tr" "base mod PAGE_SIZE = 0"
    "mprotect_pages M tr fl pml4 base is pt p = Some (pt', p', ok)" "\<forall>i \<in> set is. user_page (va_page base i)"
    "core M leaf Oth X tbl (k\<lparr> pmm := p \<rparr>) pt"
  shows "\<exists>Oth'. core M leaf Oth' X tbl (k\<lparr> pmm := p' \<rparr>) pt'"
  using assms(4-6)
proof (induction "is" arbitrary: pt p Oth)
  case (Cons j "is")
  obtain pt1 p1 r where u: "protect_in_table M tr pt p pml4 (va_page base j) fl = Some (pt1, p1, r)"
    using Cons.prems(1) unfolding mprotect_step by (auto split: option.splits)
  have uj: "user_page (va_page base j)" "\<forall>i \<in> set is. user_page (va_page base i)" using Cons.prems(2) by auto
  note l = protect_leaf(3,4)[OF assms(1,2) u(1) assms(3) uj(1)]
  have h: "holds p (Oth \<union> table_blocks tbl)" using coreD(1)[OF Cons.prems(3)] by simp
  obtain T where T: "holds p1 (Oth \<union> table_blocks tbl \<union> T)" using l(2)[OF uj(1) h] by blast
  have e: "live_entry leaf k pt t z w a" if le: "live_entry leaf k pt1 t z w a" for t z w a
  proof -
    obtain T' fl' where e: "user_page w" "get_task t k = Some T'" "page_table_phys T' \<noteq> 0"
      "leaf pt1 (page_table_phys T') z w = Some (a, fl')" using le by (auto simp: live_entry_def)
    have "map_option fst (leaf pt (page_table_phys T') z w) = Some a" using l(1)[OF e(1), of "page_table_phys T'" z] e(4) by auto
    then show ?thesis using e(1-3) by (auto simp: live_entry_def)
  qed
  have c: "core M leaf (Oth \<union> (T - table_blocks tbl)) X tbl (k\<lparr> pmm := p1 \<rparr>) pt1"
    using core_pages[OF Cons.prems(3) T, of pt1] e by simp
  show ?case
  proof (cases r)
    case (Inl err)
    then show ?thesis using c Cons.prems(1) u unfolding mprotect_step by auto
  next
    case (Inr x)
    then have "mprotect_pages M tr fl pml4 base is pt1 p1 = Some (pt', p', ok)"
      using Cons.prems(1) u unfolding mprotect_step by simp
    then show ?thesis using Cons.IH[OF _ uj(2) c] by blast
  qed
qed auto

lemma mprotect_range:
  assumes "syscall_mprotect M tr base sz flags s = Some (s', r)" "s' \<noteq> s \<or> r \<noteq> u64_MAX"
  shows "base mod PAGE_SIZE = 0" "unat base + 4096 * unat (pages_for sz) \<le> 2 ^ 47"
    "\<not> (flags AND 0x2 \<noteq> 0 \<and> flags AND 0x4 \<noteq> 0)"
proof -
  have g: "sz \<noteq> 0" "base mod PAGE_SIZE = 0" "unat base + unat sz < 2 ^ 64" "\<not> USERSPACE_TOP < base + sz"
    "\<not> (flags AND 0x2 \<noteq> 0 \<and> flags AND 0x4 \<noteq> 0)"
    using assms by (auto simp: syscall_mprotect_def split: if_splits)
  then show "base mod PAGE_SIZE = 0" "\<not> (flags AND 0x2 \<noteq> 0 \<and> flags AND 0x4 \<noteq> 0)" by blast+
  have b: "unat base + unat sz \<le> 2 ^ 47"
    using g(3,4) by (simp add: USERSPACE_TOP_def word_less_nat_alt unat_word_ariths)
  then have "unat (pages_for sz) = (unat sz + 4095) div 4096"
    by (simp add: pages_for_def PAGE_SIZE_def unat_div unat_word_ariths)
  moreover have "unat base mod 4096 = 0"
  proof -
    have "unat (base mod PAGE_SIZE) = unat base mod 4096" by (simp add: PAGE_SIZE_def unat_mod)
    then show ?thesis using g(2) by simp
  qed
  moreover from this obtain k where k: "unat base = 4096 * k" by (auto elim: dvdE)
  moreover have "unat sz + 4095 < Suc (2 ^ 35 - k) * 4096" using b k by simp
  then have "(unat sz + 4095) div 4096 < Suc (2 ^ 35 - k)" by (rule less_mult_imp_div_less)
  ultimately show "unat base + 4096 * unat (pages_for sz) \<le> 2 ^ 47" using b k by simp
qed

text \<open>C20: changing the protection of a range keeps its memory: when the call succeeds every page of the
  range was mapped, keeps its frame and gets exactly the requested protection, no other entry of any task changes,
  and no page of the range is both writable and executable afterwards.\<close>

theorem mprotect_exact:
  assumes "mapper_laws M leaf" "translate_law leaf tr" "syscall_mprotect M tr base sz flags s = Some (s', 0)"
    "current_task (sh_kernel (mm_sh s)) = Some T"
  shows "(\<forall>q y w. user_page w \<longrightarrow> leaf (sh_pt (mm_sh s')) q y w =
      (if touched False base {0..<unat (pages_for sz)} (page_table_phys T) q y w
       then map_option (with_flags (prot_flags flags)) (leaf (sh_pt (mm_sh s)) q y w) else leaf (sh_pt (mm_sh s)) q y w)) \<and>
    (\<forall>i < unat (pages_for sz). leaf (sh_pt (mm_sh s)) (page_table_phys T) Size4KiB (va_page base i) \<noteq> None) \<and>
    (WRITABLE \<in> prot_flags flags \<longrightarrow> NO_EXECUTE \<in> prot_flags flags)"
proof -
  let ?n = "unat (pages_for sz)"
  have r: "base mod PAGE_SIZE = 0" "unat base + 4096 * ?n \<le> 2 ^ 47" "\<not> (flags AND 0x2 \<noteq> 0 \<and> flags AND 0x4 \<noteq> 0)"
    using mprotect_range[OF assms(3)] by (simp_all add: u64_MAX_def)
  obtain pt p where m: "mprotect_pages M tr (prot_flags flags) (page_table_phys T) base [0..<?n]
      (sh_pt (mm_sh s)) (sh_pmm (mm_sh s)) = Some (pt, p, True)" "s' = set_space pt p s"
    using assms(3,4) by (auto simp: syscall_mprotect_def u64_MAX_def split: if_splits option.splits)
  have u: "\<forall>i \<in> set [0..<?n]. user_page (va_page base i)" using va_page_unat(2)[OF r(2)] by simp
  note l = mprotect_pages_leaf[OF assms(1,2) r(1) m(1) u]
  have "leaf (sh_pt (mm_sh s')) q y w = (if touched False base {0..<?n} (page_table_phys T) q y w
      then map_option (with_flags (prot_flags flags)) (leaf (sh_pt (mm_sh s)) q y w) else leaf (sh_pt (mm_sh s)) q y w)"
    if "user_page w" for q y w
    using l(1)[OF that, of q y] by (simp add: m(2) set_space_def)
  moreover have "leaf (sh_pt (mm_sh s)) (page_table_phys T) Size4KiB (va_page base i) \<noteq> None" if "i < ?n" for i
    using l(2)[of "va_page base i" i] u that by simp
  moreover have "WRITABLE \<in> prot_flags flags \<Longrightarrow> NO_EXECUTE \<in> prot_flags flags"
    using r(3) by (auto simp: prot_flags_def split: if_splits)
  ultimately show ?thesis by blast
qed

definition demo_protected :: "flat_pt MemState" where
  "demo_protected = demo_mem\<lparr> mm_sh := (mm_sh demo_mem)\<lparr> sh_pt :=
     [(0x1000, Size4KiB, 0x50000000) \<mapsto> (0x100000, {PRESENT, USER_ACCESSIBLE, WRITABLE, NO_EXECUTE})] \<rparr> \<rparr>"

definition flat_translate :: "flat_pt translate" where
  "flat_translate pt pml4 v = map_option fst (pt (pml4, Size4KiB, v))"

lemma flat_translate_law: "translate_law flat_leaf flat_translate"
  by (simp add: translate_law_def flat_translate_def flat_leaf_def)

theorem mprotect_exact_witness:
  "\<exists>s'. syscall_mprotect flat_mapper flat_translate 0x50000000 4096 4 demo_protected = Some (s', 0) \<and>
     flat_leaf (sh_pt (mm_sh s')) 0x1000 Size4KiB 0x50000000 = Some (0x100000, {PRESENT, USER_ACCESSIBLE})"
proof -
  have n: "unat (pages_for 4096) = Suc 0" by (simp add: pages_for_def PAGE_SIZE_def)
  have c: "current_task (sh_kernel (mm_sh demo_protected)) = Some (demo_task 1 0x1000)"
    using demo_mem_current by (simp add: demo_protected_def)
  have pt: "sh_pt (mm_sh demo_protected) =
      [(0x1000, Size4KiB, 0x50000000) \<mapsto> (0x100000, {PRESENT, USER_ACCESSIBLE, WRITABLE, NO_EXECUTE})]"
    by (simp add: demo_protected_def)
  have fl: "prot_flags 4 = {PRESENT, USER_ACCESSIBLE}" by (auto simp: prot_flags_def)
  obtain s' where m: "syscall_mprotect flat_mapper flat_translate 0x50000000 4096 4 demo_protected = Some (s', 0)"
    by (simp add: syscall_mprotect_def c n pt demo_shmem_tasks MMAP_BASE_def USERSPACE_TOP_def PAGE_SIZE_def
        protect_in_table_def flat_mapper_def flat_translate_def page_of_def)
  have "user_page 0x50000000" "touched False 0x50000000 {0..<unat (pages_for 4096)} 0x1000 0x1000 Size4KiB 0x50000000"
    by (simp_all add: user_page_def touched_def n block_at_def page_block_simps)
  then have "flat_leaf (sh_pt (mm_sh s')) 0x1000 Size4KiB 0x50000000 = Some (0x100000, {PRESENT, USER_ACCESSIBLE})"
    using mprotect_exact[OF flat_laws flat_translate_law m c, THEN conjunct1, rule_format, of "0x50000000" "0x1000" Size4KiB]
    by (simp add: demo_shmem_tasks fl pt flat_leaf_def)
  then show ?thesis using m by blast
qed

section \<open>No entry into free memory\<close>

lemma mmap_ok:
  assumes "mapper_laws M leaf" "va_state s" "syscall_mmap M hint sz flags s = Some (s', v)" "sh_ok M leaf X (mm_sh s)"
  shows "sh_ok M leaf X (mm_sh s')"
proof (cases "mm_sh s' = mm_sh s")
  case True
  then show ?thesis using assms(4) by simp
next
  case False
  obtain Oth where c: "core M leaf Oth X (sh_table (mm_sh s)) (sh_kernel (mm_sh s)) (sh_pt (mm_sh s))"
    using assms(4) by (auto simp: sh_ok_def)
  have sz: "\<not> (sz = 0 \<or> MAX_MMAP_SIZE < sz)" using assms(3) False by (auto simp: syscall_mmap_def split: if_splits)
  obtain s1 x where b: "mmap_base hint (pages_for sz) s = (s1, x)" by fastforce
  note fr = mmap_base_frame[OF b]
  obtain T where T: "current_task (sh_kernel (mm_sh s)) = Some T"
    using assms(3) sz by (auto simp: syscall_mmap_def split: option.splits)
  obtain base pt p m ok where mp: "mmap_pages M (prot_flags flags) (page_table_phys T) base [0..<unat (pages_for sz)]
      (sh_pt (mm_sh s)) (sh_pmm (mm_sh s)) (mm_mem s) = Some (pt, p, m, ok)" "s' = (set_space pt p s1)\<lparr> mm_mem := m \<rparr>"
      "x = Some base"
    using assms(3) False sz b fr T by (auto simp: syscall_mmap_def split: if_splits option.splits)
  have al: "base mod PAGE_SIZE = 0" using mmap_base_ok(1)[OF b[unfolded mp(3)] assms(2) pages_for_bounds(2)[OF sz]] .
  have "core M leaf Oth X (sh_table (mm_sh s)) ((sh_kernel (mm_sh s))\<lparr> pmm := sh_pmm (mm_sh s) \<rparr>) (sh_pt (mm_sh s))"
    using c by simp
  from mmap_pages_core[OF assms(1) mp(1) this al]
  show ?thesis unfolding mp(2) by (auto simp: sh_ok_def set_space_def fr)
qed

lemma mprotect_ok:
  assumes "mapper_laws M leaf" "translate_law leaf tr" "syscall_mprotect M tr base sz flags s = Some (s', r)" "sh_ok M leaf X (mm_sh s)"
  shows "sh_ok M leaf X (mm_sh s')"
proof (cases "s' = s")
  case True
  then show ?thesis using assms(4) by simp
next
  case False
  obtain Oth where c: "core M leaf Oth X (sh_table (mm_sh s)) ((sh_kernel (mm_sh s))\<lparr> pmm := sh_pmm (mm_sh s) \<rparr>) (sh_pt (mm_sh s))"
    using assms(4) by (auto simp: sh_ok_def)
  have rg: "base mod PAGE_SIZE = 0" "unat base + 4096 * unat (pages_for sz) \<le> 2 ^ 47"
    using mprotect_range[OF assms(3)] False by blast+
  obtain T where T: "current_task (sh_kernel (mm_sh s)) = Some T"
    using assms(3) False by (auto simp: syscall_mprotect_def split: if_splits option.splits)
  obtain pt p ok where m: "mprotect_pages M tr (prot_flags flags) (page_table_phys T) base [0..<unat (pages_for sz)]
      (sh_pt (mm_sh s)) (sh_pmm (mm_sh s)) = Some (pt, p, ok)" "s' = set_space pt p s"
    using assms(3) False T by (auto simp: syscall_mprotect_def split: if_splits option.splits)
  have "\<forall>i \<in> set [0..<unat (pages_for sz)]. user_page (va_page base i)" using va_page_unat(2)[OF rg(2)] by simp
  from mprotect_pages_core[OF assms(1,2) rg(1) m(1) this c] show ?thesis
    unfolding m(2) by (auto simp: sh_ok_def set_space_def)
qed

inductive mem_step :: "'pt Mapper \<Rightarrow> 'pt translate \<Rightarrow> 'pt MemState \<Rightarrow> 'pt MemState \<Rightarrow> bool" for M tr where
  shmem: "shmem_step M (mm_sh s) sh \<Longrightarrow> mem_step M tr s (s\<lparr> mm_sh := sh \<rparr>)"
| mmap: "va_state s \<Longrightarrow> syscall_mmap M hint sz flags s = Some (s', v) \<Longrightarrow> mem_step M tr s s'"
| mprotect: "syscall_mprotect M tr base sz flags s = Some (s', r) \<Longrightarrow> mem_step M tr s s'"


text \<open>C4: no use after free through memory mappings: whatever sequence of shared memory operations, task
  switches, task exits, other allocations, anonymous mappings and changes of protection happens, no page-table
  entry of a live task points into memory that the allocator can hand out again, for 4 KiB and for 2 MiB pages.
  Unmapping with \<open>munmap\<close> is not among the steps.\<close>

theorem memory_no_dangling:
  assumes "mapper_laws M leaf" "translate_law leaf tr" "sh_ok M leaf {} (mm_sh s)" "(mem_step M tr)\<^sup>*\<^sup>* s s'"
  shows "no_dangling leaf (mm_sh s')"
proof -
  have step: "sh_ok M leaf {} (mm_sh b)" if "mem_step M tr a b" "sh_ok M leaf {} (mm_sh a)" for a b
    using that
  proof (induction rule: mem_step.induct)
    case (shmem a sh)
    then show ?case using shmem_step_ok[OF shmem(1) assms(1)] by simp
  next
    case (mmap a hint sz flags b v)
    then show ?case by (intro mmap_ok[OF assms(1) mmap(1,2)])
  next
    case (mprotect base sz flags a b r)
    then show ?case by (intro mprotect_ok[OF assms(1,2) mprotect(1)])
  qed
  have "sh_ok M leaf {} (mm_sh s')" using assms(4,3) by (induction rule: rtranclp_induct) (auto intro: step)
  then show ?thesis by (rule sh_ok_no_dangling)
qed

theorem memory_no_dangling_witness:
  "\<exists>s. (mem_step flat_mapper flat_translate)\<^sup>*\<^sup>* demo_mem s \<and>
     syscall_mmap flat_mapper 0x50000000 4096 2 demo_mem = Some (s, 0x50000000) \<and> no_dangling flat_leaf (mm_sh s)"
proof -
  obtain s where m: "syscall_mmap flat_mapper 0x50000000 4096 2 demo_mem = Some (s, 0x50000000)"
    using demo_mmap by blast
  then have "(mem_step flat_mapper flat_translate)\<^sup>*\<^sup>* demo_mem s"
    by (intro r_into_rtranclp mem_step.mmap[OF demo_mem_state(1)])
  then show ?thesis
    using m memory_no_dangling[OF flat_laws flat_translate_law demo_mem_state(2)] by blast
qed

section \<open>What munmap does to shared memory\<close>

definition unmap_law :: "'pt Mapper \<Rightarrow> 'pt leaf \<Rightarrow> bool" where
  "unmap_law M leaf \<longleftrightarrow> (\<forall>pt pml4 z v. user_page v \<longrightarrow> snd (unmap M pt pml4 z v) = map_option fst (leaf pt pml4 z v))"

lemma spaces_uniq:
  "spaces_ok k \<Longrightarrow> get_task t k = Some T \<Longrightarrow> get_task t' k = Some T' \<Longrightarrow> page_table_phys T = page_table_phys T' \<Longrightarrow>
    page_table_phys T \<noteq> 0 \<Longrightarrow> t = t'"
  unfolding spaces_ok_def by blast

lemma munmap_one_page:
  assumes "current_task (sh_kernel (mm_sh s)) = Some T" "page_table_phys T \<noteq> 0" "v mod PAGE_SIZE = 0" "MMAP_BASE \<le> v"
  shows "syscall_munmap M v 4096 s =
    (case unmap_page_in_table M (sh_pt (mm_sh s)) (page_table_phys T) v of
       None \<Rightarrow> None
     | Some (pt, Err _) \<Rightarrow> Some (set_space pt (sh_pmm (mm_sh s)) s, 0)
     | Some (pt, Ok f) \<Rightarrow>
         (case free_pages (sh_pmm (mm_sh s)) f 0 of
            None \<Rightarrow> None
          | Some p \<Rightarrow> Some ((set_space pt p s)\<lparr> mm_freelist := freelist_push v 1 (mm_freelist s) \<rparr>, 0)))"
proof -
  have "unat (pages_for 4096) = Suc 0" by (simp add: pages_for_def PAGE_SIZE_def)
  moreover have "\<not> v < MMAP_BASE" using assms(4) by simp
  ultimately have e: "syscall_munmap M v 4096 s =
      (case munmap_pages M (page_table_phys T) v [0] (sh_pt (mm_sh s)) (sh_pmm (mm_sh s)) 0 of
         None \<Rightarrow> None
       | Some (pt, p, freed) \<Rightarrow>
           (let s1 = set_space pt p s in
            Some (if 0 < freed then s1\<lparr> mm_freelist := freelist_push v freed (mm_freelist s1) \<rparr> else s1, 0)))"
    using assms(1-3) by (simp add: syscall_munmap_def)
  show ?thesis
  proof (cases "unmap_page_in_table M (sh_pt (mm_sh s)) (page_table_phys T) v")
    case (Some x)
    then show ?thesis unfolding e by (cases x; cases "snd x") (auto simp: set_space_def split: option.split)
  qed (simp add: e)
qed

text \<open>C19: \<open>munmap\<close> does not know shared memory: unmapping a page of a shared region with it instead of the
  shared memory call gives the frame back to the allocator while the region and the mappings of the other
  tasks stay, so another task's entry then points into free memory.\<close>

theorem munmap_frees_shared:
  assumes "mapper_laws M leaf" "unmap_law M leaf" "sh_ok M leaf {} (mm_sh s)"
    and "current_task (sh_kernel (mm_sh s)) = Some T" "page_table_phys T \<noteq> 0"
    and "v mod PAGE_SIZE = 0" "MMAP_BASE \<le> v" "user_page v" "virt_valid M v"
    and "sh_table (mm_sh s) sid = Some r" "\<not> is_huge r" "f \<in> set (sm_phys_pages r)"
    and "leaf (sh_pt (mm_sh s)) (page_table_phys T) Size4KiB v = Some (f, fl)"
    and "live_entry leaf (sh_kernel (mm_sh s)) (sh_pt (mm_sh s)) t Size4KiB w f" "(t, w) \<noteq> (task_id T, v)"
  shows "\<exists>s'. syscall_munmap M v 4096 s = Some (s', 0) \<and> sh_table (mm_sh s') sid = Some r \<and>
    live_entry leaf (sh_kernel (mm_sh s')) (sh_pt (mm_sh s')) t Size4KiB w f \<and>
    block_range f 0 \<subseteq> pmm_avail (sh_pmm (mm_sh s'))"
proof -
  let ?k = "sh_kernel (mm_sh s)" and ?pt = "sh_pt (mm_sh s)"
  obtain Oth where c: "core M leaf Oth {} (sh_table (mm_sh s)) ?k ?pt" using assms(3) by (auto simp: sh_ok_def)
  obtain pt' where u: "unmap M ?pt (page_table_phys T) Size4KiB v = (pt', Some f)"
    using assms(2,8,13) unfolding unmap_law_def by (metis fst_conv option.simps(9) prod.collapse)
  have pg: "page_of Size4KiB v = v" using page_of_block_at[of v False 0] assms(6) by (simp add: page_block_simps block_at_def)
  have "(f, 0) \<in> table_blocks (sh_table (mm_sh s))"
    using assms(10-12) coreD(3)[OF c assms(10)]
    by (auto simp: table_blocks_iff region_blocks_def region_wf_def is_huge_def intro!: exI[of _ sid] exI[of _ r])
  then obtain p where p: "free_pages (sh_pmm (mm_sh s)) f 0 = Some p" "pmm_avail p = pmm_avail (sh_pmm (mm_sh s)) \<union> range_of (f, 0)"
    using holds_free[OF coreD(1)[OF c], of f 0] by auto
  obtain T' fl' where l: "user_page w" "get_task t ?k = Some T'" "page_table_phys T' \<noteq> 0"
    "leaf ?pt (page_table_phys T') Size4KiB w = Some (f, fl')" using assms(14) by (auto simp: live_entry_def)
  have "get_task (task_id T) ?k = Some T"
    using assms(4) coreD(5)[OF c] unfolding current_task_def spaces_ok_def by metis
  then have "\<not> (page_table_phys T' = page_table_phys T \<and> w = v)"
    using spaces_uniq[OF coreD(5)[OF c] l(2)] l(3) assms(15) by fastforce
  then have "leaf pt' (page_table_phys T') Size4KiB w = Some (f, fl')"
    using unmap_leaf[OF assms(1) u l(1), of "page_table_phys T'" Size4KiB] l(4) by auto
  then have "live_entry leaf (?k\<lparr> pmm := p \<rparr>) pt' t Size4KiB w f" using l by (auto simp: live_entry_def)
  then show ?thesis
    using p u pg assms(9,10)
    by (intro exI[of _ "(set_space pt' p s)\<lparr> mm_freelist := freelist_push v 1 (mm_freelist s) \<rparr>"])
       (simp add: munmap_one_page[OF assms(4-7)] unmap_page_in_table_def set_space_def range_of_def)
qed


text \<open>Tasks 1 and 2 have both mapped the page of the region.\<close>

lemma demo_map_page:
  assumes "sh_table s 1 = Some r" "sm_phys_pages r = [0x100000]" "\<not> is_huge r"
    "current_task (sh_kernel s) = Some T" "task_id T \<in> set (sm_tasks r)" "page_table_phys T \<noteq> 0"
    "virt mod PAGE_SIZE = 0" "virt_valid flat_mapper virt" "sh_pt s (page_table_phys T, Size4KiB, virt) = None"
  shows "shmem_map flat_mapper 1 virt s =
    Some (s\<lparr> sh_pt := (sh_pt s)((page_table_phys T, Size4KiB, virt) \<mapsto> (0x100000, convert_page_flags (perm_flags (sm_perms r)))),
             sh_table := (sh_table s)(1 \<mapsto> r\<lparr> sm_mappings := sm_mappings r @ [(task_id T, virt)] \<rparr>) \<rparr>, Ok ())"
proof -
  have pg: "page_of Size4KiB virt = virt" using page_of_block_at[of virt False 0] assms(7) by (simp add: page_block_simps block_at_def)
  have "set_pmm (sh_pmm s) s = s" by (simp add: set_pmm_def)
  moreover have "page_of Size4KiB 0x100000 = 0x100000" by (simp add: page_of_def)
  moreover have "phys_valid flat_mapper 0x100000" by (simp add: flat_mapper_def)
  moreover have "map_to flat_mapper (sh_pt s) (sh_pmm s) (page_table_phys T) Size4KiB virt 0x100000 fl =
      ((sh_pt s)((page_table_phys T, Size4KiB, virt) \<mapsto> (0x100000, fl)), sh_pmm s, True)" for fl
    using assms(9) by (simp add: flat_mapper_def)
  ultimately show ?thesis
    using assms pg
    by (simp add: shmem_map_def shmem_map_install_def shmem_map_commit_def block_size_def Let_def map_block_def map_page_in_table_def)
qed

definition demo_both :: "flat_pt ShmemState" where
  "demo_both =
     (case shmem_map flat_mapper 1 0x50000000 demo_granted of
        Some (s, _) \<Rightarrow>
          (let s1 = s\<lparr> sh_kernel := set_current_task 2 (sh_kernel s) \<rparr> in
           (case shmem_map flat_mapper 1 0x60000000 s1 of Some (s2, _) \<Rightarrow> s2 | None \<Rightarrow> s1))
      | None \<Rightarrow> demo_granted)"

abbreviation demo_flags :: "PageTableFlag set" where
  "demo_flags \<equiv> convert_page_flags (perm_flags ReadWrite)"

lemma demo_granted_region:
  "sh_table demo_granted 1 = Some ((new_region 1 [0x100000] 0 4096 ReadWrite 1)\<lparr> sm_tasks := [1, 2] \<rparr>)"
  "get_task t (sh_kernel demo_granted) = get_task t (sh_kernel demo_shmem)"
  by (simp_all add: demo_granted_def demo_created_def)

lemma demo_both:
  "sh_pt demo_both = [(0x1000, Size4KiB, 0x50000000) \<mapsto> (0x100000, demo_flags),
     (0x2000, Size4KiB, 0x60000000) \<mapsto> (0x100000, demo_flags)]"
  "sh_table demo_both 1 = Some ((new_region 1 [0x100000] 0 4096 ReadWrite 1)\<lparr> sm_tasks := [1, 2],
     sm_mappings := [(1, 0x50000000), (2, 0x60000000)] \<rparr>)"
  "sh_kernel demo_both = set_current_task 2 (sh_kernel demo_granted)"
  "sh_ok flat_mapper flat_leaf {} demo_both"
proof -
  let ?r = "(new_region 1 [0x100000] 0 4096 ReadWrite 1)\<lparr> sm_tasks := [1, 2] \<rparr>"
  let ?s = "demo_granted\<lparr> sh_pt := (sh_pt demo_granted)((0x1000, Size4KiB, 0x50000000) \<mapsto> (0x100000, demo_flags)),
      sh_table := (sh_table demo_granted)(1 \<mapsto> ?r\<lparr> sm_mappings := [(1, 0x50000000)] \<rparr>) \<rparr>"
  let ?s1 = "?s\<lparr> sh_kernel := set_current_task 2 (sh_kernel ?s) \<rparr>"
  let ?s2 = "?s1\<lparr> sh_pt := (sh_pt ?s1)((0x2000, Size4KiB, 0x60000000) \<mapsto> (0x100000, demo_flags)),
      sh_table := (sh_table ?s1)(1 \<mapsto> ?r\<lparr> sm_mappings := [(1, 0x50000000), (2, 0x60000000)] \<rparr>) \<rparr>"
  have h: "\<not> is_huge ?r" by (simp add: is_huge_def new_region_def HUGE_PAGE_ORDER_def)
  have v: "virt_valid flat_mapper 0x50000000" "virt_valid flat_mapper 0x60000000" by (simp_all add: flat_mapper_def)
  have m1: "shmem_map flat_mapper 1 0x50000000 demo_granted = Some (?s, Ok ())"
    using demo_map_page[OF demo_granted_region(1) _ h demo_current(2) _ _ _ v(1)]
    by (simp add: new_region_def demo_shmem_tasks demo_current PAGE_SIZE_def)
  have c2: "current_task (sh_kernel ?s1) = Some (demo_task 2 0x2000)"
    by (simp add: current_task_def demo_granted_region(2) demo_shmem_tasks) (simp add: set_current_task_def)
  have r2: "sh_table ?s1 1 = Some (?r\<lparr> sm_mappings := [(1, 0x50000000)] \<rparr>)" by simp
  have h2: "\<not> is_huge (?r\<lparr> sm_mappings := [(1, 0x50000000)] \<rparr>)" using h by (simp add: is_huge_def)
  have m2: "shmem_map flat_mapper 1 0x60000000 ?s1 = Some (?s2, Ok ())"
    using demo_map_page[OF r2 _ h2 c2 _ _ _ v(2)] by (simp add: new_region_def demo_shmem_tasks demo_current PAGE_SIZE_def)
  have b: "demo_both = ?s2" unfolding demo_both_def m1 option.case prod.case Let_def m2 ..
  show "sh_pt demo_both = [(0x1000, Size4KiB, 0x50000000) \<mapsto> (0x100000, demo_flags),
      (0x2000, Size4KiB, 0x60000000) \<mapsto> (0x100000, demo_flags)]"
    "sh_kernel demo_both = set_current_task 2 (sh_kernel demo_granted)"
    "sh_table demo_both 1 = Some (?r\<lparr> sm_mappings := [(1, 0x50000000), (2, 0x60000000)] \<rparr>)"
    unfolding b by (simp_all add: demo_current)
  have "sh_ok flat_mapper flat_leaf {} demo_granted"
    using demo_reached demo_shmem_ok by (induction rule: rtranclp_induct) (auto intro: shmem_step_ok[OF _ flat_laws])
  from shmem_map_ok[OF this flat_laws m1] have "sh_ok flat_mapper flat_leaf {} ?s1" by (rule switch_ok)
  from shmem_map_ok[OF this flat_laws m2] show "sh_ok flat_mapper flat_leaf {} demo_both" unfolding b .
qed

lemma flat_unmap_law: "unmap_law flat_mapper flat_leaf"
  by (simp add: unmap_law_def flat_mapper_def flat_leaf_def)

theorem munmap_frees_shared_witness:
  "\<exists>s'. syscall_munmap flat_mapper 0x60000000 4096 (demo_mem\<lparr> mm_sh := demo_both \<rparr>) = Some (s', 0) \<and>
     live_entry flat_leaf (sh_kernel (mm_sh s')) (sh_pt (mm_sh s')) 1 Size4KiB 0x50000000 0x100000 \<and>
     block_range 0x100000 0 \<subseteq> pmm_avail (sh_pmm (mm_sh s'))"
proof -
  let ?s = "demo_mem\<lparr> mm_sh := demo_both \<rparr>"
  let ?r = "(new_region 1 [0x100000] 0 4096 ReadWrite 1)\<lparr> sm_tasks := [1, 2],
      sm_mappings := [(1, 0x50000000), (2, 0x60000000)] \<rparr>"
  have c: "current_task (sh_kernel (mm_sh ?s)) = Some (demo_task 2 0x2000)"
    by (simp add: demo_both(3) current_task_def demo_granted_region(2) demo_shmem_tasks) (simp add: set_current_task_def)
  have l: "live_entry flat_leaf (sh_kernel (mm_sh ?s)) (sh_pt (mm_sh ?s)) 1 Size4KiB 0x50000000 0x100000"
    by (rule live_entryI[of _ _ _ "demo_task 1 0x1000"])
       (simp_all add: demo_both user_page_def demo_granted_region(2) demo_shmem_tasks flat_leaf_def)
  have "\<exists>s'. syscall_munmap flat_mapper 0x60000000 4096 ?s = Some (s', 0) \<and> sh_table (mm_sh s') 1 = Some ?r \<and>
     live_entry flat_leaf (sh_kernel (mm_sh s')) (sh_pt (mm_sh s')) 1 Size4KiB 0x50000000 0x100000 \<and>
     block_range 0x100000 0 \<subseteq> pmm_avail (sh_pmm (mm_sh s'))"
  proof (rule munmap_frees_shared[OF flat_laws flat_unmap_law _ c _ _ _ _ _ _ _ _ _ l])
    show "sh_ok flat_mapper flat_leaf {} (mm_sh ?s)" using demo_both(4) by simp
    show "sh_table (mm_sh ?s) 1 = Some ?r" using demo_both(2) by simp
    show "flat_leaf (sh_pt (mm_sh ?s)) (page_table_phys (demo_task 2 0x2000)) Size4KiB 0x60000000 = Some (0x100000, demo_flags)"
      by (simp add: demo_both(1) flat_leaf_def demo_shmem_tasks)
  qed (simp_all add: demo_shmem_tasks PAGE_SIZE_def MMAP_BASE_def user_page_def flat_mapper_def new_region_def is_huge_def
      HUGE_PAGE_ORDER_def)
  then show ?thesis by blast
qed

text \<open>Without a bound on the address, an unmapping of a non-canonical page halts the kernel.\<close>

lemma munmap_noncanonical_panics:
  assumes "current_task (sh_kernel (mm_sh s)) = Some T" "page_table_phys T \<noteq> 0" "v mod PAGE_SIZE = 0" "MMAP_BASE \<le> v" "\<not> virt_valid M v"
  shows "syscall_munmap M v 4096 s = None"
  using assms(5) by (simp add: munmap_one_page[OF assms(1-4)] unmap_page_in_table_def)

text \<open>Only \<open>mprotect\<close> refuses memory that is writable and executable; \<open>mmap\<close> gives it.\<close>

lemma write_exec:
  "prot_flags 6 = {PRESENT, USER_ACCESSIBLE, WRITABLE}"
  "syscall_mprotect M tr v sz 6 s = Some (s, u64_MAX)"
  "\<exists>s'. syscall_mmap flat_mapper 0x50000000 4096 6 demo_mem = Some (s', 0x50000000)"
  using demo_mmap by (auto simp: prot_flags_def syscall_mprotect_def)

end
