(* ===== verification/A64.thy ===== *)
theory A64
  imports Prelude
begin

text \<open>
  The AArch64 instruction encoder of the just-in-time compiler
  (\<open>tools/a64-encoder/src/lib.rs\<close>): registers, condition codes, the code buffer and one
  definition per emitter of \<open>Encoder\<close>.  An emitter appends one instruction word in
  little-endian order, or refuses an immediate that does not fit and leaves the buffer alone.
  \<open>rrr\<close>, \<open>scaled_imm\<close>, \<open>pair_imm\<close>, \<open>branch19\<close> and \<open>branch26\<close> are the layouts that the emitters of a
  family share; the names of emitters that clash with common names carry a suffix.
\<close>

section \<open>Registers, conditions and the buffer\<close>

type_synonym i16 = "16 word"
type_synonym i32 = "32 word"
type_synonym i64 = "64 word"
type_synonym u128 = "128 word"

datatype Vreg = Vreg (vreg_no: u8)
datatype Reg = Reg (reg_no: u8)

definition Vreg_new :: "u8 \<Rightarrow> Vreg option" where
  "Vreg_new idx = (if idx \<le> 31 then Some (Vreg idx) else None)"

definition venc :: "Vreg \<Rightarrow> u32" where
  "venc v = ucast (vreg_no v) AND 0x1F"

definition Reg_new :: "u8 \<Rightarrow> Reg option" where
  "Reg_new idx = (if idx \<le> 30 then Some (Reg idx) else None)"

definition renc :: "Reg \<Rightarrow> u32" where
  "renc r = ucast (reg_no r) AND 0x1F"

abbreviation X0 :: Reg where "X0 \<equiv> Reg 0"
abbreviation X16 :: Reg where "X16 \<equiv> Reg 16"
abbreviation X17 :: Reg where "X17 \<equiv> Reg 17"
abbreviation X29 :: Reg where "X29 \<equiv> Reg 29"
abbreviation X30 :: Reg where "X30 \<equiv> Reg 30"
abbreviation ZR :: Reg where "ZR \<equiv> Reg 31"
abbreviation SP :: Reg where "SP \<equiv> Reg 31"

datatype MovShift = Lsl0 | Lsl16 | Lsl32 | Lsl48

fun mov_shift :: "MovShift \<Rightarrow> u32" where
  "mov_shift Lsl0 = 0"
| "mov_shift Lsl16 = 1"
| "mov_shift Lsl32 = 2"
| "mov_shift Lsl48 = 3"

datatype Condition = Eq | Ne | Hs | Lo | Hi | Ls | Ge | Lt | Gt | Le

fun cond_code :: "Condition \<Rightarrow> u32" where
  "cond_code Eq = 0"
| "cond_code Ne = 1"
| "cond_code Hs = 2"
| "cond_code Lo = 3"
| "cond_code Hi = 8"
| "cond_code Ls = 9"
| "cond_code Ge = 10"
| "cond_code Lt = 11"
| "cond_code Gt = 12"
| "cond_code Le = 13"

fun invert :: "Condition \<Rightarrow> Condition" where
  "invert Eq = Ne"
| "invert Ne = Eq"
| "invert Hs = Lo"
| "invert Lo = Hs"
| "invert Hi = Ls"
| "invert Ls = Hi"
| "invert Ge = Lt"
| "invert Lt = Ge"
| "invert Gt = Le"
| "invert Le = Gt"

datatype EncodeError = ImmediateOutOfRange | OffsetMisaligned

record Encoder =
  buf :: "u8 list"

definition Encoder_new :: Encoder where
  "Encoder_new = \<lparr> buf = [] \<rparr>"

definition enc_pos :: "Encoder \<Rightarrow> nat" where
  "enc_pos e = length (buf e)"

definition to_le_bytes :: "u32 \<Rightarrow> u8 list" where
  "to_le_bytes w = [ucast w, ucast (drop_bit 8 w), ucast (drop_bit 16 w), ucast (drop_bit 24 w)]"

definition from_le_bytes :: "u8 list \<Rightarrow> u32" where
  "from_le_bytes b = ucast (b ! 0) OR push_bit 8 (ucast (b ! 1)) OR push_bit 16 (ucast (b ! 2)) OR push_bit 24 (ucast (b ! 3))"

definition emit :: "u32 \<Rightarrow> Encoder \<Rightarrow> Encoder" where
  "emit word e = e\<lparr> buf := buf e @ to_le_bytes word \<rparr>"

definition emit_raw_word :: "u32 \<Rightarrow> Encoder \<Rightarrow> Encoder" where
  "emit_raw_word word e = emit word e"

definition nop_insn :: "Encoder \<Rightarrow> Encoder" where
  "nop_insn e = emit 0xD503201F e"

text \<open>Overwriting an instruction that was emitted; the slice panics beyond the end of the buffer.\<close>

definition patch_word :: "nat \<Rightarrow> u32 \<Rightarrow> Encoder \<Rightarrow> Encoder option" where
  "patch_word at word e =
     (if at + 4 \<le> length (buf e)
      then Some (e\<lparr> buf := take at (buf e) @ to_le_bytes word @ drop (at + 4) (buf e) \<rparr>) else None)"

section \<open>Layouts\<close>

type_synonym emitter = "Encoder \<Rightarrow> (EncodeError, Encoder) result"

definition emit_ok :: "u32 \<Rightarrow> emitter" where
  "emit_ok word e = Ok (emit word e)"

definition refuse :: "EncodeError \<Rightarrow> emitter" where
  "refuse err e = Err err"

definition emit_encoded :: "(EncodeError, u32) result \<Rightarrow> emitter" where
  "emit_encoded r e = (case r of Err err \<Rightarrow> Err err | Ok word \<Rightarrow> Ok (emit word e))"

text \<open>Three register fields: bits 20 to 16, 9 to 5 and 4 to 0.\<close>

definition rrr :: "u32 \<Rightarrow> u32 \<Rightarrow> u32 \<Rightarrow> u32 \<Rightarrow> u32" where
  "rrr base rm rn rd = base OR push_bit 16 rm OR push_bit 5 rn OR rd"

text \<open>Loads and stores with an unsigned offset scaled by the access size.\<close>

definition scaled_imm :: "u32 \<Rightarrow> u32 \<Rightarrow> nat \<Rightarrow> u32 \<Rightarrow> u32 \<Rightarrow> u32 \<Rightarrow> emitter" where
  "scaled_imm base align_mask scale offset rn rt =
     (if offset AND align_mask \<noteq> 0 then refuse OffsetMisaligned
      else let imm12 = drop_bit scale offset
           in if 0xFFF < imm12 then refuse ImmediateOutOfRange
              else emit_ok (base OR push_bit 10 imm12 OR push_bit 5 rn OR rt))"

text \<open>Pairs with a signed offset in units of eight bytes.\<close>

definition pair_imm :: "u32 \<Rightarrow> Reg \<Rightarrow> Reg \<Rightarrow> Reg \<Rightarrow> i16 \<Rightarrow> emitter" where
  "pair_imm base rt rt2 rn imm =
     (if imm AND 0x7 \<noteq> 0 then refuse OffsetMisaligned
      else let imm7 = signed_drop_bit 3 imm
           in if \<not> (- 64 \<le> sint imm7 \<and> sint imm7 < 64) then refuse ImmediateOutOfRange
              else emit_ok (base OR push_bit 15 (scast imm7 AND 0x7F) OR push_bit 10 (renc rt2) OR push_bit 5 (renc rn) OR renc rt))"

text \<open>Branches with a signed offset in words of 19 and of 26 bits.\<close>

definition branch19 :: "u32 \<Rightarrow> i32 \<Rightarrow> u32 \<Rightarrow> (EncodeError, u32) result" where
  "branch19 base offset low =
     (if offset AND 0x3 \<noteq> 0 then Err OffsetMisaligned
      else let imm19 = signed_drop_bit 2 offset
           in if \<not> (- (2 ^ 18) \<le> sint imm19 \<and> sint imm19 < 2 ^ 18) then Err ImmediateOutOfRange
              else Ok (base OR push_bit 5 (imm19 AND 0x7FFFF) OR low))"

definition branch26 :: "u32 \<Rightarrow> i32 \<Rightarrow> (EncodeError, u32) result" where
  "branch26 base offset =
     (if offset AND 0x3 \<noteq> 0 then Err OffsetMisaligned
      else let imm26 = signed_drop_bit 2 offset
           in if \<not> (- (2 ^ 25) \<le> sint imm26 \<and> sint imm26 < 2 ^ 25) then Err ImmediateOutOfRange
              else Ok (base OR (imm26 AND 0x03FFFFFF)))"

section \<open>Emitters\<close>

definition movz :: "Reg \<Rightarrow> u16 \<Rightarrow> MovShift \<Rightarrow> emitter" where
  "movz rd imm16 shift = emit_ok (0xD2800000 OR push_bit 21 (mov_shift shift) OR push_bit 5 (ucast imm16) OR renc rd)"

definition movn :: "Reg \<Rightarrow> u16 \<Rightarrow> MovShift \<Rightarrow> emitter" where
  "movn rd imm16 shift = emit_ok (0x92800000 OR push_bit 21 (mov_shift shift) OR push_bit 5 (ucast imm16) OR renc rd)"

definition movk :: "Reg \<Rightarrow> u16 \<Rightarrow> MovShift \<Rightarrow> emitter" where
  "movk rd imm16 shift = emit_ok (0xF2800000 OR push_bit 21 (mov_shift shift) OR push_bit 5 (ucast imm16) OR renc rd)"

definition add_x :: "Reg \<Rightarrow> Reg \<Rightarrow> Reg \<Rightarrow> emitter" where
  "add_x rd rn rm = emit_ok (rrr 0x8B000000 (renc rm) (renc rn) (renc rd))"

definition sub_x :: "Reg \<Rightarrow> Reg \<Rightarrow> Reg \<Rightarrow> emitter" where
  "sub_x rd rn rm = emit_ok (rrr 0xCB000000 (renc rm) (renc rn) (renc rd))"

definition mul_x :: "Reg \<Rightarrow> Reg \<Rightarrow> Reg \<Rightarrow> emitter" where
  "mul_x rd rn rm = emit_ok (0x9B000000 OR push_bit 16 (renc rm) OR push_bit 10 31 OR push_bit 5 (renc rn) OR renc rd)"

definition sdiv_x :: "Reg \<Rightarrow> Reg \<Rightarrow> Reg \<Rightarrow> emitter" where
  "sdiv_x rd rn rm = emit_ok (rrr 0x9AC00C00 (renc rm) (renc rn) (renc rd))"

definition add_ext_uxtw :: "Reg \<Rightarrow> Reg \<Rightarrow> Reg \<Rightarrow> emitter" where
  "add_ext_uxtw rd rn rm = emit_ok (rrr 0x8B204000 (renc rm) (renc rn) (renc rd))"

definition add_ext_uxtw_shifted :: "Reg \<Rightarrow> Reg \<Rightarrow> Reg \<Rightarrow> u32 \<Rightarrow> emitter" where
  "add_ext_uxtw_shifted rd rn rm shift =
     (if 4 < shift then refuse ImmediateOutOfRange
      else emit_ok (0x8B204000 OR push_bit 16 (renc rm) OR push_bit 10 (shift AND 0x7) OR push_bit 5 (renc rn) OR renc rd))"

definition fmov_s_from_w :: "Vreg \<Rightarrow> Reg \<Rightarrow> emitter" where
  "fmov_s_from_w sd wn = emit_ok (rrr 0x1E270000 0 (renc wn) (venc sd))"

definition fmov_w_from_s :: "Reg \<Rightarrow> Vreg \<Rightarrow> emitter" where
  "fmov_w_from_s wd sn = emit_ok (rrr 0x1E260000 0 (venc sn) (renc wd))"

definition fadd_s :: "Vreg \<Rightarrow> Vreg \<Rightarrow> Vreg \<Rightarrow> emitter" where
  "fadd_s sd sn sm = emit_ok (rrr 0x1E202800 (venc sm) (venc sn) (venc sd))"

definition fsub_s :: "Vreg \<Rightarrow> Vreg \<Rightarrow> Vreg \<Rightarrow> emitter" where
  "fsub_s sd sn sm = emit_ok (rrr 0x1E203800 (venc sm) (venc sn) (venc sd))"

definition fmul_s :: "Vreg \<Rightarrow> Vreg \<Rightarrow> Vreg \<Rightarrow> emitter" where
  "fmul_s sd sn sm = emit_ok (rrr 0x1E200800 (venc sm) (venc sn) (venc sd))"

definition fdiv_s :: "Vreg \<Rightarrow> Vreg \<Rightarrow> Vreg \<Rightarrow> emitter" where
  "fdiv_s sd sn sm = emit_ok (rrr 0x1E201800 (venc sm) (venc sn) (venc sd))"

definition fmov_s_s :: "Vreg \<Rightarrow> Vreg \<Rightarrow> emitter" where
  "fmov_s_s sd sn = emit_ok (rrr 0x1E204000 0 (venc sn) (venc sd))"

definition ldr_s_imm :: "Vreg \<Rightarrow> Reg \<Rightarrow> u32 \<Rightarrow> emitter" where
  "ldr_s_imm sd xn offset = scaled_imm 0xBD400000 0x3 2 offset (renc xn) (venc sd)"

definition str_s_imm :: "Vreg \<Rightarrow> Reg \<Rightarrow> u32 \<Rightarrow> emitter" where
  "str_s_imm sd xn offset = scaled_imm 0xBD000000 0x3 2 offset (renc xn) (venc sd)"

definition fcmp_s :: "Vreg \<Rightarrow> Vreg \<Rightarrow> emitter" where
  "fcmp_s sn sm = emit_ok (rrr 0x1E202000 (venc sm) (venc sn) 0)"

definition fmov_d_from_x :: "Vreg \<Rightarrow> Reg \<Rightarrow> emitter" where
  "fmov_d_from_x dd xn = emit_ok (rrr 0x9E670000 0 (renc xn) (venc dd))"

definition fmov_x_from_d :: "Reg \<Rightarrow> Vreg \<Rightarrow> emitter" where
  "fmov_x_from_d xd dn = emit_ok (rrr 0x9E660000 0 (venc dn) (renc xd))"

definition fadd_d :: "Vreg \<Rightarrow> Vreg \<Rightarrow> Vreg \<Rightarrow> emitter" where
  "fadd_d dd dn dm = emit_ok (rrr 0x1E602800 (venc dm) (venc dn) (venc dd))"

definition fsub_d :: "Vreg \<Rightarrow> Vreg \<Rightarrow> Vreg \<Rightarrow> emitter" where
  "fsub_d dd dn dm = emit_ok (rrr 0x1E603800 (venc dm) (venc dn) (venc dd))"

definition fmul_d :: "Vreg \<Rightarrow> Vreg \<Rightarrow> Vreg \<Rightarrow> emitter" where
  "fmul_d dd dn dm = emit_ok (rrr 0x1E600800 (venc dm) (venc dn) (venc dd))"

definition fdiv_d :: "Vreg \<Rightarrow> Vreg \<Rightarrow> Vreg \<Rightarrow> emitter" where
  "fdiv_d dd dn dm = emit_ok (rrr 0x1E601800 (venc dm) (venc dn) (venc dd))"

definition fmov_d_d :: "Vreg \<Rightarrow> Vreg \<Rightarrow> emitter" where
  "fmov_d_d dd dn = emit_ok (rrr 0x1E604000 0 (venc dn) (venc dd))"

definition ldr_d_imm :: "Vreg \<Rightarrow> Reg \<Rightarrow> u32 \<Rightarrow> emitter" where
  "ldr_d_imm dd xn offset = scaled_imm 0xFD400000 0x7 3 offset (renc xn) (venc dd)"

definition str_d_imm :: "Vreg \<Rightarrow> Reg \<Rightarrow> u32 \<Rightarrow> emitter" where
  "str_d_imm dd xn offset = scaled_imm 0xFD000000 0x7 3 offset (renc xn) (venc dd)"

definition fcmp_d :: "Vreg \<Rightarrow> Vreg \<Rightarrow> emitter" where
  "fcmp_d dn dm = emit_ok (rrr 0x1E602000 (venc dm) (venc dn) 0)"

definition ldr_q_imm :: "Vreg \<Rightarrow> Reg \<Rightarrow> u32 \<Rightarrow> emitter" where
  "ldr_q_imm qt xn offset = scaled_imm 0x3DC00000 0xF 4 offset (renc xn) (venc qt)"

definition str_q_imm :: "Vreg \<Rightarrow> Reg \<Rightarrow> u32 \<Rightarrow> emitter" where
  "str_q_imm qt xn offset = scaled_imm 0x3D800000 0xF 4 offset (renc xn) (venc qt)"

definition ldr_q_literal :: "Vreg \<Rightarrow> i32 \<Rightarrow> emitter" where
  "ldr_q_literal qt byte_offset = emit_encoded (branch19 0x9C000000 byte_offset (venc qt))"

definition fadd_4s :: "Vreg \<Rightarrow> Vreg \<Rightarrow> Vreg \<Rightarrow> emitter" where
  "fadd_4s vd vn vm = emit_ok (rrr 0x4E20D400 (venc vm) (venc vn) (venc vd))"

definition fmul_4s :: "Vreg \<Rightarrow> Vreg \<Rightarrow> Vreg \<Rightarrow> emitter" where
  "fmul_4s vd vn vm = emit_ok (rrr 0x6E20DC00 (venc vm) (venc vn) (venc vd))"

definition dup_s_from_v_s_lane :: "Vreg \<Rightarrow> Vreg \<Rightarrow> u8 \<Rightarrow> emitter" where
  "dup_s_from_v_s_lane sd vn lane =
     (if 4 \<le> lane then refuse ImmediateOutOfRange
      else emit_ok (let imm5 = push_bit 3 (ucast lane) OR 4 in 0x5E000400 OR push_bit 16 imm5 OR push_bit 5 (venc vn) OR venc sd))"

definition dup_4s_from_vs_lane0 :: "Vreg \<Rightarrow> Vreg \<Rightarrow> emitter" where
  "dup_4s_from_vs_lane0 vd vn = emit_ok (rrr 0x4E040400 0 (venc vn) (venc vd))"

definition dup_4s_from_w :: "Vreg \<Rightarrow> Reg \<Rightarrow> emitter" where
  "dup_4s_from_w vd wn = emit_ok (rrr 0x4E040C00 0 (renc wn) (venc vd))"

definition add_4s_vector :: "Vreg \<Rightarrow> Vreg \<Rightarrow> Vreg \<Rightarrow> emitter" where
  "add_4s_vector vd vn vm = emit_ok (rrr 0x4EA08400 (venc vm) (venc vn) (venc vd))"

definition sub_4s_vector :: "Vreg \<Rightarrow> Vreg \<Rightarrow> Vreg \<Rightarrow> emitter" where
  "sub_4s_vector vd vn vm = emit_ok (rrr 0x6EA08400 (venc vm) (venc vn) (venc vd))"

definition eor_16b_vec :: "Vreg \<Rightarrow> Vreg \<Rightarrow> Vreg \<Rightarrow> emitter" where
  "eor_16b_vec vd vn vm = emit_ok (rrr 0x6E201C00 (venc vm) (venc vn) (venc vd))"

definition sdot_4s_16b :: "Vreg \<Rightarrow> Vreg \<Rightarrow> Vreg \<Rightarrow> emitter" where
  "sdot_4s_16b vd vn vm = emit_ok (rrr 0x4E809400 (venc vm) (venc vn) (venc vd))"

definition udot_4s_16b :: "Vreg \<Rightarrow> Vreg \<Rightarrow> Vreg \<Rightarrow> emitter" where
  "udot_4s_16b vd vn vm = emit_ok (rrr 0x6E809400 (venc vm) (venc vn) (venc vd))"

definition mul_4s_vector :: "Vreg \<Rightarrow> Vreg \<Rightarrow> Vreg \<Rightarrow> emitter" where
  "mul_4s_vector vd vn vm = emit_ok (rrr 0x4EA09C00 (venc vm) (venc vn) (venc vd))"

definition umov_w_from_vs_lane :: "Reg \<Rightarrow> Vreg \<Rightarrow> u8 \<Rightarrow> emitter" where
  "umov_w_from_vs_lane wd vn lane =
     (if 4 \<le> lane then refuse ImmediateOutOfRange
      else emit_ok (let imm5 = push_bit 3 (ucast lane) OR 4 in 0x0E003C00 OR push_bit 16 imm5 OR push_bit 5 (venc vn) OR renc wd))"

definition fmla_4s :: "Vreg \<Rightarrow> Vreg \<Rightarrow> Vreg \<Rightarrow> emitter" where
  "fmla_4s vd vn vm = emit_ok (rrr 0x4E20CC00 (venc vm) (venc vn) (venc vd))"

definition fsub_4s :: "Vreg \<Rightarrow> Vreg \<Rightarrow> Vreg \<Rightarrow> emitter" where
  "fsub_4s vd vn vm = emit_ok (rrr 0x4EA0D400 (venc vm) (venc vn) (venc vd))"

definition fdiv_4s :: "Vreg \<Rightarrow> Vreg \<Rightarrow> Vreg \<Rightarrow> emitter" where
  "fdiv_4s vd vn vm = emit_ok (rrr 0x6E20FC00 (venc vm) (venc vn) (venc vd))"

definition faddp_4s :: "Vreg \<Rightarrow> Vreg \<Rightarrow> Vreg \<Rightarrow> emitter" where
  "faddp_4s vd vn vm = emit_ok (rrr 0x6E20D400 (venc vm) (venc vn) (venc vd))"

definition faddp_s_from_2s_scalar :: "Vreg \<Rightarrow> Vreg \<Rightarrow> emitter" where
  "faddp_s_from_2s_scalar sd vn = emit_ok (rrr 0x7E30D800 0 (venc vn) (venc sd))"

definition fmax_4s :: "Vreg \<Rightarrow> Vreg \<Rightarrow> Vreg \<Rightarrow> emitter" where
  "fmax_4s vd vn vm = emit_ok (rrr 0x4E20F400 (venc vm) (venc vn) (venc vd))"

definition fmin_4s :: "Vreg \<Rightarrow> Vreg \<Rightarrow> Vreg \<Rightarrow> emitter" where
  "fmin_4s vd vn vm = emit_ok (rrr 0x4EA0F400 (venc vm) (venc vn) (venc vd))"

definition fadd_2d :: "Vreg \<Rightarrow> Vreg \<Rightarrow> Vreg \<Rightarrow> emitter" where
  "fadd_2d vd vn vm = emit_ok (rrr 0x4E60D400 (venc vm) (venc vn) (venc vd))"

definition fsub_2d :: "Vreg \<Rightarrow> Vreg \<Rightarrow> Vreg \<Rightarrow> emitter" where
  "fsub_2d vd vn vm = emit_ok (rrr 0x4EE0D400 (venc vm) (venc vn) (venc vd))"

definition fmul_2d :: "Vreg \<Rightarrow> Vreg \<Rightarrow> Vreg \<Rightarrow> emitter" where
  "fmul_2d vd vn vm = emit_ok (rrr 0x6E60DC00 (venc vm) (venc vn) (venc vd))"

definition fdiv_2d :: "Vreg \<Rightarrow> Vreg \<Rightarrow> Vreg \<Rightarrow> emitter" where
  "fdiv_2d vd vn vm = emit_ok (rrr 0x6E60FC00 (venc vm) (venc vn) (venc vd))"

definition fmin_2d :: "Vreg \<Rightarrow> Vreg \<Rightarrow> Vreg \<Rightarrow> emitter" where
  "fmin_2d vd vn vm = emit_ok (rrr 0x4EE0F400 (venc vm) (venc vn) (venc vd))"

definition fmax_2d :: "Vreg \<Rightarrow> Vreg \<Rightarrow> Vreg \<Rightarrow> emitter" where
  "fmax_2d vd vn vm = emit_ok (rrr 0x4E60F400 (venc vm) (venc vn) (venc vd))"

definition fsqrt_2d :: "Vreg \<Rightarrow> Vreg \<Rightarrow> emitter" where
  "fsqrt_2d vd vn = emit_ok (rrr 0x6EE1F800 0 (venc vn) (venc vd))"

definition fabs_2d :: "Vreg \<Rightarrow> Vreg \<Rightarrow> emitter" where
  "fabs_2d vd vn = emit_ok (rrr 0x4EE0F800 0 (venc vn) (venc vd))"

definition fneg_2d :: "Vreg \<Rightarrow> Vreg \<Rightarrow> emitter" where
  "fneg_2d vd vn = emit_ok (rrr 0x6EE0F800 0 (venc vn) (venc vd))"

definition add_16b_vector :: "Vreg \<Rightarrow> Vreg \<Rightarrow> Vreg \<Rightarrow> emitter" where
  "add_16b_vector vd vn vm = emit_ok (rrr 0x4E208400 (venc vm) (venc vn) (venc vd))"

definition sub_16b_vector :: "Vreg \<Rightarrow> Vreg \<Rightarrow> Vreg \<Rightarrow> emitter" where
  "sub_16b_vector vd vn vm = emit_ok (rrr 0x6E208400 (venc vm) (venc vn) (venc vd))"

definition dup_16b_from_w :: "Vreg \<Rightarrow> Reg \<Rightarrow> emitter" where
  "dup_16b_from_w vd wn = emit_ok (rrr 0x4E010C00 0 (renc wn) (venc vd))"

definition umov_w_from_vb_lane :: "Reg \<Rightarrow> Vreg \<Rightarrow> u8 \<Rightarrow> emitter" where
  "umov_w_from_vb_lane wd vn lane =
     (if 16 \<le> lane then refuse ImmediateOutOfRange
      else emit_ok (let imm5 = push_bit 1 (ucast lane) OR 1 in 0x0E003C00 OR push_bit 16 imm5 OR push_bit 5 (venc vn) OR renc wd))"

definition add_8h_vector :: "Vreg \<Rightarrow> Vreg \<Rightarrow> Vreg \<Rightarrow> emitter" where
  "add_8h_vector vd vn vm = emit_ok (rrr 0x4E608400 (venc vm) (venc vn) (venc vd))"

definition sub_8h_vector :: "Vreg \<Rightarrow> Vreg \<Rightarrow> Vreg \<Rightarrow> emitter" where
  "sub_8h_vector vd vn vm = emit_ok (rrr 0x6E608400 (venc vm) (venc vn) (venc vd))"

definition mul_8h_vector :: "Vreg \<Rightarrow> Vreg \<Rightarrow> Vreg \<Rightarrow> emitter" where
  "mul_8h_vector vd vn vm = emit_ok (rrr 0x4E609C00 (venc vm) (venc vn) (venc vd))"

definition dup_8h_from_w :: "Vreg \<Rightarrow> Reg \<Rightarrow> emitter" where
  "dup_8h_from_w vd wn = emit_ok (rrr 0x4E020C00 0 (renc wn) (venc vd))"

definition umov_w_from_vh_lane :: "Reg \<Rightarrow> Vreg \<Rightarrow> u8 \<Rightarrow> emitter" where
  "umov_w_from_vh_lane wd vn lane =
     (if 8 \<le> lane then refuse ImmediateOutOfRange
      else emit_ok (let imm5 = push_bit 2 (ucast lane) OR 2 in 0x0E003C00 OR push_bit 16 imm5 OR push_bit 5 (venc vn) OR renc wd))"

definition dup_2d_from_x :: "Vreg \<Rightarrow> Reg \<Rightarrow> emitter" where
  "dup_2d_from_x vd xn = emit_ok (rrr 0x4E080C00 0 (renc xn) (venc vd))"

definition dup_d_from_v_d_lane :: "Vreg \<Rightarrow> Vreg \<Rightarrow> u8 \<Rightarrow> emitter" where
  "dup_d_from_v_d_lane dd vn lane =
     (if 2 \<le> lane then refuse ImmediateOutOfRange
      else emit_ok (let imm5 = push_bit 4 (ucast lane) OR 8 in 0x5E000400 OR push_bit 16 imm5 OR push_bit 5 (venc vn) OR venc dd))"

definition fabs_4s :: "Vreg \<Rightarrow> Vreg \<Rightarrow> emitter" where
  "fabs_4s vd vn = emit_ok (rrr 0x4EA0F800 0 (venc vn) (venc vd))"

definition fneg_4s :: "Vreg \<Rightarrow> Vreg \<Rightarrow> emitter" where
  "fneg_4s vd vn = emit_ok (rrr 0x6EA0F800 0 (venc vn) (venc vd))"

definition fsqrt_4s :: "Vreg \<Rightarrow> Vreg \<Rightarrow> emitter" where
  "fsqrt_4s vd vn = emit_ok (rrr 0x6EA1F800 0 (venc vn) (venc vd))"

definition fcmeq_4s :: "Vreg \<Rightarrow> Vreg \<Rightarrow> Vreg \<Rightarrow> emitter" where
  "fcmeq_4s vd vn vm = emit_ok (rrr 0x4E20E400 (venc vm) (venc vn) (venc vd))"

definition fcmgt_4s :: "Vreg \<Rightarrow> Vreg \<Rightarrow> Vreg \<Rightarrow> emitter" where
  "fcmgt_4s vd vn vm = emit_ok (rrr 0x6EA0E400 (venc vm) (venc vn) (venc vd))"

definition bsl_16b :: "Vreg \<Rightarrow> Vreg \<Rightarrow> Vreg \<Rightarrow> emitter" where
  "bsl_16b vd vn vm = emit_ok (rrr 0x6E601C00 (venc vm) (venc vn) (venc vd))"

definition orr_16b_vec :: "Vreg \<Rightarrow> Vreg \<Rightarrow> Vreg \<Rightarrow> emitter" where
  "orr_16b_vec vd vn vm = emit_ok (rrr 0x4EA01C00 (venc vm) (venc vn) (venc vd))"

definition sxtb_w :: "Reg \<Rightarrow> Reg \<Rightarrow> emitter" where
  "sxtb_w rd rn = emit_ok (rrr 0x13001C00 0 (renc rn) (renc rd))"

definition sxth_w :: "Reg \<Rightarrow> Reg \<Rightarrow> emitter" where
  "sxth_w rd rn = emit_ok (rrr 0x13003C00 0 (renc rn) (renc rd))"

definition sxtb_x :: "Reg \<Rightarrow> Reg \<Rightarrow> emitter" where
  "sxtb_x rd rn = emit_ok (rrr 0x93401C00 0 (renc rn) (renc rd))"

definition sxth_x :: "Reg \<Rightarrow> Reg \<Rightarrow> emitter" where
  "sxth_x rd rn = emit_ok (rrr 0x93403C00 0 (renc rn) (renc rd))"

definition fcvt_s_d :: "Vreg \<Rightarrow> Vreg \<Rightarrow> emitter" where
  "fcvt_s_d sd dn = emit_ok (rrr 0x1E624000 0 (venc dn) (venc sd))"

definition fcvt_d_s :: "Vreg \<Rightarrow> Vreg \<Rightarrow> emitter" where
  "fcvt_d_s dd sn = emit_ok (rrr 0x1E22C000 0 (venc sn) (venc dd))"

definition fcvtzs_w_s :: "Reg \<Rightarrow> Vreg \<Rightarrow> emitter" where
  "fcvtzs_w_s rd sn = emit_ok (rrr 0x1E380000 0 (venc sn) (renc rd))"

definition fcvtzs_w_d :: "Reg \<Rightarrow> Vreg \<Rightarrow> emitter" where
  "fcvtzs_w_d rd dn = emit_ok (rrr 0x1E780000 0 (venc dn) (renc rd))"

definition fcvtzs_x_s :: "Reg \<Rightarrow> Vreg \<Rightarrow> emitter" where
  "fcvtzs_x_s rd sn = emit_ok (rrr 0x9E380000 0 (venc sn) (renc rd))"

definition fcvtzs_x_d :: "Reg \<Rightarrow> Vreg \<Rightarrow> emitter" where
  "fcvtzs_x_d rd dn = emit_ok (rrr 0x9E780000 0 (venc dn) (renc rd))"

definition fcvtzu_w_s :: "Reg \<Rightarrow> Vreg \<Rightarrow> emitter" where
  "fcvtzu_w_s rd sn = emit_ok (rrr 0x1E390000 0 (venc sn) (renc rd))"

definition fcvtzu_w_d :: "Reg \<Rightarrow> Vreg \<Rightarrow> emitter" where
  "fcvtzu_w_d rd dn = emit_ok (rrr 0x1E790000 0 (venc dn) (renc rd))"

definition fcvtzu_x_s :: "Reg \<Rightarrow> Vreg \<Rightarrow> emitter" where
  "fcvtzu_x_s rd sn = emit_ok (rrr 0x9E390000 0 (venc sn) (renc rd))"

definition fcvtzu_x_d :: "Reg \<Rightarrow> Vreg \<Rightarrow> emitter" where
  "fcvtzu_x_d rd dn = emit_ok (rrr 0x9E790000 0 (venc dn) (renc rd))"

definition scvtf_s_w :: "Vreg \<Rightarrow> Reg \<Rightarrow> emitter" where
  "scvtf_s_w sd rn = emit_ok (rrr 0x1E220000 0 (renc rn) (venc sd))"

definition scvtf_d_w :: "Vreg \<Rightarrow> Reg \<Rightarrow> emitter" where
  "scvtf_d_w dd rn = emit_ok (rrr 0x1E620000 0 (renc rn) (venc dd))"

definition scvtf_s_x :: "Vreg \<Rightarrow> Reg \<Rightarrow> emitter" where
  "scvtf_s_x sd rn = emit_ok (rrr 0x9E220000 0 (renc rn) (venc sd))"

definition scvtf_d_x :: "Vreg \<Rightarrow> Reg \<Rightarrow> emitter" where
  "scvtf_d_x dd rn = emit_ok (rrr 0x9E620000 0 (renc rn) (venc dd))"

definition ucvtf_s_w :: "Vreg \<Rightarrow> Reg \<Rightarrow> emitter" where
  "ucvtf_s_w sd rn = emit_ok (rrr 0x1E230000 0 (renc rn) (venc sd))"

definition ucvtf_d_w :: "Vreg \<Rightarrow> Reg \<Rightarrow> emitter" where
  "ucvtf_d_w dd rn = emit_ok (rrr 0x1E630000 0 (renc rn) (venc dd))"

definition ucvtf_s_x :: "Vreg \<Rightarrow> Reg \<Rightarrow> emitter" where
  "ucvtf_s_x sd rn = emit_ok (rrr 0x9E230000 0 (renc rn) (venc sd))"

definition ucvtf_d_x :: "Vreg \<Rightarrow> Reg \<Rightarrow> emitter" where
  "ucvtf_d_x dd rn = emit_ok (rrr 0x9E630000 0 (renc rn) (venc dd))"

definition and_w :: "Reg \<Rightarrow> Reg \<Rightarrow> Reg \<Rightarrow> emitter" where
  "and_w rd rn rm = emit_ok (rrr 0x0A000000 (renc rm) (renc rn) (renc rd))"

definition orr_w :: "Reg \<Rightarrow> Reg \<Rightarrow> Reg \<Rightarrow> emitter" where
  "orr_w rd rn rm = emit_ok (rrr 0x2A000000 (renc rm) (renc rn) (renc rd))"

definition eor_w :: "Reg \<Rightarrow> Reg \<Rightarrow> Reg \<Rightarrow> emitter" where
  "eor_w rd rn rm = emit_ok (rrr 0x4A000000 (renc rm) (renc rn) (renc rd))"

definition lsl_w :: "Reg \<Rightarrow> Reg \<Rightarrow> Reg \<Rightarrow> emitter" where
  "lsl_w rd rn rm = emit_ok (rrr 0x1AC02000 (renc rm) (renc rn) (renc rd))"

definition lsr_w :: "Reg \<Rightarrow> Reg \<Rightarrow> Reg \<Rightarrow> emitter" where
  "lsr_w rd rn rm = emit_ok (rrr 0x1AC02400 (renc rm) (renc rn) (renc rd))"

definition asr_w :: "Reg \<Rightarrow> Reg \<Rightarrow> Reg \<Rightarrow> emitter" where
  "asr_w rd rn rm = emit_ok (rrr 0x1AC02800 (renc rm) (renc rn) (renc rd))"

definition cmp_x :: "Reg \<Rightarrow> Reg \<Rightarrow> emitter" where
  "cmp_x rn rm = emit_ok (rrr 0xEB000000 (renc rm) (renc rn) 31)"

definition sxtw :: "Reg \<Rightarrow> Reg \<Rightarrow> emitter" where
  "sxtw xd wn = emit_ok (rrr 0x93407C00 0 (renc wn) (renc xd))"

definition and_x :: "Reg \<Rightarrow> Reg \<Rightarrow> Reg \<Rightarrow> emitter" where
  "and_x rd rn rm = emit_ok (rrr 0x8A000000 (renc rm) (renc rn) (renc rd))"

definition orr_x :: "Reg \<Rightarrow> Reg \<Rightarrow> Reg \<Rightarrow> emitter" where
  "orr_x rd rn rm = emit_ok (rrr 0xAA000000 (renc rm) (renc rn) (renc rd))"

definition eor_x :: "Reg \<Rightarrow> Reg \<Rightarrow> Reg \<Rightarrow> emitter" where
  "eor_x rd rn rm = emit_ok (rrr 0xCA000000 (renc rm) (renc rn) (renc rd))"

definition lsl_x :: "Reg \<Rightarrow> Reg \<Rightarrow> Reg \<Rightarrow> emitter" where
  "lsl_x rd rn rm = emit_ok (rrr 0x9AC02000 (renc rm) (renc rn) (renc rd))"

definition lsr_x :: "Reg \<Rightarrow> Reg \<Rightarrow> Reg \<Rightarrow> emitter" where
  "lsr_x rd rn rm = emit_ok (rrr 0x9AC02400 (renc rm) (renc rn) (renc rd))"

definition asr_x :: "Reg \<Rightarrow> Reg \<Rightarrow> Reg \<Rightarrow> emitter" where
  "asr_x rd rn rm = emit_ok (rrr 0x9AC02800 (renc rm) (renc rn) (renc rd))"

definition cmp_w :: "Reg \<Rightarrow> Reg \<Rightarrow> emitter" where
  "cmp_w rn rm = emit_ok (rrr 0x6B000000 (renc rm) (renc rn) 31)"

definition cset :: "Reg \<Rightarrow> Condition \<Rightarrow> emitter" where
  "cset rd cond = emit_ok (let inv = cond_code (invert cond) in 0x9A800400 OR push_bit 16 31 OR push_bit 12 inv OR push_bit 5 31 OR renc rd)"

definition csel :: "Reg \<Rightarrow> Reg \<Rightarrow> Reg \<Rightarrow> Condition \<Rightarrow> emitter" where
  "csel rd rn rm cond = emit_ok (0x9A800000 OR push_bit 16 (renc rm) OR push_bit 12 (cond_code cond) OR push_bit 5 (renc rn) OR renc rd)"

definition fcsel_s :: "Vreg \<Rightarrow> Vreg \<Rightarrow> Vreg \<Rightarrow> Condition \<Rightarrow> emitter" where
  "fcsel_s sd sn sm cond = emit_ok (0x1E200C00 OR push_bit 16 (venc sm) OR push_bit 12 (cond_code cond) OR push_bit 5 (venc sn) OR venc sd)"

definition fcsel_d :: "Vreg \<Rightarrow> Vreg \<Rightarrow> Vreg \<Rightarrow> Condition \<Rightarrow> emitter" where
  "fcsel_d dd dn dm cond = emit_ok (0x1E600C00 OR push_bit 16 (venc dm) OR push_bit 12 (cond_code cond) OR push_bit 5 (venc dn) OR venc dd)"

definition udiv_x :: "Reg \<Rightarrow> Reg \<Rightarrow> Reg \<Rightarrow> emitter" where
  "udiv_x rd rn rm = emit_ok (rrr 0x9AC00800 (renc rm) (renc rn) (renc rd))"

definition ldr_w_imm :: "Reg \<Rightarrow> Reg \<Rightarrow> u32 \<Rightarrow> emitter" where
  "ldr_w_imm rt rn offset = scaled_imm 0xB9400000 0x3 2 offset (renc rn) (renc rt)"

definition str_w_imm :: "Reg \<Rightarrow> Reg \<Rightarrow> u32 \<Rightarrow> emitter" where
  "str_w_imm rt rn offset = scaled_imm 0xB9000000 0x3 2 offset (renc rn) (renc rt)"

definition ldr_imm :: "Reg \<Rightarrow> Reg \<Rightarrow> u32 \<Rightarrow> emitter" where
  "ldr_imm rt rn offset = scaled_imm 0xF9400000 0x7 3 offset (renc rn) (renc rt)"

definition str_imm :: "Reg \<Rightarrow> Reg \<Rightarrow> u32 \<Rightarrow> emitter" where
  "str_imm rt rn offset = scaled_imm 0xF9000000 0x7 3 offset (renc rn) (renc rt)"

definition b_insn :: "i32 \<Rightarrow> emitter" where
  "b_insn offset = emit_encoded (branch26 0x14000000 offset)"

definition b_cond :: "Condition \<Rightarrow> i32 \<Rightarrow> emitter" where
  "b_cond cond offset = emit_encoded (branch19 0x54000000 offset (cond_code cond))"

definition encode_b_cond :: "Condition \<Rightarrow> i32 \<Rightarrow> (EncodeError, u32) result" where
  "encode_b_cond cond offset = branch19 0x54000000 offset (cond_code cond)"

definition br_insn :: "Reg \<Rightarrow> emitter" where
  "br_insn rn = emit_ok (rrr 0xD61F0000 0 (renc rn) 0)"

definition ret_insn :: "Reg \<Rightarrow> emitter" where
  "ret_insn rn = emit_ok (rrr 0xD65F0000 0 (renc rn) 0)"

definition stp_pre_indexed_64 :: "Reg \<Rightarrow> Reg \<Rightarrow> Reg \<Rightarrow> i16 \<Rightarrow> emitter" where
  "stp_pre_indexed_64 rt rt2 rn imm = pair_imm 0xA9800000 rt rt2 rn imm"

definition stp_offset_64 :: "Reg \<Rightarrow> Reg \<Rightarrow> Reg \<Rightarrow> i16 \<Rightarrow> emitter" where
  "stp_offset_64 rt rt2 rn imm = pair_imm 0xA9000000 rt rt2 rn imm"

definition ldp_offset_64 :: "Reg \<Rightarrow> Reg \<Rightarrow> Reg \<Rightarrow> i16 \<Rightarrow> emitter" where
  "ldp_offset_64 rt rt2 rn imm = pair_imm 0xA9400000 rt rt2 rn imm"

definition ldp_post_indexed_64 :: "Reg \<Rightarrow> Reg \<Rightarrow> Reg \<Rightarrow> i16 \<Rightarrow> emitter" where
  "ldp_post_indexed_64 rt rt2 rn imm = pair_imm 0xA8C00000 rt rt2 rn imm"

definition bl_insn :: "i32 \<Rightarrow> emitter" where
  "bl_insn offset = emit_encoded (branch26 0x94000000 offset)"

definition blr_insn :: "Reg \<Rightarrow> emitter" where
  "blr_insn rn = emit_ok (rrr 0xD63F0000 0 (renc rn) 0)"

section \<open>Encodings used to patch branches\<close>

definition encode_b :: "i32 \<Rightarrow> (EncodeError, u32) result" where
  "encode_b offset = branch26 0x14000000 offset"

definition encode_cbnz_w :: "Reg \<Rightarrow> i32 \<Rightarrow> (EncodeError, u32) result" where
  "encode_cbnz_w rt offset = branch19 0x35000000 offset (renc rt)"

definition encode_cbz_w :: "Reg \<Rightarrow> i32 \<Rightarrow> (EncodeError, u32) result" where
  "encode_cbz_w rt offset = branch19 0x34000000 offset (renc rt)"

definition cbnz_w :: "Reg \<Rightarrow> i32 \<Rightarrow> emitter" where
  "cbnz_w rt offset = emit_encoded (encode_cbnz_w rt offset)"

definition cbz_w :: "Reg \<Rightarrow> i32 \<Rightarrow> emitter" where
  "cbz_w rt offset = emit_encoded (encode_cbz_w rt offset)"

section \<open>Every emitter appends one word\<close>

definition appends :: "emitter \<Rightarrow> bool" where
  "appends em \<longleftrightarrow> (\<forall>e e'. em e = Ok e' \<longrightarrow> (\<exists>word. e' = emit word e))"

lemma appends_layouts [simp]:
  "appends (emit_ok word)" "appends (refuse err)" "appends (emit_encoded r)"
  "appends (scaled_imm base align_mask scale offset rn rt)" "appends (pair_imm base r1 r2 r3 imm)"
  by (auto simp: appends_def emit_ok_def refuse_def emit_encoded_def scaled_imm_def pair_imm_def Let_def split: sum.splits if_splits)

lemmas emitter_defs =
  movz_def movn_def movk_def add_x_def sub_x_def mul_x_def sdiv_x_def add_ext_uxtw_def add_ext_uxtw_shifted_def
  fmov_s_from_w_def fmov_w_from_s_def fadd_s_def fsub_s_def fmul_s_def fdiv_s_def fmov_s_s_def ldr_s_imm_def
  str_s_imm_def fcmp_s_def fmov_d_from_x_def fmov_x_from_d_def fadd_d_def fsub_d_def fmul_d_def fdiv_d_def fmov_d_d_def
  ldr_d_imm_def str_d_imm_def fcmp_d_def ldr_q_imm_def str_q_imm_def ldr_q_literal_def fadd_4s_def fmul_4s_def
  dup_s_from_v_s_lane_def dup_4s_from_vs_lane0_def dup_4s_from_w_def add_4s_vector_def sub_4s_vector_def
  eor_16b_vec_def sdot_4s_16b_def udot_4s_16b_def mul_4s_vector_def umov_w_from_vs_lane_def fmla_4s_def fsub_4s_def
  fdiv_4s_def faddp_4s_def faddp_s_from_2s_scalar_def fmax_4s_def fmin_4s_def fadd_2d_def fsub_2d_def fmul_2d_def
  fdiv_2d_def fmin_2d_def fmax_2d_def fsqrt_2d_def fabs_2d_def fneg_2d_def add_16b_vector_def sub_16b_vector_def
  dup_16b_from_w_def umov_w_from_vb_lane_def add_8h_vector_def sub_8h_vector_def mul_8h_vector_def dup_8h_from_w_def
  umov_w_from_vh_lane_def dup_2d_from_x_def dup_d_from_v_d_lane_def fabs_4s_def fneg_4s_def fsqrt_4s_def fcmeq_4s_def
  fcmgt_4s_def bsl_16b_def orr_16b_vec_def sxtb_w_def sxth_w_def sxtb_x_def sxth_x_def fcvt_s_d_def fcvt_d_s_def
  fcvtzs_w_s_def fcvtzs_w_d_def fcvtzs_x_s_def fcvtzs_x_d_def fcvtzu_w_s_def fcvtzu_w_d_def fcvtzu_x_s_def
  fcvtzu_x_d_def scvtf_s_w_def scvtf_d_w_def scvtf_s_x_def scvtf_d_x_def ucvtf_s_w_def ucvtf_d_w_def ucvtf_s_x_def
  ucvtf_d_x_def and_w_def orr_w_def eor_w_def lsl_w_def lsr_w_def asr_w_def cmp_x_def sxtw_def and_x_def orr_x_def
  eor_x_def lsl_x_def lsr_x_def asr_x_def cmp_w_def cset_def csel_def fcsel_s_def fcsel_d_def udiv_x_def ldr_w_imm_def
  str_w_imm_def ldr_imm_def str_imm_def b_insn_def b_cond_def br_insn_def ret_insn_def stp_pre_indexed_64_def
  stp_offset_64_def ldp_offset_64_def ldp_post_indexed_64_def bl_insn_def blr_insn_def cbnz_w_def cbz_w_def

lemma appends_emitters [simp]:
  "appends (movz r1 h sh)" "appends (movn r1 h sh)" "appends (movk r1 h sh)" "appends (add_x r1 r2 r3)"
  "appends (sub_x r1 r2 r3)" "appends (mul_x r1 r2 r3)" "appends (sdiv_x r1 r2 r3)" "appends (add_ext_uxtw r1 r2 r3)"
  "appends (add_ext_uxtw_shifted r1 r2 r3 w)" "appends (fmov_s_from_w v1 r1)" "appends (fmov_w_from_s r1 v1)"
  "appends (fadd_s v1 v2 v3)" "appends (fsub_s v1 v2 v3)" "appends (fmul_s v1 v2 v3)" "appends (fdiv_s v1 v2 v3)"
  "appends (fmov_s_s v1 v2)" "appends (ldr_s_imm v1 r1 w)" "appends (str_s_imm v1 r1 w)" "appends (fcmp_s v1 v2)"
  "appends (fmov_d_from_x v1 r1)" "appends (fmov_x_from_d r1 v1)" "appends (fadd_d v1 v2 v3)"
  "appends (fsub_d v1 v2 v3)" "appends (fmul_d v1 v2 v3)" "appends (fdiv_d v1 v2 v3)" "appends (fmov_d_d v1 v2)"
  "appends (ldr_d_imm v1 r1 w)" "appends (str_d_imm v1 r1 w)" "appends (fcmp_d v1 v2)" "appends (ldr_q_imm v1 r1 w)"
  "appends (str_q_imm v1 r1 w)" "appends (ldr_q_literal v1 off)" "appends (fadd_4s v1 v2 v3)"
  "appends (fmul_4s v1 v2 v3)" "appends (dup_s_from_v_s_lane v1 v2 lane)" "appends (dup_4s_from_vs_lane0 v1 v2)"
  "appends (dup_4s_from_w v1 r1)" "appends (add_4s_vector v1 v2 v3)" "appends (sub_4s_vector v1 v2 v3)"
  "appends (eor_16b_vec v1 v2 v3)" "appends (sdot_4s_16b v1 v2 v3)" "appends (udot_4s_16b v1 v2 v3)"
  "appends (mul_4s_vector v1 v2 v3)" "appends (umov_w_from_vs_lane r1 v1 lane)" "appends (fmla_4s v1 v2 v3)"
  "appends (fsub_4s v1 v2 v3)" "appends (fdiv_4s v1 v2 v3)" "appends (faddp_4s v1 v2 v3)"
  "appends (faddp_s_from_2s_scalar v1 v2)" "appends (fmax_4s v1 v2 v3)" "appends (fmin_4s v1 v2 v3)"
  "appends (fadd_2d v1 v2 v3)" "appends (fsub_2d v1 v2 v3)" "appends (fmul_2d v1 v2 v3)" "appends (fdiv_2d v1 v2 v3)"
  "appends (fmin_2d v1 v2 v3)" "appends (fmax_2d v1 v2 v3)" "appends (fsqrt_2d v1 v2)" "appends (fabs_2d v1 v2)"
  "appends (fneg_2d v1 v2)" "appends (add_16b_vector v1 v2 v3)" "appends (sub_16b_vector v1 v2 v3)"
  "appends (dup_16b_from_w v1 r1)" "appends (umov_w_from_vb_lane r1 v1 lane)" "appends (add_8h_vector v1 v2 v3)"
  "appends (sub_8h_vector v1 v2 v3)" "appends (mul_8h_vector v1 v2 v3)" "appends (dup_8h_from_w v1 r1)"
  "appends (umov_w_from_vh_lane r1 v1 lane)" "appends (dup_2d_from_x v1 r1)" "appends (dup_d_from_v_d_lane v1 v2 lane)"
  "appends (fabs_4s v1 v2)" "appends (fneg_4s v1 v2)" "appends (fsqrt_4s v1 v2)" "appends (fcmeq_4s v1 v2 v3)"
  "appends (fcmgt_4s v1 v2 v3)" "appends (bsl_16b v1 v2 v3)" "appends (orr_16b_vec v1 v2 v3)" "appends (sxtb_w r1 r2)"
  "appends (sxth_w r1 r2)" "appends (sxtb_x r1 r2)" "appends (sxth_x r1 r2)" "appends (fcvt_s_d v1 v2)"
  "appends (fcvt_d_s v1 v2)" "appends (fcvtzs_w_s r1 v1)" "appends (fcvtzs_w_d r1 v1)" "appends (fcvtzs_x_s r1 v1)"
  "appends (fcvtzs_x_d r1 v1)" "appends (fcvtzu_w_s r1 v1)" "appends (fcvtzu_w_d r1 v1)" "appends (fcvtzu_x_s r1 v1)"
  "appends (fcvtzu_x_d r1 v1)" "appends (scvtf_s_w v1 r1)" "appends (scvtf_d_w v1 r1)" "appends (scvtf_s_x v1 r1)"
  "appends (scvtf_d_x v1 r1)" "appends (ucvtf_s_w v1 r1)" "appends (ucvtf_d_w v1 r1)" "appends (ucvtf_s_x v1 r1)"
  "appends (ucvtf_d_x v1 r1)" "appends (and_w r1 r2 r3)" "appends (orr_w r1 r2 r3)" "appends (eor_w r1 r2 r3)"
  "appends (lsl_w r1 r2 r3)" "appends (lsr_w r1 r2 r3)" "appends (asr_w r1 r2 r3)" "appends (cmp_x r1 r2)"
  "appends (sxtw r1 r2)" "appends (and_x r1 r2 r3)" "appends (orr_x r1 r2 r3)" "appends (eor_x r1 r2 r3)"
  "appends (lsl_x r1 r2 r3)" "appends (lsr_x r1 r2 r3)" "appends (asr_x r1 r2 r3)" "appends (cmp_w r1 r2)"
  "appends (cset r1 cond)" "appends (csel r1 r2 r3 cond)" "appends (fcsel_s v1 v2 v3 cond)"
  "appends (fcsel_d v1 v2 v3 cond)" "appends (udiv_x r1 r2 r3)" "appends (ldr_w_imm r1 r2 w)"
  "appends (str_w_imm r1 r2 w)" "appends (ldr_imm r1 r2 w)" "appends (str_imm r1 r2 w)" "appends (b_insn off)"
  "appends (b_cond cond off)" "appends (br_insn r1)" "appends (ret_insn r1)"
  "appends (stp_pre_indexed_64 r1 r2 r3 imm)" "appends (stp_offset_64 r1 r2 r3 imm)"
  "appends (ldp_offset_64 r1 r2 r3 imm)" "appends (ldp_post_indexed_64 r1 r2 r3 imm)" "appends (bl_insn off)"
  "appends (blr_insn r1)" "appends (cbnz_w r1 off)" "appends (cbz_w r1 off)"
  by (simp_all add: emitter_defs Let_def)

end
