(* ===== verification/Wasm.thy ===== *)
theory Wasm
  imports A64
begin

text \<open>
  The data types shared by the WebAssembly front end and the lowering to AArch64
  (\<open>wasm_lower/types.rs\<close> and the error types of the parser and the validator).  The source's
  single enumeration \<open>WasmOp\<close> has 169 variants; here the operations without control flow are
  grouped by family and injected by \<open>I32I\<close>, \<open>I64I\<close>, \<open>FloatI\<close>, \<open>ConvI\<close> and \<open>SimdI\<close>.  Floating-point
  constants are their bit patterns, the only view the compiler takes of them.
\<close>

section \<open>Value types and operations\<close>

datatype ValType = I32 | I64 | F32 | F64 | V128

fun is_int :: "ValType \<Rightarrow> bool" where
  "is_int I32 = True"
| "is_int I64 = True"
| "is_int _ = False"

datatype i32_instr =
    I32Add | I32Sub | I32Mul | I32DivS | I32DivU | I32Eq | I32Ne | I32LtS | I32GtS | I32LeS | I32GeS
   | I32LtU | I32GtU | I32LeU | I32GeU | I32Eqz | I32And | I32Or | I32Xor | I32Shl | I32ShrS | I32ShrU

datatype i64_instr =
    I64Add | I64Sub | I64Mul | I64Eqz | I64Eq | I64Ne | I64LtS | I64GtS | I64LtU | I64GtU | I64LeS | I64LeU
   | I64GeS | I64GeU | I64DivS | I64DivU | I64And | I64Or | I64Xor | I64Shl | I64ShrS | I64ShrU

datatype float_instr =
    F32Add | F32Sub | F32Mul | F32Div | F32Eq | F32Ne | F32Lt | F32Gt | F32Le | F32Ge | F64Add | F64Sub
   | F64Mul | F64Div | F64Eq | F64Ne | F64Lt | F64Gt | F64Le | F64Ge

datatype conv_instr =
    I32WrapI64 | I64ExtendI32S | I64ExtendI32U | I32Extend8S | I32Extend16S | I64Extend8S | I64Extend16S
   | I64Extend32S | I32TruncF32S | I32TruncF32U | I32TruncF64S | I32TruncF64U | I64TruncF32S | I64TruncF32U
   | I64TruncF64S | I64TruncF64U | F32ConvertI32S | F32ConvertI32U | F32ConvertI64S | F32ConvertI64U
   | F64ConvertI32S | F64ConvertI32U | F64ConvertI64S | F64ConvertI64U | F32DemoteF64 | F64PromoteF32
   | I32ReinterpretF32 | I64ReinterpretF64 | F32ReinterpretI32 | F64ReinterpretI64

datatype simd_instr =
    F32x4Add | F32x4Mul | F32x4ExtractLane u8 | F32x4Splat | I32x4Splat | I32x4Add | I32x4Sub | I32x4Mul
   | I32x4ExtractLane u8 | F64x2Add | F64x2Sub | F64x2Mul | F64x2Div | F64x2Min | F64x2Max | F64x2Sqrt
   | F64x2Abs | F64x2Neg | F64x2Splat | F64x2ExtractLane u8 | I8x16Add | I8x16Sub | I8x16Splat
   | I8x16ExtractLaneU u8 | I32x4DotI8x16Signed | I32x4DotI8x16Unsigned | I16x8Add | I16x8Sub | I16x8Mul
   | I16x8Splat | I16x8ExtractLaneU u8 | F32x4Sub | F32x4Div | F32x4Fma | F32x4HorizontalSum | F32x4Max
   | F32x4Min | F32x4Abs | F32x4Neg | F32x4Sqrt | F32x4Eq | F32x4Gt | V128Bitselect

datatype WasmOp =
    I32I i32_instr | I64I i64_instr | FloatI float_instr | ConvI conv_instr | SimdI simd_instr
   | I32Const i32 | I64Const i64 | I64Load u32 | I64Store u32 | F32Const u32 | F32Load u32 | F32Store u32
   | F64Const u64 | F64Load u32 | F64Store u32 | V128Const u128 | V128Load u32 | V128Store u32 | Drop
   | Select | LocalGet u32 | LocalSet u32 | LocalTee u32 | GlobalGet u32 | GlobalSet u32 | Block | Loop
   | Br u32 | BrIf u32 | IfOp | ElseOp | Call u32 | CallIndirect u32 | Return | End | I32Load u32
   | I32Store u32

record FnSig =
  params :: "ValType list"
  sig_result :: "ValType option"

section \<open>Errors\<close>

datatype LowerError =
    StackOverflow | StackUnderflow | StackNotSingleton | LocalOutOfRange | TooManyLocals | LabelOutOfRange
  | UnbalancedEnd | BranchOutOfRange | ElseWithoutIf | CallTargetMissing | GlobalOutOfRange | GlobalNotMutable
  | TooManyGlobals | MemoryNotConfigured | TableNotConfigured | IndirectTypeMissing | IndirectArityUnsupported
  | IndirectTypeUnsupported | CallArityUnsupported | CallTypeUnsupported | V128LocalsUnsupported
  | V128ReturnUnsupported | TypeMismatch ValType ValType | TypedStackOverflow ValType | Encode EncodeError

datatype ParseError =
    UnexpectedEof | IntegerTooLarge | UnknownOpcode u8 | ConstantOutOfRange | ImportsUnsupported | InvalidUtf8

text \<open>A computation ends with an error value of its own or in a panic.\<close>

datatype 'e fault = Failure 'e | Panic

section \<open>Helper types of the lowering\<close>

datatype BinOp = Add | Sub | Mul | DivS | DivU | And | Or | Xor | Shl | ShrS | ShrU | Cmp Condition

datatype FBinOp = FAdd | FSub | FMul | FDiv

datatype I64Op = Add64 | Sub64 | Mul64 | DivS64 | DivU64 | And64 | Or64 | Xor64 | Shl64 | ShrS64 | ShrU64

datatype ExtendWidth = B8 | B16 | B32

datatype LocalLoc = LocI32 Reg | LocI64 Reg | LocF32 Vreg | LocF64 Vreg | LocV128 Vreg

datatype SymAddr = Const u32 | Bounded u64

fun sym_max :: "SymAddr \<Rightarrow> u64" where
  "sym_max (Const c) = ucast c"
| "sym_max (Bounded max_inclusive) = max_inclusive"

record LoopBound =
  counter_local :: u32
  max_value :: u32

datatype LabelKind = BlockLabel | LoopLabel | IfLabel nat | IfElseLabel nat

datatype PendingPatch = PatchB nat | PatchCbnzW nat Reg

record Label =
  kind :: LabelKind
  loop_start :: "nat option"
  pending :: "PendingPatch list"
  entry_depth :: nat

text \<open>A range of the code buffer that holds literals.\<close>

record DataRegion =
  dr_start :: nat
  dr_end :: nat

section \<open>Constants\<close>

definition MAX_PRIMARY_INT :: nat where "MAX_PRIMARY_INT = 16"
definition SPILL_SCRATCH_A :: Reg where "SPILL_SCRATCH_A = Reg 14"
definition SPILL_SCRATCH_B :: Reg where "SPILL_SCRATCH_B = Reg 15"
definition MAX_FRAME_SPILL :: nat where "MAX_FRAME_SPILL = 16"
definition SPILL_SLOT_BYTES :: u32 where "SPILL_SLOT_BYTES = 8"
definition SPILL_AREA_BYTES :: u32 where "SPILL_AREA_BYTES = of_nat MAX_FRAME_SPILL * SPILL_SLOT_BYTES"
definition MAX_F32_STACK :: nat where "MAX_F32_STACK = 16"
definition FP_SPILL_SCRATCH_A :: Vreg where "FP_SPILL_SCRATCH_A = Vreg 30"
definition FP_SPILL_SCRATCH_B :: Vreg where "FP_SPILL_SCRATCH_B = Vreg 31"
definition MAX_FP_SPILL :: nat where "MAX_FP_SPILL = 8"
definition FP_SPILL_SLOT_BYTES :: u32 where "FP_SPILL_SLOT_BYTES = 16"
definition FP_SPILL_AREA_BYTES :: u32 where "FP_SPILL_AREA_BYTES = of_nat MAX_FP_SPILL * FP_SPILL_SLOT_BYTES"
definition GLOBAL_AREA_SIZE :: u32 where "GLOBAL_AREA_SIZE = 256"
definition GLOBAL_SLOT_BYTES :: u32 where "GLOBAL_SLOT_BYTES = 8"
definition MAX_GLOBALS :: nat where "MAX_GLOBALS = 32"
definition MAX_I32_LOCALS :: nat where "MAX_I32_LOCALS = 9"
definition MAX_F32_LOCALS :: nat where "MAX_F32_LOCALS = 14"
definition LOCAL_I32_BASE_REG :: u8 where "LOCAL_I32_BASE_REG = 19"
definition LOCAL_F32_BASE_REG :: u8 where "LOCAL_F32_BASE_REG = 16"
definition MEM_BASE_REG :: Reg where "MEM_BASE_REG = Reg 28"

lemmas layout_defs =
  MAX_PRIMARY_INT_def SPILL_SCRATCH_A_def SPILL_SCRATCH_B_def MAX_FRAME_SPILL_def SPILL_SLOT_BYTES_def SPILL_AREA_BYTES_def
  MAX_F32_STACK_def FP_SPILL_SCRATCH_A_def FP_SPILL_SCRATCH_B_def MAX_FP_SPILL_def FP_SPILL_SLOT_BYTES_def FP_SPILL_AREA_BYTES_def
  GLOBAL_AREA_SIZE_def GLOBAL_SLOT_BYTES_def MAX_GLOBALS_def MAX_I32_LOCALS_def MAX_F32_LOCALS_def LOCAL_I32_BASE_REG_def
  LOCAL_F32_BASE_REG_def MEM_BASE_REG_def

end
