(* ===== verification/WasmParse.thy ===== *)
theory WasmParse
  imports Wasm
begin

text \<open>
  The function-body parser of the WebAssembly front end (\<open>wasm_parse.rs\<close>): the LEB128 integers
  and the loop over the opcodes.  The cursor into the byte slice is passed in and returned; every
  loop ends because the cursor advances.  The nullary opcodes are the two tables \<open>plain_opcodes\<close>
  and \<open>simd_opcodes\<close>.
\<close>

section \<open>Bytes and LEB128 integers\<close>

definition read_u8 :: "u8 list \<Rightarrow> nat \<Rightarrow> (ParseError, u8 \<times> nat) result" where
  "read_u8 bytes at = (if at < length bytes then Ok (bytes ! at, at + 1) else Err UnexpectedEof)"

lemma read_u8_Ok: "read_u8 bytes at = Ok (b, at') \<longleftrightarrow> at < length bytes \<and> b = bytes ! at \<and> at' = at + 1"
  by (auto simp: read_u8_def)

function uleb_loop :: "u8 list \<Rightarrow> nat \<Rightarrow> u64 \<Rightarrow> nat \<Rightarrow> (ParseError, u64 \<times> nat) result" where
  "uleb_loop bytes at acc shift =
     (case read_u8 bytes at of
        Err e \<Rightarrow> Err e
      | Ok (b, at') \<Rightarrow>
          (let acc = acc OR push_bit shift (ucast (b AND 0x7F))
           in if b AND 0x80 = 0 then Ok (acc, at')
              else if 64 \<le> shift + 7 then Err IntegerTooLarge
              else uleb_loop bytes at' acc (shift + 7)))"
  by pat_completeness auto
termination
  by (relation "measure (\<lambda>(bytes, at, acc, shift). length bytes - at)") (auto simp: read_u8_Ok)

declare uleb_loop.simps [simp del]

definition read_uleb128 :: "u8 list \<Rightarrow> nat \<Rightarrow> (ParseError, u64 \<times> nat) result" where
  "read_uleb128 bytes at = uleb_loop bytes at 0 0"

function sleb_loop :: "u8 list \<Rightarrow> nat \<Rightarrow> i64 \<Rightarrow> nat \<Rightarrow> (ParseError, i64 \<times> nat) result" where
  "sleb_loop bytes at acc shift =
     (case read_u8 bytes at of
        Err e \<Rightarrow> Err e
      | Ok (b, at') \<Rightarrow>
          (let acc = acc OR push_bit shift (ucast (b AND 0x7F)); shift = shift + 7
           in if b AND 0x80 = 0
              then Ok (if shift < 64 \<and> b AND 0x40 \<noteq> 0 then acc OR push_bit shift (- 1) else acc, at')
              else if 64 \<le> shift then Err IntegerTooLarge
              else sleb_loop bytes at' acc shift))"
  by pat_completeness auto
termination
  by (relation "measure (\<lambda>(bytes, at, acc, shift). length bytes - at)") (auto simp: read_u8_Ok)

declare sleb_loop.simps [simp del]

definition read_sleb128 :: "u8 list \<Rightarrow> nat \<Rightarrow> (ParseError, i64 \<times> nat) result" where
  "read_sleb128 bytes at = sleb_loop bytes at 0 0"

section \<open>Opcodes\<close>

definition plain_opcodes :: "(u8 \<times> WasmOp) list" where
  "plain_opcodes =
   [(0x50, I64I I64Eqz), (0x51, I64I I64Eq), (0x52, I64I I64Ne), (0x53, I64I I64LtS), (0x54, I64I I64LtU),
     (0x55, I64I I64GtS), (0x56, I64I I64GtU), (0x57, I64I I64LeS), (0x58, I64I I64LeU), (0x59, I64I I64GeS),
     (0x5A, I64I I64GeU), (0x7C, I64I I64Add), (0x7D, I64I I64Sub), (0x7E, I64I I64Mul),
     (0x7F, I64I I64DivS), (0x80, I64I I64DivU), (0x83, I64I I64And), (0x84, I64I I64Or),
     (0x85, I64I I64Xor), (0x86, I64I I64Shl), (0x87, I64I I64ShrS), (0x88, I64I I64ShrU),
     (0xA7, ConvI I32WrapI64), (0xA8, ConvI I32TruncF32S), (0xA9, ConvI I32TruncF32U),
     (0xAA, ConvI I32TruncF64S), (0xAB, ConvI I32TruncF64U), (0xAC, ConvI I64ExtendI32S),
     (0xAD, ConvI I64ExtendI32U), (0xAE, ConvI I64TruncF32S), (0xAF, ConvI I64TruncF32U),
     (0xB0, ConvI I64TruncF64S), (0xB1, ConvI I64TruncF64U), (0xB2, ConvI F32ConvertI32S),
     (0xB3, ConvI F32ConvertI32U), (0xB4, ConvI F32ConvertI64S), (0xB5, ConvI F32ConvertI64U),
     (0xB6, ConvI F32DemoteF64), (0xB7, ConvI F64ConvertI32S), (0xB8, ConvI F64ConvertI32U),
     (0xB9, ConvI F64ConvertI64S), (0xBA, ConvI F64ConvertI64U), (0xBB, ConvI F64PromoteF32),
     (0xBC, ConvI I32ReinterpretF32), (0xBD, ConvI I64ReinterpretF64), (0xBE, ConvI F32ReinterpretI32),
     (0xBF, ConvI F64ReinterpretI64), (0xC0, ConvI I32Extend8S), (0xC1, ConvI I32Extend16S),
     (0xC2, ConvI I64Extend8S), (0xC3, ConvI I64Extend16S), (0xC4, ConvI I64Extend32S), (0x45, I32I I32Eqz),
     (0x46, I32I I32Eq), (0x47, I32I I32Ne), (0x48, I32I I32LtS), (0x49, I32I I32LtU), (0x4A, I32I I32GtS),
     (0x4B, I32I I32GtU), (0x4C, I32I I32LeS), (0x4D, I32I I32LeU), (0x4E, I32I I32GeS), (0x4F, I32I I32GeU),
     (0x6A, I32I I32Add), (0x6B, I32I I32Sub), (0x6C, I32I I32Mul), (0x6D, I32I I32DivS),
     (0x6E, I32I I32DivU), (0x71, I32I I32And), (0x72, I32I I32Or), (0x73, I32I I32Xor), (0x74, I32I I32Shl),
     (0x75, I32I I32ShrS), (0x76, I32I I32ShrU), (0x5B, FloatI F32Eq), (0x5C, FloatI F32Ne),
     (0x5D, FloatI F32Lt), (0x5E, FloatI F32Gt), (0x5F, FloatI F32Le), (0x60, FloatI F32Ge),
     (0x92, FloatI F32Add), (0x93, FloatI F32Sub), (0x94, FloatI F32Mul), (0x95, FloatI F32Div),
     (0x61, FloatI F64Eq), (0x62, FloatI F64Ne), (0x63, FloatI F64Lt), (0x64, FloatI F64Gt),
     (0x65, FloatI F64Le), (0x66, FloatI F64Ge), (0xA0, FloatI F64Add), (0xA1, FloatI F64Sub),
     (0xA2, FloatI F64Mul), (0xA3, FloatI F64Div), (0x0F, Return), (0x1A, Drop), (0x1B, Select)]"

definition simd_opcodes :: "(u64 \<times> WasmOp) list" where
  "simd_opcodes =
   [(0x0F, SimdI I8x16Splat), (0x10, SimdI I16x8Splat), (0x11, SimdI I32x4Splat), (0x13, SimdI F32x4Splat),
     (0x41, SimdI F32x4Eq), (0x44, SimdI F32x4Gt), (0x52, SimdI V128Bitselect), (0x6E, SimdI I8x16Add),
     (0x71, SimdI I8x16Sub), (0x8E, SimdI I16x8Add), (0x91, SimdI I16x8Sub), (0x95, SimdI I16x8Mul),
     (0xAE, SimdI I32x4Add), (0xB1, SimdI I32x4Sub), (0xB5, SimdI I32x4Mul), (0xE0, SimdI F32x4Abs),
     (0xE1, SimdI F32x4Neg), (0xE3, SimdI F32x4Sqrt), (0xE4, SimdI F32x4Add), (0xE5, SimdI F32x4Sub),
     (0xE6, SimdI F32x4Mul), (0xE7, SimdI F32x4Div), (0xE8, SimdI F32x4Min), (0xE9, SimdI F32x4Max),
     (0x12, SimdI F64x2Splat), (0xF0, SimdI F64x2Add), (0xF1, SimdI F64x2Sub), (0xF2, SimdI F64x2Mul),
     (0xF3, SimdI F64x2Div), (0xF4, SimdI F64x2Min), (0xF5, SimdI F64x2Max)]"

definition trunc_opcodes :: "(u64 \<times> WasmOp) list" where
  "trunc_opcodes =
    [(0, ConvI I32TruncF32S), (1, ConvI I32TruncF32U), (2, ConvI I32TruncF64S), (3, ConvI I32TruncF64U),
     (4, ConvI I64TruncF32S), (5, ConvI I64TruncF32U), (6, ConvI I64TruncF64S), (7, ConvI I64TruncF64U)]"

text \<open>Opcodes with one index, and with the alignment and offset of a memory access.\<close>

definition index_opcodes :: "(u8 \<times> (u32 \<Rightarrow> WasmOp)) list" where
  "index_opcodes =
    [(0x10, Call), (0x0C, Br), (0x0D, BrIf), (0x20, LocalGet), (0x21, LocalSet), (0x22, LocalTee),
     (0x23, GlobalGet), (0x24, GlobalSet)]"

definition memory_opcodes :: "(u8 \<times> (u32 \<Rightarrow> WasmOp)) list" where
  "memory_opcodes =
    [(0x28, I32Load), (0x29, I64Load), (0x2A, F32Load), (0x2B, F64Load), (0x36, I32Store), (0x37, I64Store),
     (0x38, F32Store), (0x39, F64Store)]"

definition read_index :: "u8 list \<Rightarrow> nat \<Rightarrow> (ParseError, u32 \<times> nat) result" where
  "read_index bytes at =
     (case read_uleb128 bytes at of
        Err e \<Rightarrow> Err e
      | Ok (idx, at') \<Rightarrow> if 0xFFFFFFFF < idx then Err IntegerTooLarge else Ok (ucast idx, at'))"

definition read_memarg :: "u8 list \<Rightarrow> nat \<Rightarrow> (ParseError, u32 \<times> nat) result" where
  "read_memarg bytes at =
     (case read_uleb128 bytes at of Err e \<Rightarrow> Err e | Ok (align, at') \<Rightarrow> read_index bytes at')"

definition read_raw :: "nat \<Rightarrow> u8 list \<Rightarrow> nat \<Rightarrow> (ParseError, u8 list \<times> nat) result" where
  "read_raw n bytes at =
     (if length bytes < at + n then Err UnexpectedEof else Ok (take n (drop at bytes), at + n))"

definition le_value :: "u8 list \<Rightarrow> 'a::len word" where
  "le_value b = foldr (\<lambda>x acc. ucast x OR push_bit 8 acc) b 0"

text \<open>The result of one opcode: the operation and the new cursor.\<close>

definition parse_simd :: "u8 list \<Rightarrow> nat \<Rightarrow> (ParseError, WasmOp \<times> nat) result" where
  "parse_simd bytes at0 =
     (case read_uleb128 bytes at0 of
        Err e \<Rightarrow> Err e
      | Ok (sub, at) \<Rightarrow>
          if sub = 0x00 then map_sum id (map_prod V128Load id) (read_memarg bytes at)
          else if sub = 0x0B then map_sum id (map_prod V128Store id) (read_memarg bytes at)
          else if sub = 0x0C then map_sum id (map_prod (\<lambda>b. V128Const (le_value b)) id) (read_raw 16 bytes at)
          else if sub = 0x15 then map_sum id (map_prod (\<lambda>l. SimdI (I8x16ExtractLaneU l)) id) (read_u8 bytes at)
          else if sub = 0x19 then map_sum id (map_prod (\<lambda>l. SimdI (I16x8ExtractLaneU l)) id) (read_u8 bytes at)
          else if sub = 0x1B \<or> sub = 0x1F \<or> sub = 0x1D then
            (case read_u8 bytes at of
               Err e \<Rightarrow> Err e
             | Ok (lane, at') \<Rightarrow>
                 if (if sub = 0x1D then 1 else 3) < lane then Err (UnknownOpcode lane)
                 else Ok (SimdI ((if sub = 0x1B then I32x4ExtractLane else if sub = 0x1F then F32x4ExtractLane
                            else F64x2ExtractLane) lane), at'))
          else
            (case map_of simd_opcodes sub of
               Some op \<Rightarrow> Ok (op, at)
             | None \<Rightarrow> Err (UnknownOpcode (ucast (min sub 0xFF)))))"

definition parse_opcode :: "u8 \<Rightarrow> u8 list \<Rightarrow> nat \<Rightarrow> (ParseError, WasmOp \<times> nat) result" where
  "parse_opcode opcode bytes at =
     (if opcode = 0x02 then map_sum id (map_prod (\<lambda>_. Block) id) (read_u8 bytes at)
      else if opcode = 0x03 then map_sum id (map_prod (\<lambda>_. Loop) id) (read_u8 bytes at)
      else if opcode = 0x04 then map_sum id (map_prod (\<lambda>_. IfOp) id) (read_u8 bytes at)
      else if opcode = 0x05 then Ok (ElseOp, at)
      else if opcode = 0x0B then Ok (End, at)
      else if opcode = 0x11 then
        (case read_index bytes at of
           Err e \<Rightarrow> Err e
         | Ok (typeidx, at') \<Rightarrow> map_sum id (map_prod (\<lambda>_. CallIndirect typeidx) id) (read_uleb128 bytes at'))
      else if opcode = 0x41 then
        (case read_sleb128 bytes at of
           Err e \<Rightarrow> Err e
         | Ok (v, at') \<Rightarrow>
             if \<not> (- (2 ^ 31) \<le> sint v \<and> sint v < 2 ^ 31) then Err ConstantOutOfRange
             else Ok (I32Const (ucast v), at'))
      else if opcode = 0x42 then map_sum id (map_prod I64Const id) (read_sleb128 bytes at)
      else if opcode = 0x43 then map_sum id (map_prod (\<lambda>b. F32Const (le_value b)) id) (read_raw 4 bytes at)
      else if opcode = 0x44 then map_sum id (map_prod (\<lambda>b. F64Const (le_value b)) id) (read_raw 8 bytes at)
      else if opcode = 0xFC then
        (case read_uleb128 bytes at of
           Err e \<Rightarrow> Err e
         | Ok (sub, at') \<Rightarrow>
             (case map_of trunc_opcodes sub of
                Some op \<Rightarrow> Ok (op, at')
              | None \<Rightarrow> Err (UnknownOpcode (ucast (min sub 0xFF)))))
      else if opcode = 0xFD then parse_simd bytes at
      else
        (case map_of index_opcodes opcode of
           Some f \<Rightarrow> map_sum id (map_prod f id) (read_index bytes at)
         | None \<Rightarrow>
             (case map_of memory_opcodes opcode of
                Some f \<Rightarrow> map_sum id (map_prod f id) (read_memarg bytes at)
              | None \<Rightarrow>
                  (case map_of plain_opcodes opcode of
                     Some op \<Rightarrow> Ok (op, at)
                   | None \<Rightarrow> Err (UnknownOpcode opcode)))))"

section \<open>The cursor only advances\<close>

text \<open>A reader that starts within the slice stops within it and never moves back.\<close>

definition advances :: "u8 list \<Rightarrow> nat \<Rightarrow> (ParseError, 'a \<times> nat) result \<Rightarrow> bool" where
  "advances bytes at r \<longleftrightarrow> (\<forall>x at'. r = Ok (x, at') \<longrightarrow> at \<le> at' \<and> at' \<le> max at (length bytes))"

lemma advances_Err [simp]: "advances bytes at (Err e)"
  by (simp add: advances_def)

lemma advances_Ok [simp]: "advances bytes at (Ok (x, at)) "
  by (simp add: advances_def)

lemma advances_map: "advances bytes at r \<Longrightarrow> advances bytes at (map_sum id (map_prod f id) r)"
  by (cases r) (auto simp: advances_def)

lemma advances_u8: "advances bytes at (read_u8 bytes at)"
  by (auto simp: advances_def read_u8_Ok)

lemma advances_raw: "advances bytes at (read_raw n bytes at)"
  by (auto simp: advances_def read_raw_def)

lemma advances_uleb_loop: "advances bytes at (uleb_loop bytes at acc shift)"
proof (induction bytes at acc shift rule: uleb_loop.induct)
  case (1 bytes at acc shift)
  show ?case
    using 1 by (subst uleb_loop.simps) (fastforce simp: advances_def read_u8_def Let_def split: if_splits)
qed

lemma advances_uleb: "advances bytes at (read_uleb128 bytes at)"
  unfolding read_uleb128_def by (rule advances_uleb_loop)

lemma advances_sleb_loop: "advances bytes at (sleb_loop bytes at acc shift)"
proof (induction bytes at acc shift rule: sleb_loop.induct)
  case (1 bytes at acc shift)
  show ?case
    using 1 by (subst sleb_loop.simps) (fastforce simp: advances_def read_u8_def Let_def split: if_splits)
qed

lemma advances_sleb: "advances bytes at (read_sleb128 bytes at)"
  unfolding read_sleb128_def by (rule advances_sleb_loop)

lemma advances_then:
  assumes "advances bytes at r" "\<And>x at'. r = Ok (x, at') \<Longrightarrow> advances bytes at' (f x at')"
  shows "advances bytes at (case r of Err e \<Rightarrow> Err e | Ok (x, at') \<Rightarrow> f x at')"
  using assms by (fastforce simp: advances_def split: sum.split)

lemma advances_index: "advances bytes at (read_index bytes at)"
  unfolding read_index_def by (rule advances_then[OF advances_uleb]) (simp split: if_split)

lemma advances_memarg: "advances bytes at (read_memarg bytes at)"
  unfolding read_memarg_def by (rule advances_then[OF advances_uleb advances_index])

lemmas advances_readers = advances_map advances_u8 advances_raw advances_uleb advances_sleb advances_index advances_memarg

lemma advances_simd: "advances bytes at (parse_simd bytes at)"
  unfolding parse_simd_def
  by (rule advances_then[OF advances_uleb]) (auto intro!: advances_readers advances_then split: option.split)

lemma advances_opcode: "advances bytes at (parse_opcode opcode bytes at)"
  unfolding parse_opcode_def
  by (auto intro!: advances_readers advances_then advances_simd split: option.split)

lemma opcode_consumes:
  assumes "read_u8 bytes at = Ok (opcode, at1)" "parse_opcode opcode bytes at1 = Ok (op, at2)"
  shows "length bytes - at2 < length bytes - at"
  using assms advances_opcode[of bytes at1 opcode] by (auto simp: read_u8_Ok advances_def)

section \<open>Function bodies\<close>

function parse_loop :: "u8 list \<Rightarrow> nat \<Rightarrow> u32 \<Rightarrow> WasmOp list \<Rightarrow> (ParseError, WasmOp list \<times> nat) result" where
  "parse_loop bytes at depth ops =
     (case read_u8 bytes at of
        Err e \<Rightarrow> Err e
      | Ok (opcode, at1) \<Rightarrow>
          (case parse_opcode opcode bytes at1 of
             Err e \<Rightarrow> Err e
           | Ok (op, at2) \<Rightarrow>
               if op = End then
                 (if depth = 0 then Ok (ops @ [End], at2) else parse_loop bytes at2 (depth - 1) (ops @ [End]))
               else if op = Block \<or> op = Loop \<or> op = IfOp then parse_loop bytes at2 (depth + 1) (ops @ [op])
               else parse_loop bytes at2 depth (ops @ [op])))"
  by pat_completeness auto
termination
  by (relation "measure (\<lambda>(bytes, at, depth, ops). length bytes - at)") (auto dest: opcode_consumes)

declare parse_loop.simps [simp del]

definition parse_ops :: "u8 list \<Rightarrow> nat \<Rightarrow> (ParseError, WasmOp list \<times> nat) result" where
  "parse_ops bytes at = parse_loop bytes at 0 []"

definition parse_function_body :: "u8 list \<Rightarrow> (ParseError, WasmOp list) result" where
  "parse_function_body bytes =
     (case parse_ops bytes 0 of
        Err e \<Rightarrow> Err e
      | Ok (ops, at) \<Rightarrow> if at \<noteq> length bytes then Err UnexpectedEof else Ok ops)"

end
