(* ===== verification/WasmModule.thy ===== *)
theory WasmModule
  imports WasmParse
begin

text \<open>
  The module parser of the WebAssembly front end (\<open>wasm_module.rs\<close>): the section loop and one
  parser per section.  Lengths read from the file are 64-bit words, and \<open>pos + len\<close> is the wrapping
  addition of the release profile: \<open>read_slice\<close> panics where the source's slice expression does.
  The allocation made by \<open>Vec::with_capacity\<close> is not modelled.
\<close>

section \<open>Parsed modules\<close>

record FunctionBody =
  num_locals :: u32
  local_types :: "u8 list"
  body_ops :: "WasmOp list"

record FuncSig =
  fs_params :: "u8 list"
  fs_results :: "u8 list"

record GlobalDef =
  valtype :: u8
  mutable :: bool
  init_bytes :: "u8 list"

record Export =
  ex_name :: "u8 list"
  ex_kind :: u8
  ex_index :: u32

record DataSegment =
  ds_offset :: u32
  ds_bytes :: "u8 list"

record Module =
  mod_types :: "FuncSig list"
  func_types :: "u32 list"
  globals :: "GlobalDef list"
  exports :: "Export list"
  mod_data :: "DataSegment list"
  bodies :: "FunctionBody list"

type_synonym 'a parser = "u8 list \<Rightarrow> nat \<Rightarrow> (ParseError fault, 'a \<times> nat) result"

text \<open>Sequencing (the question mark operator), and readers that cannot panic.\<close>

definition and_then :: "('e, 'a \<times> nat) result \<Rightarrow> ('a \<Rightarrow> nat \<Rightarrow> ('e, 'b) result) \<Rightarrow> ('e, 'b) result" where
  "and_then r f = (case r of Err e \<Rightarrow> Err e | Ok (x, at) \<Rightarrow> f x at)"

definition plain :: "(ParseError, 'a) result \<Rightarrow> (ParseError fault, 'a) result" where
  "plain r = map_sum Failure id r"

definition read_slice :: "u64 \<Rightarrow> u8 list parser" where
  "read_slice n bytes at =
     (let stop = of_nat at + n
      in if of_nat (length bytes) < stop then Err (Failure UnexpectedEof)
         else if stop < of_nat at then Err Panic
         else Ok (take (unat n) (drop at bytes), at + unat n))"

text \<open>The loop over the entries of a section.\<close>

fun read_many :: "nat \<Rightarrow> 'a parser \<Rightarrow> 'a list parser" where
  "read_many 0 p bytes at = Ok ([], at)"
| "read_many (Suc n) p bytes at =
     and_then (p bytes at) (\<lambda>x at. and_then (read_many n p bytes at) (\<lambda>xs at. Ok (x # xs, at)))"

definition parse_section :: "'a parser \<Rightarrow> u8 list \<Rightarrow> (ParseError fault, 'a list) result" where
  "parse_section p bytes =
     and_then (plain (read_uleb128 bytes 0)) (\<lambda>count at. map_sum id fst (read_many (unat count) p bytes at))"

section \<open>Entries\<close>

definition read_valtype_vec :: "u8 list parser" where
  "read_valtype_vec bytes at = and_then (plain (read_uleb128 bytes at)) (\<lambda>n at. read_slice n bytes at)"

definition parse_type :: "FuncSig parser" where
  "parse_type bytes at =
     (if length bytes \<le> at then Err (Failure UnexpectedEof)
      else if bytes ! at \<noteq> 0x60 then Err (Failure (UnknownOpcode (bytes ! at)))
      else and_then (read_valtype_vec bytes (at + 1)) (\<lambda>ps at.
           and_then (read_valtype_vec bytes at) (\<lambda>rs at. Ok (\<lparr> fs_params = ps, fs_results = rs \<rparr>, at))))"

definition parse_type_section :: "u8 list \<Rightarrow> (ParseError fault, FuncSig list) result" where
  "parse_type_section bytes = parse_section parse_type bytes"

definition parse_function_section :: "u8 list \<Rightarrow> (ParseError fault, u32 list) result" where
  "parse_function_section bytes = parse_section (\<lambda>bytes at. plain (read_index bytes at)) bytes"

text \<open>A constant initialiser: the matching constant followed by \<open>end\<close>, as eight little-endian bytes.\<close>

definition i64_le_bytes :: "i64 \<Rightarrow> u8 list" where
  "i64_le_bytes v = map (\<lambda>i. ucast (drop_bit (8 * i) v)) [0..<8]"

definition read_const :: "u8 \<Rightarrow> u8 \<Rightarrow> u8 list \<Rightarrow> nat \<Rightarrow> (ParseError, u8 list \<times> nat) result" where
  "read_const opcode expected bytes at =
     (if opcode = 0x41 \<and> expected = 0x7F then
        (case read_sleb128 bytes at of
           Err e \<Rightarrow> Err e
         | Ok (v, at') \<Rightarrow>
             if \<not> (- (2 ^ 31) \<le> sint v \<and> sint v < 2 ^ 31) then Err ConstantOutOfRange
             else Ok (to_le_bytes (ucast v) @ [0, 0, 0, 0], at'))
      else if opcode = 0x42 \<and> expected = 0x7E then map_sum id (map_prod i64_le_bytes id) (read_sleb128 bytes at)
      else if opcode = 0x43 \<and> expected = 0x7D then map_sum id (map_prod (\<lambda>b. b @ [0, 0, 0, 0]) id) (read_raw 4 bytes at)
      else if opcode = 0x44 \<and> expected = 0x7C then read_raw 8 bytes at
      else Err (UnknownOpcode opcode))"

definition read_const_init_expr :: "u8 \<Rightarrow> u8 list parser" where
  "read_const_init_expr expected bytes at =
     plain (case read_u8 bytes at of
        Err e \<Rightarrow> Err e
      | Ok (opcode, at1) \<Rightarrow>
          (case read_const opcode expected bytes at1 of
             Err e \<Rightarrow> Err e
           | Ok (out, at2) \<Rightarrow>
               if length bytes \<le> at2 then Err (UnknownOpcode 0)
               else if bytes ! at2 \<noteq> 0x0B then Err (UnknownOpcode (bytes ! at2))
               else Ok (out, at2 + 1)))"

definition parse_global :: "GlobalDef parser" where
  "parse_global bytes at =
     (if length bytes < at + 2 then Err (Failure UnexpectedEof)
      else let valtype = bytes ! at; mut_byte = bytes ! (at + 1)
           in and_then (read_const_init_expr valtype bytes (at + 2)) (\<lambda>ib at.
                Ok (\<lparr> valtype = valtype, mutable = (mut_byte = 0x01), init_bytes = ib \<rparr>, at)))"

definition parse_global_section :: "u8 list \<Rightarrow> (ParseError fault, GlobalDef list) result" where
  "parse_global_section bytes = parse_section parse_global bytes"

text \<open>Well-formed UTF-8, as checked by the standard library.\<close>

definition utf8_tail :: "u8 \<Rightarrow> bool" where
  "utf8_tail b \<longleftrightarrow> 0x80 \<le> b \<and> b \<le> 0xBF"

function from_utf8_ok :: "u8 list \<Rightarrow> bool" where
  "from_utf8_ok s =
     (case s of
        [] \<Rightarrow> True
      | a # r \<Rightarrow>
          if a \<le> 0x7F then from_utf8_ok r
          else if 0xC2 \<le> a \<and> a \<le> 0xDF then
            (case r of b # r' \<Rightarrow> utf8_tail b \<and> from_utf8_ok r' | _ \<Rightarrow> False)
          else if 0xE0 \<le> a \<and> a \<le> 0xEF then
            (case r of
               b # c # r' \<Rightarrow> utf8_tail b \<and> utf8_tail c \<and> (a = 0xE0 \<longrightarrow> 0xA0 \<le> b) \<and> (a = 0xED \<longrightarrow> b \<le> 0x9F) \<and> from_utf8_ok r'
             | _ \<Rightarrow> False)
          else if 0xF0 \<le> a \<and> a \<le> 0xF4 then
            (case r of
               b # c # d # r' \<Rightarrow>
                 utf8_tail b \<and> utf8_tail c \<and> utf8_tail d \<and> (a = 0xF0 \<longrightarrow> 0x90 \<le> b) \<and> (a = 0xF4 \<longrightarrow> b \<le> 0x8F) \<and> from_utf8_ok r'
             | _ \<Rightarrow> False)
          else False)"
  by pat_completeness auto
termination by (relation "measure length") auto

definition parse_export :: "Export parser" where
  "parse_export bytes at =
     and_then (plain (read_uleb128 bytes at)) (\<lambda>name_len at.
     and_then (read_slice name_len bytes at) (\<lambda>nm at.
       if \<not> from_utf8_ok nm then Err (Failure InvalidUtf8)
       else and_then (plain (read_u8 bytes at)) (\<lambda>k at.
            and_then (plain (read_index bytes at)) (\<lambda>idx at.
              Ok (\<lparr> ex_name = nm, ex_kind = k, ex_index = idx \<rparr>, at)))))"

definition parse_export_section :: "u8 list \<Rightarrow> (ParseError fault, Export list) result" where
  "parse_export_section bytes = parse_section parse_export bytes"

definition parse_segment :: "DataSegment parser" where
  "parse_segment bytes at =
     and_then (plain (read_uleb128 bytes at)) (\<lambda>flags at.
       if flags \<noteq> 0 then Err (Failure (UnknownOpcode (ucast (min flags 0xFF))))
       else and_then (read_const_init_expr 0x7F bytes at) (\<lambda>ib at.
            and_then (plain (read_uleb128 bytes at)) (\<lambda>len at.
            and_then (read_slice len bytes at) (\<lambda>seg at.
              Ok (\<lparr> ds_offset = from_le_bytes ib, ds_bytes = seg \<rparr>, at)))))"

definition parse_data_section :: "u8 list \<Rightarrow> (ParseError fault, DataSegment list) result" where
  "parse_data_section bytes = parse_section parse_segment bytes"

section \<open>Code\<close>

definition parse_local_group :: "(u32 \<times> u8) parser" where
  "parse_local_group bytes at =
     and_then (plain (read_index bytes at)) (\<lambda>n at. and_then (plain (read_u8 bytes at)) (\<lambda>ty at. Ok ((n, ty), at)))"

definition parse_code_entry :: "u8 list \<Rightarrow> (ParseError fault, FunctionBody) result" where
  "parse_code_entry bytes =
     and_then (plain (read_uleb128 bytes 0)) (\<lambda>group_count at.
     and_then (read_many (unat group_count) parse_local_group bytes at) (\<lambda>groups at.
     and_then (plain (parse_ops bytes at)) (\<lambda>ops at.
       Ok \<lparr> num_locals = fold (\<lambda>(n, _) total. saturating_add total n) groups 0,
            local_types = concat (map (\<lambda>(n, ty). replicate (unat n) ty) groups),
            body_ops = ops \<rparr>)))"

definition parse_code :: "FunctionBody parser" where
  "parse_code bytes at =
     and_then (plain (read_uleb128 bytes at)) (\<lambda>entry_size at.
       if length bytes < at + unat entry_size then Err (Failure UnexpectedEof)
       else map_sum id (\<lambda>b. (b, at + unat entry_size)) (parse_code_entry (take (unat entry_size) (drop at bytes))))"

definition parse_code_section :: "u8 list \<Rightarrow> (ParseError fault, FunctionBody list) result" where
  "parse_code_section bytes = parse_section parse_code bytes"

section \<open>Modules\<close>

definition parse_known_section :: "u8 \<Rightarrow> u8 list \<Rightarrow> Module \<Rightarrow> (ParseError fault, Module) result" where
  "parse_known_section section_id bytes m =
     (if section_id = 1 then map_sum id (\<lambda>x. m\<lparr> mod_types := x \<rparr>) (parse_type_section bytes)
      else if section_id = 2 then
        and_then (plain (read_uleb128 bytes 0)) (\<lambda>n _. if 0 < n then Err (Failure ImportsUnsupported) else Ok m)
      else if section_id = 3 then map_sum id (\<lambda>x. m\<lparr> func_types := x \<rparr>) (parse_function_section bytes)
      else if section_id = 6 then map_sum id (\<lambda>x. m\<lparr> globals := x \<rparr>) (parse_global_section bytes)
      else if section_id = 7 then map_sum id (\<lambda>x. m\<lparr> exports := x \<rparr>) (parse_export_section bytes)
      else if section_id = 10 then map_sum id (\<lambda>x. m\<lparr> bodies := x \<rparr>) (parse_code_section bytes)
      else if section_id = 11 then map_sum id (\<lambda>x. m\<lparr> mod_data := x \<rparr>) (parse_data_section bytes)
      else Ok m)"

lemma advances_plain_uleb: "plain (read_uleb128 bytes at) = Ok (x, at') \<Longrightarrow> at \<le> at'"
  using advances_uleb[of bytes at] by (cases "read_uleb128 bytes at") (auto simp: plain_def advances_def)

function parse_sections :: "u8 list \<Rightarrow> nat \<Rightarrow> Module \<Rightarrow> (ParseError fault, Module) result" where
  "parse_sections bytes at m =
     (if length bytes \<le> at then Ok m
      else
        (case plain (read_uleb128 bytes (at + 1)) of
           Err e \<Rightarrow> Err e
         | Ok (n, start) \<Rightarrow>
             (let stop = start + unat n
              in if length bytes < stop then Err (Failure UnexpectedEof)
                 else
                   (case parse_known_section (bytes ! at) (take (unat n) (drop start bytes)) m of
                      Err e \<Rightarrow> Err e
                    | Ok m' \<Rightarrow> parse_sections bytes stop m'))))"
  by pat_completeness auto
termination
  by (relation "measure (\<lambda>(bytes, at, m). length bytes - at)") (auto dest!: advances_plain_uleb)

declare parse_sections.simps [simp del]

definition parse_module_full :: "u8 list \<Rightarrow> (ParseError fault, Module) result" where
  "parse_module_full bytes =
     (if length bytes < 8 then Err (Failure UnexpectedEof)
      else if take 4 bytes \<noteq> [0x00, 0x61, 0x73, 0x6D] then Err (Failure (UnknownOpcode (bytes ! 0)))
      else if take 4 (drop 4 bytes) \<noteq> [0x01, 0x00, 0x00, 0x00] then Err (Failure (UnknownOpcode (bytes ! 4)))
      else
        (case parse_sections bytes 8
                \<lparr> mod_types = [], func_types = [], globals = [], exports = [], mod_data = [], bodies = [] \<rparr> of
           Err e \<Rightarrow> Err e
         | Ok m \<Rightarrow> if bodies m = [] then Err (Failure UnexpectedEof) else Ok m))"

definition parse_module :: "u8 list \<Rightarrow> (ParseError fault, FunctionBody list) result" where
  "parse_module bytes = map_sum id bodies (parse_module_full bytes)"

end
