(* ===== verification/ParseProps.thy ===== *)
theory ParseProps
  imports WasmModule
begin

text \<open>
  What the WebAssembly front end promises: the parser of function bodies reads at least one byte per
  operation and stops inside the slice, and the LEB128 readers invert the encodings of the
  WebAssembly specification.
\<close>

section \<open>Consumption\<close>

lemma parse_loop_consumes:
  "parse_loop bytes at depth ops = Ok (ops', at') \<Longrightarrow>
   \<exists>new. ops' = ops @ new \<and> new \<noteq> [] \<and> last new = End \<and> at + length new \<le> at' \<and> at' \<le> length bytes"
proof (induction bytes at depth ops rule: parse_loop.induct)
  case (1 bytes at depth ops)
  obtain opcode at1 op at2 where r: "read_u8 bytes at = Ok (opcode, at1)" and o: "parse_opcode opcode bytes at1 = Ok (op, at2)"
    using 1(4) by (subst (asm) parse_loop.simps) (auto split: sum.splits prod.splits)
  have at2: "at < at2" "at2 \<le> length bytes"
    using advances_opcode[of bytes at1 opcode] r o by (auto simp: advances_def read_u8_Ok)
  have eq: "parse_loop bytes at depth ops =
      (if op = End then (if depth = 0 then Ok (ops @ [End], at2) else parse_loop bytes at2 (depth - 1) (ops @ [End]))
       else if op = Block \<or> op = Loop \<or> op = IfOp then parse_loop bytes at2 (depth + 1) (ops @ [op])
       else parse_loop bytes at2 depth (ops @ [op]))"
    by (subst parse_loop.simps) (simp add: r o)
  have step: ?case if IH: "\<exists>new. ops' = (ops @ [op]) @ new \<and> new \<noteq> [] \<and> last new = End \<and> at2 + length new \<le> at' \<and> at' \<le> length bytes"
  proof -
    from IH obtain new where "ops' = (ops @ [op]) @ new" "new \<noteq> []" "last new = End" "at2 + length new \<le> at'" "at' \<le> length bytes" by blast
    with at2 show ?thesis by (intro exI[of _ "op # new"]) simp
  qed
  show ?case
  proof (cases "op = End \<and> depth = 0")
    case True
    with 1(4) eq at2 show ?thesis by simp
  next
    case False
    show ?thesis
      using False 1(1)[OF r refl o refl] 1(2)[OF r refl o refl] 1(3)[OF r refl o refl] 1(4) eq by (intro step) (auto split: if_splits)
  qed
qed

section \<open>Encoders\<close>

text \<open>The LEB128 encodings of the WebAssembly specification, as references for the two readers.\<close>

fun uleb_encode :: "nat \<Rightarrow> u8 list" where
  "uleb_encode n = (if n < 128 then [of_nat n] else of_nat (n mod 128 + 128) # uleb_encode (n div 128))"

declare uleb_encode.simps [simp del]

function sleb_encode :: "int \<Rightarrow> u8 list" where
  "sleb_encode i =
     (if - 64 \<le> i \<and> i < 64 then [word_of_int (i mod 128)] else word_of_int (i mod 128 + 128) # sleb_encode (i div 128))"
  by pat_completeness auto
termination
  by (relation "measure (\<lambda>i. nat \<bar>i\<bar>)") auto

declare sleb_encode.simps [simp del]

lemma word_split7:
  "(word_of_int i :: 'a::len word) = word_of_int (i mod 128) OR push_bit 7 (word_of_int (i div 128))"
proof -
  have "i = take_bit 7 i OR push_bit 7 (drop_bit 7 i)"
  proof (rule bit_eqI)
    fix n show "bit i n = bit (take_bit 7 i OR push_bit 7 (drop_bit 7 i)) n" by (cases "n < 7") (auto simp: bit_simps)
  qed
  moreover have "take_bit 7 i = i mod 128" "drop_bit 7 i = i div 128" by (simp_all add: take_bit_eq_mod drop_bit_eq_div)
  ultimately have "(word_of_int i :: 'a word) = word_of_int (i mod 128 OR push_bit 7 (i div 128))" by metis
  then show ?thesis by (simp add: of_int_or_eq of_int_push_bit)
qed

lemma word_split7_nat:
  "(of_nat n :: 'a::len word) = of_nat (n mod 128) OR push_bit 7 (of_nat (n div 128))"
proof -
  have "int n mod 128 = int (n mod 128)" "int n div 128 = int (n div 128)" by (simp_all add: zmod_int zdiv_int)
  then show ?thesis using word_split7[of "int n", where 'a = 'a] unfolding of_int_of_nat_eq by (simp only: of_int_of_nat_eq)
qed

lemma byte7:
  assumes "0 \<le> b" "b < 128"
  shows "(word_of_int b :: u8) AND 0x80 = 0" "(word_of_int (b + 128) :: u8) AND 0x80 \<noteq> 0"
    "ucast ((word_of_int b :: u8) AND 0x7F) = (word_of_int b :: 64 word)"
    "ucast ((word_of_int (b + 128) :: u8) AND 0x7F) = (word_of_int b :: 64 word)"
    "(word_of_int b :: u8) AND 0x40 \<noteq> 0 \<longleftrightarrow> 64 \<le> b"
proof -
  have "\<forall>b \<in> set [0..127]. (word_of_int b :: u8) AND 0x80 = 0 \<and> (word_of_int (b + 128) :: u8) AND 0x80 \<noteq> 0 \<and>
      ucast ((word_of_int b :: u8) AND 0x7F) = (word_of_int b :: 64 word) \<and>
      ucast ((word_of_int (b + 128) :: u8) AND 0x7F) = (word_of_int b :: 64 word) \<and>
      ((word_of_int b :: u8) AND 0x40 \<noteq> 0 \<longleftrightarrow> 64 \<le> b)"
    by code_simp
  with assms show "(word_of_int b :: u8) AND 0x80 = 0" "(word_of_int (b + 128) :: u8) AND 0x80 \<noteq> 0"
    "ucast ((word_of_int b :: u8) AND 0x7F) = (word_of_int b :: 64 word)"
    "ucast ((word_of_int (b + 128) :: u8) AND 0x7F) = (word_of_int b :: 64 word)"
    "(word_of_int b :: u8) AND 0x40 \<noteq> 0 \<longleftrightarrow> 64 \<le> b"
    by auto
qed

lemma read_u8_at: "read_u8 (pre @ b # post) (length pre) = Ok (b, length pre + 1)"
  by (simp add: read_u8_def)

lemma uleb_loop_encode:
  "n * 2 ^ shift < 2 ^ 64 \<Longrightarrow>
   uleb_loop (pre @ uleb_encode n @ post) (length pre) acc shift =
     Ok (acc OR push_bit shift (of_nat n), length pre + length (uleb_encode n))"
proof (induction n arbitrary: pre acc shift rule: uleb_encode.induct)
  case (1 n)
  show ?case
  proof (cases "n < 128")
    case True
    with byte7[of "int n"] show ?thesis
      by (subst uleb_loop.simps) (simp add: uleb_encode.simps[of n] read_u8_at)
  next
    case False
    have "n div 128 * 2 ^ (shift + 7) = (n div 128 * 128) * 2 ^ shift" by (simp add: power_add)
    also have "\<dots> \<le> n * 2 ^ shift" by (intro mult_le_mono1) simp
    finally have small: "n div 128 * 2 ^ (shift + 7) < 2 ^ 64" using 1(2) by (rule le_less_trans)
    have "(2::nat) ^ (shift + 7) = 128 * 2 ^ shift" by (simp add: power_add)
    also have "\<dots> \<le> n * 2 ^ shift" using False by (intro mult_le_mono1) simp
    finally have "(2::nat) ^ (shift + 7) < 2 ^ 64" using 1(2) by (rule le_less_trans)
    then have "shift + 7 < 64" by (simp only: power_strict_increasing_iff)
    moreover have "uleb_loop ((pre @ [of_nat (n mod 128 + 128)]) @ uleb_encode (n div 128) @ post) (length pre + 1)
        (acc OR push_bit shift (of_nat (n mod 128))) (shift + 7) =
      Ok ((acc OR push_bit shift (of_nat (n mod 128))) OR push_bit (shift + 7) (of_nat (n div 128)),
          length pre + 1 + length (uleb_encode (n div 128)))"
      using 1(1)[OF False small, of "pre @ [of_nat (n mod 128 + 128)]"] by simp
    moreover have "push_bit shift (of_nat n :: u64) = push_bit shift (of_nat (n mod 128)) OR push_bit (shift + 7) (of_nat (n div 128))"
      by (subst word_split7_nat) (simp add: push_bit_or add.commute)
    ultimately show ?thesis
      using False byte7[of "int (n mod 128)"]
      by (subst uleb_loop.simps) (simp add: uleb_encode.simps[of n] read_u8_at or.assoc)
  qed
qed

lemma sleb_loop_encode:
  "- (2 ^ (63 - shift)) \<le> i \<Longrightarrow> i < 2 ^ (63 - shift) \<Longrightarrow> shift < 64 \<Longrightarrow>
   sleb_loop (pre @ sleb_encode i @ post) (length pre) acc shift =
     Ok (acc OR push_bit shift (word_of_int i), length pre + length (sleb_encode i))"
proof (induction i arbitrary: pre acc shift rule: sleb_encode.induct)
  case (1 i)
  let ?b = "i mod 128"
  have b: "0 \<le> ?b" "?b < 128" by simp_all
  have split: "push_bit shift (word_of_int i :: i64) = push_bit shift (word_of_int ?b) OR push_bit (shift + 7) (word_of_int (i div 128))"
    by (subst word_split7) (simp add: push_bit_or add.commute)
  show ?case
  proof (cases "- 64 \<le> i \<and> i < 64")
    case True
    then have d: "i div 128 = (if 64 \<le> ?b then - 1 else 0)" by presburger
    have "push_bit (shift + 7) (- 1 :: i64) = 0" if "\<not> shift + 7 < 64"
      using that by (intro bit_word_eqI) (simp add: bit_simps)
    then have "(if shift + 7 < 64 \<and> 64 \<le> ?b then (acc OR push_bit shift (word_of_int ?b)) OR push_bit (shift + 7) (- 1)
        else acc OR push_bit shift (word_of_int ?b)) = acc OR push_bit shift (word_of_int i :: i64)"
      unfolding split d by (simp add: or.assoc)
    then show ?thesis using byte7[OF b] True
      by (subst sleb_loop.simps) (auto simp: sleb_encode.simps[of i] read_u8_at Let_def split: if_splits simp del: push_bit_minus_one_eq_not_mask)
  next
    case False
    have shift: "shift + 7 < 64"
    proof (rule ccontr)
      assume "\<not> shift + 7 < 64"
      then have "(2::int) ^ (63 - shift) \<le> 2 ^ 6" by (intro power_increasing) auto
      with 1(2,3) False show False by simp
    qed
    have "63 - shift = 7 + (63 - (shift + 7))" using shift by simp
    then have "(2::int) ^ (63 - shift) = 128 * 2 ^ (63 - (shift + 7))" by (simp only: power_add) simp
    then have "- (2 ^ (63 - (shift + 7))) \<le> i div 128" "i div 128 < 2 ^ (63 - (shift + 7))"
      using 1(2,3) by simp_all
    from 1(1)[OF False this shift, of "pre @ [word_of_int (?b + 128)]"]
    have "sleb_loop ((pre @ [word_of_int (?b + 128)]) @ sleb_encode (i div 128) @ post) (length pre + 1)
        (acc OR push_bit shift (word_of_int ?b)) (shift + 7) =
      Ok ((acc OR push_bit shift (word_of_int ?b)) OR push_bit (shift + 7) (word_of_int (i div 128)),
          length pre + 1 + length (sleb_encode (i div 128)))" by simp
    moreover have "sleb_encode i = word_of_int (?b + 128) # sleb_encode (i div 128)" using False by (subst sleb_encode.simps) auto
    ultimately show ?thesis unfolding split using byte7[OF b] shift
      by (subst sleb_loop.simps) (simp add: read_u8_at Let_def or.assoc)
  qed
qed

section \<open>Properties\<close>

text \<open>C34: the LEB128 readers invert the encodings of the WebAssembly specification: wherever the bytes of
  a 64-bit integer stand in a slice, the reader returns that integer and leaves the cursor just behind
  them, for unsigned and for signed integers.\<close>

theorem leb128_roundtrip:
  fixes u :: u64 and i :: i64
  shows "read_uleb128 (pre @ uleb_encode (unat u) @ post) (length pre) = Ok (u, length pre + length (uleb_encode (unat u))) \<and>
    read_sleb128 (pre @ sleb_encode (sint i) @ post) (length pre) = Ok (i, length pre + length (sleb_encode (sint i)))"
proof -
  have "- (2 ^ 63) \<le> sint i" "sint i < 2 ^ 63" using sint_range_size[of i] by (simp_all add: word_size)
  then show ?thesis
    using uleb_loop_encode[of "unat u" 0 pre post 0] unat_lt2p[of u] sleb_loop_encode[of 0 "sint i" pre post 0]
    by (simp add: read_uleb128_def read_sleb128_def)
qed



end
