(* ===== verification/Peephole.thy ===== *)
theory Peephole
  imports Wasm
begin

text \<open>
  The peephole pass over the emitted code (\<open>peephole.rs\<close>): self-moves and self-ands outside the
  literal regions become no-operations in place.
\<close>

section \<open>The pass\<close>

definition NOP :: u32 where "NOP = 0xD503201F"

definition is_self_add_x :: "u32 \<Rightarrow> bool" where
  "is_self_add_x word =
     (if word AND 0xFFE0FC00 \<noteq> 0x8B000000 then False
      else let rd = word AND 0x1F; rn = drop_bit 5 word AND 0x1F; rm = drop_bit 16 word AND 0x1F
           in rn = 31 \<and> rm = rd)"

definition is_self_and_w :: "u32 \<Rightarrow> bool" where
  "is_self_and_w word =
     (if word AND 0xFFE0FC00 \<noteq> 0x0A000000 then False
      else let rd = word AND 0x1F; rn = drop_bit 5 word AND 0x1F; rm = drop_bit 16 word AND 0x1F
           in rd = rn \<and> rn = rm)"

definition word_at :: "u8 list \<Rightarrow> nat \<Rightarrow> u32" where
  "word_at code off = from_le_bytes (take 4 (drop off code))"

definition put_word :: "u8 list \<Rightarrow> nat \<Rightarrow> u32 \<Rightarrow> u8 list" where
  "put_word code off word = take off code @ to_le_bytes word @ drop (off + 4) code"

definition patch_nop :: "u8 list \<Rightarrow> nat \<Rightarrow> u8 list" where
  "patch_nop code off = put_word code off NOP"

definition in_data :: "DataRegion list \<Rightarrow> nat \<Rightarrow> bool" where
  "in_data regions off = list_ex (\<lambda>r. dr_start r \<le> off \<and> off < dr_end r) regions"

definition optimize_word :: "DataRegion list \<Rightarrow> nat \<Rightarrow> u8 list \<times> nat \<Rightarrow> u8 list \<times> nat" where
  "optimize_word regions i s =
     (let off = i * 4; code = fst s; word = word_at code off
      in if in_data regions off then s
         else if is_self_add_x word then (patch_nop code off, snd s + 1)
         else if is_self_and_w word then (patch_nop code off, snd s + 1)
         else s)"

definition optimize :: "u8 list \<Rightarrow> DataRegion list \<Rightarrow> u8 list \<times> nat" where
  "optimize code regions =
     (if length code < 4 then (code, 0) else fold (optimize_word regions) [0..<length code div 4] (code, 0))"

definition count_nops :: "u8 list \<Rightarrow> nat" where
  "count_nops code = length (filter (\<lambda>i. word_at code (i * 4) = NOP) [0..<length code div 4])"

section \<open>Words in a code buffer\<close>

lemma length_to_le_bytes [simp]: "length (to_le_bytes w) = 4"
  by (simp add: to_le_bytes_def)

lemma from_to_le_bytes [simp]: "from_le_bytes (to_le_bytes w) = w"
proof (rule bit_eqI)
  fix n assume "possible_bit TYPE(32 word) n"
  then consider "n < 8" | "8 \<le> n" "n < 16" | "16 \<le> n" "n < 24" | "24 \<le> n" "n < 32" by fastforce
  then show "bit (from_le_bytes (to_le_bytes w)) n \<longleftrightarrow> bit w n"
    by cases (auto simp: from_le_bytes_def to_le_bytes_def bit_or_iff bit_push_bit_iff bit_ucast_iff bit_drop_bit_eq nth_Cons')
qed

lemma length_put_word [simp]: "off + 4 \<le> length code \<Longrightarrow> length (put_word code off w) = length code"
  by (simp add: put_word_def)

lemma word_at_put_word: "off + 4 \<le> length code \<Longrightarrow> word_at (put_word code off w) off = w"
  by (simp add: word_at_def put_word_def)

lemma put_word_nth:
  assumes "off + 4 \<le> length code" "k < off \<or> off + 4 \<le> k" "k < length code"
  shows "put_word code off w ! k = code ! k"
  using assms by (auto simp: put_word_def nth_append)

lemma take_drop_eq_iff_nth:
  assumes "off + 4 \<le> length xs" "off + 4 \<le> length ys"
  shows "take 4 (drop off xs) = take 4 (drop off ys) \<longleftrightarrow> (\<forall>k. off \<le> k \<and> k < off + 4 \<longrightarrow> xs ! k = ys ! k)"
proof -
  have "(\<forall>i<4. xs ! (off + i) = ys ! (off + i)) \<longleftrightarrow> (\<forall>k. off \<le> k \<and> k < off + 4 \<longrightarrow> xs ! k = ys ! k)"
    by (metis add_less_cancel_left le_add1 le_iff_add)
  then show ?thesis using assms by (simp add: list_eq_iff_nth_eq)
qed

lemma word_at_put_other:
  assumes "off + 4 \<le> length code" "at + 4 \<le> length code" "at + 4 \<le> off \<or> off + 4 \<le> at"
  shows "word_at (put_word code off w) at = word_at code at"
proof -
  have "take 4 (drop at (put_word code off w)) = take 4 (drop at code)"
    using assms by (subst take_drop_eq_iff_nth) (auto intro!: put_word_nth)
  then show ?thesis by (simp add: word_at_def)
qed

section \<open>The pass rewrites exactly the redundant words\<close>

definition redundant :: "DataRegion list \<Rightarrow> u8 list \<Rightarrow> nat \<Rightarrow> bool" where
  "redundant regions code i \<longleftrightarrow>
     \<not> in_data regions (i * 4) \<and> (is_self_add_x (word_at code (i * 4)) \<or> is_self_and_w (word_at code (i * 4)))"

lemma optimize_word_eq:
  "optimize_word regions i (code, k) =
     (if redundant regions code i then (patch_nop code (i * 4), k + 1) else (code, k))"
  by (simp add: optimize_word_def redundant_def Let_def)

text \<open>The state of the loop after the first \<open>n\<close> words.\<close>

definition passed :: "DataRegion list \<Rightarrow> u8 list \<Rightarrow> nat \<Rightarrow> u8 list \<times> nat \<Rightarrow> bool" where
  "passed regions code n s \<longleftrightarrow>
     length (fst s) = length code \<and>
     (\<forall>i < length code div 4.
        word_at (fst s) (i * 4) = (if i < n \<and> redundant regions code i then NOP else word_at code (i * 4))) \<and>
     (\<forall>k < length code. (k < length code div 4 * 4 \<longrightarrow> n \<le> k div 4 \<or> \<not> redundant regions code (k div 4)) \<longrightarrow> fst s ! k = code ! k) \<and>
     snd s = length (filter (redundant regions code) [0..<n])"

lemma passed_step:
  assumes s: "passed regions code n s" and n: "n < length code div 4"
  shows "passed regions code (Suc n) (optimize_word regions n s)"
proof -
  obtain c k where sk: "s = (c, k)" by (cases s)
  have fit: "n * 4 + 4 \<le> length code" using n by (simp add: less_eq_div_iff_mult_less_eq flip: Suc_le_eq)
  have len: "length c = length code"
    and words: "\<And>i. i < length code div 4 \<Longrightarrow> word_at c (i * 4) = (if i < n \<and> redundant regions code i then NOP else word_at code (i * 4))"
    and bytes: "\<And>j. j < length code \<Longrightarrow> (j < length code div 4 * 4 \<Longrightarrow> n \<le> j div 4 \<or> \<not> redundant regions code (j div 4)) \<Longrightarrow> c ! j = code ! j"
    and num: "k = length (filter (redundant regions code) [0..<n])"
    using s unfolding sk passed_def by auto
  have here: "word_at c (n * 4) = word_at code (n * 4)" using words[OF n] by simp
  then have red: "redundant regions c n = redundant regions code n" by (simp add: redundant_def)
  show ?thesis
  proof (cases "redundant regions code n")
    case False
    then have "optimize_word regions n s = (c, k)" by (simp add: sk optimize_word_eq red)
    with False show ?thesis
      unfolding passed_def using len words bytes num by (auto simp: less_Suc_eq le_Suc_eq)
  next
    case True
    then have eq: "optimize_word regions n s = (put_word c (n * 4) NOP, k + 1)"
      by (simp add: sk optimize_word_eq red patch_nop_def)
    have fit': "n * 4 + 4 \<le> length c" using fit len by simp
    have "word_at (put_word c (n * 4) NOP) (i * 4) =
        (if i < Suc n \<and> redundant regions code i then NOP else word_at code (i * 4))" if i: "i < length code div 4" for i
    proof (cases "i = n")
      case False
      then have "i * 4 + 4 \<le> n * 4 \<or> n * 4 + 4 \<le> i * 4" by linarith
      moreover have "i * 4 + 4 \<le> length c" using i len by (simp add: less_eq_div_iff_mult_less_eq flip: Suc_le_eq)
      ultimately show ?thesis using word_at_put_other[OF fit'] words[OF i] False by (auto simp: less_Suc_eq)
    qed (use True word_at_put_word[OF fit'] in simp)
    moreover have "put_word c (n * 4) NOP ! j = code ! j"
      if j: "j < length code" and out: "j < length code div 4 * 4 \<Longrightarrow> Suc n \<le> j div 4 \<or> \<not> redundant regions code (j div 4)" for j
    proof -
      have "j < n * 4 \<or> n * 4 + 4 \<le> j"
      proof (rule ccontr)
        assume "\<not> ?thesis"
        then have "j div 4 = n" "j < length code div 4 * 4" using n by linarith+
        with out True show False by simp
      qed
      with j fit' len have "put_word c (n * 4) NOP ! j = c ! j" by (intro put_word_nth) auto
      also have "\<dots> = code ! j" using bytes[OF j] out by fastforce
      finally show ?thesis .
    qed
    ultimately show ?thesis
      unfolding passed_def eq using fit' len num True by auto
  qed
qed

lemma passed_fold: "n \<le> length code div 4 \<Longrightarrow> passed regions code n (fold (optimize_word regions) [0..<n] (code, 0))"
proof (induction n)
  case 0
  show ?case by (simp add: passed_def)
next
  case (Suc n)
  then show ?case using passed_step[of regions code n] by simp
qed

lemma passed_optimize: "passed regions code (length code div 4) (optimize code regions)"
proof (cases "length code < 4")
  case True
  then show ?thesis by (simp add: optimize_def passed_def)
next
  case False
  then show ?thesis using passed_fold[of "length code div 4" code regions] by (simp add: optimize_def)
qed

end
