(* ===== verification/PeepProps.thy ===== *)
theory PeepProps
  imports Peephole
begin

text \<open>
  The peephole pass against a reference: the words it replaces are exactly the self-moves and self-ands
  that the encoder emits, outside the literal regions, and nothing else of the buffer changes.
\<close>

section \<open>The two patterns are the words the encoder emits\<close>

lemma push_drop_and: "push_bit n (drop_bit n w AND m) = w AND push_bit n m" for w :: "'a::len word"
proof (rule bit_word_eqI)
  fix k show "k < LENGTH('a) \<Longrightarrow> bit (push_bit n (drop_bit n w AND m)) k = bit (w AND push_bit n m) k"
    by (cases "n \<le> k") (auto simp: bit_simps)
qed

lemma fields:
  "w = rrr (w AND 0xFFE0FC00) (drop_bit 16 w AND 0x1F) (drop_bit 5 w AND 0x1F) (w AND 0x1F)" for w :: u32
proof -
  have "(0xFFE0FC00 OR push_bit 16 0x1F OR push_bit 5 0x1F OR 0x1F :: u32) = - 1" by code_simp
  then have "w = w AND (0xFFE0FC00 OR push_bit 16 0x1F OR push_bit 5 0x1F OR 0x1F)" by (simp only: bit.conj_one_right)
  then show ?thesis unfolding rrr_def push_drop_and by (simp only: bit.conj_disj_distrib)
qed

text \<open>An instruction that copies a register to itself, as the encoder emits it.\<close>

definition self_copy :: "u32 \<Rightarrow> bool" where
  "self_copy w \<longleftrightarrow>
     (\<exists>r. add_x r ZR r Encoder_new = Ok (emit w Encoder_new) \<or> and_w r r r Encoder_new = Ok (emit w Encoder_new))"

lemma emit_inject: "emit v Encoder_new = emit w Encoder_new \<longleftrightarrow> v = w"
proof
  assume "emit v Encoder_new = emit w Encoder_new"
  then have "to_le_bytes v = to_le_bytes w" by (simp add: emit_def Encoder_new_def)
  then show "v = w" by (metis from_to_le_bytes)
qed simp

lemma self_copy_words:
  "self_copy w \<longleftrightarrow> (\<exists>r. w = rrr 0x8B000000 (renc r) 31 (renc r) \<or> w = rrr 0x0A000000 (renc r) (renc r) (renc r))"
  by (auto simp: self_copy_def add_x_def and_w_def emit_ok_def emit_inject renc_def)

lemma renc_code: "\<exists>n < 32. renc r = of_nat n" "n < 32 \<Longrightarrow> renc (Reg (of_nat n)) = of_nat n"
proof -
  have m: "(0x1F :: u32) = mask 5" by (simp add: mask_eq_exp_minus_1)
  have "unat (renc r) < 32" 
    using take_bit_nat_less_exp[of 5 "unat (ucast (reg_no r) :: u32)"]
    unfolding renc_def m take_bit_eq_mask[symmetric] unsigned_take_bit_eq by simp
  then show "\<exists>n < 32. renc r = of_nat n" by (intro exI[of _ "unat (renc r)"]) simp
  have "\<forall>n \<in> set [0..<32]. renc (Reg (of_nat n)) = of_nat n" by code_simp
  then show "n < 32 \<Longrightarrow> renc (Reg (of_nat n)) = of_nat n" by simp
qed

lemma self_copy_patterns: "is_self_add_x w \<or> is_self_and_w w \<longleftrightarrow> self_copy w"
proof
  assume "is_self_add_x w \<or> is_self_and_w w"
  then have w: "w = rrr 0x8B000000 (w AND 0x1F) 31 (w AND 0x1F) \<or> w = rrr 0x0A000000 (w AND 0x1F) (w AND 0x1F) (w AND 0x1F)"
    using fields[of w] by (auto simp: is_self_add_x_def is_self_and_w_def Let_def split: if_splits)
  have "renc (Reg (ucast w)) = w AND 0x1F"
  proof -
    have m: "(0x1F :: u32) = mask 5" by (simp add: mask_eq_exp_minus_1)
    show ?thesis unfolding renc_def m by (rule bit_word_eqI) (auto simp: bit_simps)
  qed
  with w show "self_copy w" unfolding self_copy_words by metis
next
  have "\<forall>n \<in> set [0..<32]. is_self_add_x (rrr 0x8B000000 (of_nat n) 31 (of_nat n))"
    "\<forall>n \<in> set [0..<32]. is_self_and_w (rrr 0x0A000000 (of_nat n) (of_nat n) (of_nat n))" by code_simp+
  moreover assume "self_copy w"
  then obtain r where "w = rrr 0x8B000000 (renc r) 31 (renc r) \<or> w = rrr 0x0A000000 (renc r) (renc r) (renc r)"
    unfolding self_copy_words by blast
  moreover obtain n where "n < 32" "renc r = of_nat n" using renc_code(1) by blast
  ultimately show "is_self_add_x w \<or> is_self_and_w w" by auto
qed

section \<open>The reference\<close>

definition replaced :: "DataRegion list \<Rightarrow> u8 list \<Rightarrow> nat \<Rightarrow> bool" where
  "replaced regions code i \<longleftrightarrow> \<not> in_data regions (i * 4) \<and> self_copy (word_at code (i * 4))"

definition optimized :: "DataRegion list \<Rightarrow> u8 list \<Rightarrow> u8 list" where
  "optimized regions code =
     concat (map (\<lambda>i. to_le_bytes (if replaced regions code i then NOP else word_at code (i * 4))) [0..<length code div 4])
     @ drop (length code div 4 * 4) code"

lemma to_from_le_bytes:
  assumes "length b = 4"
  shows "to_le_bytes (from_le_bytes b) = b"
proof -
  obtain b0 b1 b2 b3 where b: "b = [b0, b1, b2, b3]"
    using assms by (auto simp: numeral_eq_Suc length_Suc_conv)
  have high: "\<not> bit x n" if "8 \<le> n" for x :: u8 and n using that bit_imp_le_length[of x n] by auto
  show ?thesis unfolding b to_le_bytes_def from_le_bytes_def
    by (auto intro!: bit_word_eqI simp: bit_simps high)
qed

lemma code_words: "n * 4 \<le> length c \<Longrightarrow> take (n * 4) c = concat (map (\<lambda>i. to_le_bytes (word_at c (i * 4))) [0..<n])"
proof (induction n)
  case (Suc n)
  have "take (Suc n * 4) c = take (n * 4) c @ take 4 (drop (n * 4) c)" using take_add[of "n * 4" 4 c] by (simp add: add.commute)
  with Suc show ?case by (simp add: word_at_def to_from_le_bytes)
qed simp

text \<open>C12: the peephole pass equals its reference: the new buffer is the old one with every instruction that
  copies a register to itself, as the encoder emits it, replaced by a no-operation unless it lies in a
  literal region; the trailing bytes and everything else are kept, and the result counts the
  replacements.\<close>

theorem peephole_exact:
  "optimize code regions = (optimized regions code, length (filter (replaced regions code) [0..<length code div 4]))"
proof -
  let ?n = "length code div 4" and ?c = "fst (optimize code regions)"
  have red: "redundant regions code = replaced regions code"
    by (rule ext) (simp add: redundant_def replaced_def self_copy_patterns)
  note p = passed_optimize[of regions code, unfolded passed_def red]
  have len: "length ?c = length code" using p by simp
  have "drop (?n * 4) ?c = drop (?n * 4) code" using p by (intro nth_equalityI) auto
  moreover have "take (?n * 4) ?c = concat (map (\<lambda>i. to_le_bytes (if replaced regions code i then NOP else word_at code (i * 4))) [0..<?n])"
    using p len by (subst code_words) (auto intro!: arg_cong[of _ _ concat])
  ultimately have "?c = optimized regions code" unfolding optimized_def by (metis append_take_drop_id)
  then show ?thesis using p by (simp add: prod_eq_iff)
qed

end
