(* ===== verification/Lowerer.thy ===== *)
theory Lowerer
  imports Peephole
begin

text \<open>
  The state of the WebAssembly lowering and its operand stack (\<open>wasm_lower/mod.rs\<close>, the struct and
  its constructors, and \<open>wasm_lower/stack.rs\<close>).  A lowering step is a function from a \<open>Lowerer\<close> to a
  value and a new \<open>Lowerer\<close>, to an error, or to a panic; \<open>lbind\<close> is the question mark operator.  The
  operand stack, its symbolic shadow and the label stack are lists with their top first; the
  per-loop vectors keep the order of the source.
\<close>

section \<open>State\<close>

record Lowerer =
  enc :: Encoder
  stack :: "ValType list"
  int_depth :: nat
  fp_depth :: nat
  locals :: "LocalLoc list"
  label_stack :: "Label list"
  call_targets :: "u64 list"
  call_sigs :: "FnSig list"
  has_frame :: bool
  has_memory :: bool
  saved_int_pairs :: nat
  frame_size_base :: i16
  mem_size :: u32
  table_base :: "u64 option"
  indirect_sigs :: "FnSig list"
  data_regions :: "DataRegion list"
  n_int_locals :: nat
  max_reg_int :: nat
  spill_base :: u32
  has_spill :: bool
  pending_spill_depth :: "nat option"
  spill_pop_toggle :: bool
  fp_spill_base :: u32
  pending_fp_spill_depth :: "nat option"
  fp_spill_pop_toggle :: bool
  int_sym_stack :: "SymAddr option list"
  global_types :: "ValType list"
  global_mutable :: "bool list"
  module_fn_count :: nat
  module_fn_sigs :: "FnSig list"
  pending_relocations :: "(u32 \<times> u32) list"
  active_loop_bounds :: "LoopBound option list"
  tainted_locals :: "u32 set list"
  elision_count :: u32

type_synonym 'a lowering = "Lowerer \<Rightarrow> (LowerError fault, 'a \<times> Lowerer) result"

definition lret :: "'a \<Rightarrow> 'a lowering" where
  "lret x s = Ok (x, s)"

definition lfail :: "LowerError \<Rightarrow> 'a lowering" where
  "lfail e s = Err (Failure e)"

definition lpanic :: "'a lowering" where
  "lpanic s = Err Panic"

definition lbind :: "'a lowering \<Rightarrow> ('a \<Rightarrow> 'b lowering) \<Rightarrow> 'b lowering" where
  "lbind m f s = (case m s of Err e \<Rightarrow> Err e | Ok (x, s') \<Rightarrow> f x s')"

definition lget :: "(Lowerer \<Rightarrow> 'a) \<Rightarrow> 'a lowering" where
  "lget f s = Ok (f s, s)"

definition lmod :: "(Lowerer \<Rightarrow> Lowerer) \<Rightarrow> unit lowering" where
  "lmod f s = Ok ((), f s)"

definition lwhen :: "bool \<Rightarrow> unit lowering \<Rightarrow> unit lowering" where
  "lwhen b m = (if b then m else lret ())"

fun lseq :: "unit lowering list \<Rightarrow> unit lowering" where
  "lseq [] = lret ()"
| "lseq (m # ms) = lbind m (\<lambda>_. lseq ms)"

text \<open>One instruction.\<close>

definition ins :: "emitter \<Rightarrow> unit lowering" where
  "ins em s = (case em (enc s) of Err e \<Rightarrow> Err (Failure (Encode e)) | Ok e' \<Rightarrow> Ok ((), s\<lparr> enc := e' \<rparr>))"

definition here :: "nat lowering" where
  "here = lget (\<lambda>s. enc_pos (enc s))"

text \<open>
  Materialising a constant: the first half-word by \<open>movz\<close>, the others by \<open>movk\<close> unless they are zero.
  The source writes this sequence out at each of its uses.
\<close>

definition halfword :: "nat \<Rightarrow> 'a::len word \<Rightarrow> u16" where
  "halfword k v = ucast (drop_bit (16 * k) v AND 0xFFFF)"

definition load_u32_into_reg :: "Reg \<Rightarrow> u32 \<Rightarrow> unit lowering" where
  "load_u32_into_reg dst val =
     lseq [ins (movz dst (halfword 0 val) Lsl0), lwhen (halfword 1 val \<noteq> 0) (ins (movk dst (halfword 1 val) Lsl16))]"

definition load_u64_into_reg :: "Reg \<Rightarrow> u64 \<Rightarrow> unit lowering" where
  "load_u64_into_reg dst val =
     lseq [ins (movz dst (halfword 0 val) Lsl0),
           lwhen (halfword 1 val \<noteq> 0) (ins (movk dst (halfword 1 val) Lsl16)),
           lwhen (halfword 2 val \<noteq> 0) (ins (movk dst (halfword 2 val) Lsl32)),
           lwhen (halfword 3 val \<noteq> 0) (ins (movk dst (halfword 3 val) Lsl48))]"

section \<open>Operand stack\<close>

definition int_depth_to_reg :: "Lowerer \<Rightarrow> nat \<Rightarrow> Reg option" where
  "int_depth_to_reg s depth =
     (if depth < MAX_PRIMARY_INT then Some (Reg (of_nat depth))
      else if depth < max_reg_int s
      then Some (Reg (LOCAL_I32_BASE_REG + of_nat (n_int_locals s) + of_nat (depth - MAX_PRIMARY_INT)))
      else None)"

definition spill_offset :: "Lowerer \<Rightarrow> nat \<Rightarrow> u32" where
  "spill_offset s depth = spill_base s + of_nat (depth - max_reg_int s) * SPILL_SLOT_BYTES"

definition fp_spill_offset :: "Lowerer \<Rightarrow> nat \<Rightarrow> u32" where
  "fp_spill_offset s depth = fp_spill_base s + of_nat (depth - MAX_F32_STACK) * FP_SPILL_SLOT_BYTES"

definition flush_pending_spill :: "unit lowering" where
  "flush_pending_spill =
     lbind (lget pending_spill_depth) (\<lambda>p.
       case p of
         None \<Rightarrow> lret ()
       | Some depth \<Rightarrow>
           lbind (lmod (\<lambda>s. s\<lparr> pending_spill_depth := None \<rparr>)) (\<lambda>_.
           lbind (lget (\<lambda>s. spill_offset s depth)) (\<lambda>off. ins (str_imm SPILL_SCRATCH_A SP off))))"

definition flush_pending_fp_spill :: "unit lowering" where
  "flush_pending_fp_spill =
     lbind (lget pending_fp_spill_depth) (\<lambda>p.
       case p of
         None \<Rightarrow> lret ()
       | Some depth \<Rightarrow>
           lbind (lmod (\<lambda>s. s\<lparr> pending_fp_spill_depth := None \<rparr>)) (\<lambda>_.
           lbind (lget (\<lambda>s. fp_spill_offset s depth)) (\<lambda>off. ins (str_q_imm FP_SPILL_SCRATCH_A SP off))))"

definition set_top_sym :: "SymAddr option \<Rightarrow> unit lowering" where
  "set_top_sym sy =
     lmod (\<lambda>s. case int_sym_stack s of [] \<Rightarrow> s | _ # rest \<Rightarrow> s\<lparr> int_sym_stack := sy # rest \<rparr>)"

definition peek_sym_at :: "nat \<Rightarrow> SymAddr option lowering" where
  "peek_sym_at n = lget (\<lambda>s. if length (int_sym_stack s) \<le> n then None else int_sym_stack s ! n)"

definition peek_top_sym :: "SymAddr option lowering" where
  "peek_top_sym = lget (\<lambda>s. case int_sym_stack s of [] \<Rightarrow> None | sy # _ \<Rightarrow> sy)"

text \<open>The two integer types share one bank of registers.\<close>

definition grow_int :: "ValType \<Rightarrow> unit lowering" where
  "grow_int ty = lmod (\<lambda>s. s\<lparr> int_depth := int_depth s + 1, stack := ty # stack s, int_sym_stack := None # int_sym_stack s \<rparr>)"

definition push_int :: "ValType \<Rightarrow> Reg lowering" where
  "push_int ty =
     lbind flush_pending_spill (\<lambda>_.
     lbind (lget (\<lambda>s. (int_depth_to_reg s (int_depth s), int_depth s, has_spill s \<and> int_depth s < max_reg_int s + MAX_FRAME_SPILL)))
       (\<lambda>(r, depth, fits).
          case r of
            Some r \<Rightarrow> lbind (grow_int ty) (\<lambda>_. lret r)
          | None \<Rightarrow>
              if fits
              then lbind (lmod (\<lambda>s. s\<lparr> pending_spill_depth := Some depth \<rparr>)) (\<lambda>_.
                   lbind (grow_int ty) (\<lambda>_. lret SPILL_SCRATCH_A))
              else lfail (TypedStackOverflow ty)))"

definition pop_int :: "ValType \<Rightarrow> Reg lowering" where
  "pop_int expected =
     lbind flush_pending_spill (\<lambda>_.
     lbind (lget stack) (\<lambda>st.
       case st of
         [] \<Rightarrow> lfail StackUnderflow
       | got # rest \<Rightarrow>
           if got \<noteq> expected then lfail (TypeMismatch expected got)
           else
             lbind (lmod (\<lambda>s. s\<lparr> stack := rest, int_sym_stack := tl (int_sym_stack s), int_depth := int_depth s - 1 \<rparr>)) (\<lambda>_.
             lbind (lget (\<lambda>s. (int_depth_to_reg s (int_depth s), spill_pop_toggle s, spill_offset s (int_depth s))))
               (\<lambda>(r, toggle, off).
                  case r of
                    Some r \<Rightarrow> lret r
                  | None \<Rightarrow>
                      (let scratch = if toggle then SPILL_SCRATCH_B else SPILL_SCRATCH_A
                       in lbind (lmod (\<lambda>s. s\<lparr> spill_pop_toggle := \<not> toggle \<rparr>)) (\<lambda>_.
                          lbind (ins (ldr_imm scratch SP off)) (\<lambda>_. lret scratch)))))))"

definition push_i32_slot :: "Reg lowering" where "push_i32_slot = push_int I32"
definition pop_i32_slot :: "Reg lowering" where "pop_i32_slot = pop_int I32"
definition push_i64_slot :: "Reg lowering" where "push_i64_slot = push_int I64"
definition pop_i64_slot :: "Reg lowering" where "pop_i64_slot = pop_int I64"

text \<open>So do the three types of the vector bank.\<close>

definition grow_fp :: "ValType \<Rightarrow> unit lowering" where
  "grow_fp ty = lmod (\<lambda>s. s\<lparr> fp_depth := fp_depth s + 1, stack := ty # stack s \<rparr>)"

definition push_fp :: "ValType \<Rightarrow> Vreg lowering" where
  "push_fp ty =
     lbind flush_pending_fp_spill (\<lambda>_.
     lbind (lget (\<lambda>s. (fp_depth s, has_spill s \<and> fp_depth s < MAX_F32_STACK + MAX_FP_SPILL))) (\<lambda>(depth, fits).
       if depth < MAX_F32_STACK then
         (case Vreg_new (of_nat depth) of
            None \<Rightarrow> lfail (TypedStackOverflow ty)
          | Some v \<Rightarrow> lbind (grow_fp ty) (\<lambda>_. lret v))
       else if fits then
         lbind (lmod (\<lambda>s. s\<lparr> pending_fp_spill_depth := Some depth \<rparr>)) (\<lambda>_.
         lbind (grow_fp ty) (\<lambda>_. lret FP_SPILL_SCRATCH_A))
       else lfail (TypedStackOverflow ty)))"

definition pop_fp :: "ValType \<Rightarrow> Vreg lowering" where
  "pop_fp expected =
     lbind flush_pending_fp_spill (\<lambda>_.
     lbind (lget stack) (\<lambda>st.
       case st of
         [] \<Rightarrow> lfail StackUnderflow
       | got # rest \<Rightarrow>
           if got \<noteq> expected then lfail (TypeMismatch expected got)
           else
             lbind (lmod (\<lambda>s. s\<lparr> stack := rest, fp_depth := fp_depth s - 1 \<rparr>)) (\<lambda>_.
             lbind (lget (\<lambda>s. (fp_depth s, fp_spill_pop_toggle s, fp_spill_offset s (fp_depth s)))) (\<lambda>(depth, toggle, off).
               if depth < MAX_F32_STACK then
                 (case Vreg_new (of_nat depth) of None \<Rightarrow> lfail StackUnderflow | Some v \<Rightarrow> lret v)
               else
                 (let scratch = if toggle then FP_SPILL_SCRATCH_B else FP_SPILL_SCRATCH_A
                  in lbind (lmod (\<lambda>s. s\<lparr> fp_spill_pop_toggle := \<not> toggle \<rparr>)) (\<lambda>_.
                     lbind (ins (ldr_q_imm scratch SP off)) (\<lambda>_. lret scratch)))))))"

definition push_f32_slot :: "Vreg lowering" where "push_f32_slot = push_fp F32"
definition pop_f32_slot :: "Vreg lowering" where "pop_f32_slot = pop_fp F32"
definition push_f64_slot :: "Vreg lowering" where "push_f64_slot = push_fp F64"
definition pop_f64_slot :: "Vreg lowering" where "pop_f64_slot = pop_fp F64"
definition push_v128_slot :: "Vreg lowering" where "push_v128_slot = push_fp V128"
definition pop_v128_slot :: "Vreg lowering" where "pop_v128_slot = pop_fp V128"

text \<open>The type of the top operand, an error on an empty stack.\<close>

definition top_type :: "ValType lowering" where
  "top_type = lbind (lget stack) (\<lambda>st. case st of [] \<Rightarrow> lfail StackUnderflow | ty # _ \<Rightarrow> lret ty)"

section \<open>Epilogue and traps\<close>

definition emit_epilogue :: "unit lowering" where
  "emit_epilogue =
     lbind (lget (\<lambda>s. s)) (\<lambda>s.
       if \<not> has_frame s then lret ()
       else
         lseq
           (map (\<lambda>pair.
                  ins (ldp_offset_64 (Reg (LOCAL_I32_BASE_REG + of_nat (pair * 2)))
                        (if pair * 2 + 1 < saved_int_pairs s * 2 then Reg (LOCAL_I32_BASE_REG + of_nat (pair * 2 + 1)) else ZR)
                        SP (of_nat (16 + pair * 16))))
              [0..<saved_int_pairs s]
            @ [lwhen (has_memory s) (ins (ldr_imm MEM_BASE_REG SP (scast (frame_size_base s - 16)))),
               ins (ldp_post_indexed_64 X29 X30 SP (frame_size_base s))]))"

definition emit_trap_kind :: "u16 \<Rightarrow> unit lowering" where
  "emit_trap_kind knd = lseq [ins (movn X0 knd Lsl0), emit_epilogue, ins (ret_insn X30)]"

text \<open>Overwriting an emitted instruction; a position beyond the buffer panics.\<close>

definition patch_at :: "nat \<Rightarrow> u32 \<Rightarrow> unit lowering" where
  "patch_at at word s = (case patch_word at word (enc s) of None \<Rightarrow> Err Panic | Some e \<Rightarrow> Ok ((), s\<lparr> enc := e \<rparr>))"

text \<open>A branch offset: the difference of two positions as 32-bit integers.\<close>

definition offset_to :: "nat \<Rightarrow> nat \<Rightarrow> i32" where
  "offset_to target at = of_nat target - of_nat at"

definition or_out_of_range :: "(EncodeError, u32) result \<Rightarrow> u32 lowering" where
  "or_out_of_range r = (case r of Err _ \<Rightarrow> lfail BranchOutOfRange | Ok word \<Rightarrow> lret word)"

section \<open>Construction\<close>

definition blank :: Lowerer where
  "blank =
     \<lparr> enc = Encoder_new, stack = [], int_depth = 0, fp_depth = 0, locals = [], label_stack = [],
       call_targets = [], call_sigs = [], has_frame = False, has_memory = False, saved_int_pairs = 0,
       frame_size_base = 0, mem_size = 64 * 1024, table_base = None, indirect_sigs = [], data_regions = [],
       n_int_locals = 0, max_reg_int = MAX_PRIMARY_INT, spill_base = 0, has_spill = False,
       pending_spill_depth = None, spill_pop_toggle = False, fp_spill_base = 0, pending_fp_spill_depth = None,
       fp_spill_pop_toggle = False, int_sym_stack = [], global_types = [], global_mutable = [],
       module_fn_count = 0, module_fn_sigs = [], pending_relocations = [], active_loop_bounds = [],
       tainted_locals = [], elision_count = 0 \<rparr>"

text \<open>The registers of the locals and their zero initialisation.\<close>

definition alloc_int :: "(Reg \<Rightarrow> LocalLoc) \<Rightarrow> u8 \<Rightarrow> LocalLoc lowering" where
  "alloc_int loc int_idx =
     (if MAX_I32_LOCALS \<le> unat int_idx then lfail TooManyLocals
      else let r = Reg (LOCAL_I32_BASE_REG + int_idx) in lbind (ins (movz r 0 Lsl0)) (\<lambda>_. lret (loc r)))"

definition alloc_fp :: "(Vreg \<Rightarrow> LocalLoc) \<Rightarrow> (Vreg \<Rightarrow> emitter) \<Rightarrow> u8 \<Rightarrow> LocalLoc lowering" where
  "alloc_fp loc zero fp_idx =
     (if MAX_F32_LOCALS \<le> unat fp_idx then lfail TooManyLocals
      else let v = Vreg (LOCAL_F32_BASE_REG + fp_idx) in lbind (ins (zero v)) (\<lambda>_. lret (loc v)))"

fun allocate_locals :: "ValType list \<Rightarrow> u8 \<Rightarrow> u8 \<Rightarrow> LocalLoc list lowering" where
  "allocate_locals [] int_idx fp_idx = lret []"
| "allocate_locals (ty # tys) int_idx fp_idx =
     lbind (case ty of
              I32 \<Rightarrow> alloc_int LocI32 int_idx
            | I64 \<Rightarrow> alloc_int LocI64 int_idx
            | F32 \<Rightarrow> alloc_fp LocF32 (\<lambda>v. fmov_s_from_w v ZR) fp_idx
            | F64 \<Rightarrow> alloc_fp LocF64 (\<lambda>v. fmov_d_from_x v ZR) fp_idx
            | V128 \<Rightarrow> alloc_fp LocV128 (\<lambda>v. eor_16b_vec v v v) fp_idx) (\<lambda>loc.
     lbind (if is_int ty then allocate_locals tys (int_idx + 1) fp_idx else allocate_locals tys int_idx (fp_idx + 1)) (\<lambda>locs.
       lret (loc # locs)))"

definition place_locals :: "ValType list \<Rightarrow> unit lowering" where
  "place_locals types = lbind (allocate_locals types 0 0) (\<lambda>locs. lmod (\<lambda>s. s\<lparr> locals := locs \<rparr>))"

definition built :: "unit lowering \<Rightarrow> (LowerError fault, Lowerer) result" where
  "built m = map_sum id snd (m blank)"

definition new_with_typed_locals :: "ValType list \<Rightarrow> (LowerError fault, Lowerer) result" where
  "new_with_typed_locals types = built (place_locals types)"

definition new_with_locals :: "nat \<Rightarrow> (LowerError fault, Lowerer) result" where
  "new_with_locals n = new_with_typed_locals (replicate n I32)"

text \<open>The frame: a slot for the link registers, five pairs of callee-saved registers and the two spill areas.\<close>

definition save_pairs :: nat where "save_pairs = 5"

definition int_locals :: "ValType list \<Rightarrow> nat" where
  "int_locals types = length (filter is_int types)"

definition spill_base_off :: u32 where
  "spill_base_off = of_nat (16 + save_pairs * 16)"

definition fp_spill_base_off :: u32 where
  "fp_spill_base_off = spill_base_off + SPILL_AREA_BYTES"

definition x28_save_off :: u32 where
  "x28_save_off = fp_spill_base_off + FP_SPILL_AREA_BYTES"

definition emit_prologue :: "nat \<Rightarrow> i16 \<Rightarrow> unit lowering" where
  "emit_prologue n_int frame_size =
     lseq (ins (stp_pre_indexed_64 X29 X30 SP (- frame_size))
           # map (\<lambda>pair.
                    ins (stp_offset_64 (Reg (LOCAL_I32_BASE_REG + of_nat (pair * 2)))
                          (if pair * 2 + 1 < n_int then Reg (LOCAL_I32_BASE_REG + of_nat (pair * 2 + 1)) else ZR)
                          SP (of_nat (16 + pair * 16))))
                [0..<save_pairs])"

definition set_frame :: "nat \<Rightarrow> i16 \<Rightarrow> u64 list \<Rightarrow> bool \<Rightarrow> unit lowering" where
  "set_frame n_int frame_size targets memory =
     lmod (\<lambda>s. s\<lparr> call_targets := targets, has_frame := True, has_memory := memory, saved_int_pairs := save_pairs,
                   frame_size_base := frame_size, n_int_locals := n_int, max_reg_int := MAX_PRIMARY_INT + (9 - n_int),
                   spill_base := spill_base_off, has_spill := True, fp_spill_base := fp_spill_base_off \<rparr>)"

definition new_function_typed :: "ValType list \<Rightarrow> u64 list \<Rightarrow> (LowerError fault, Lowerer) result" where
  "new_function_typed local_types targets =
     (let n_int = int_locals local_types;
          frame_size = of_nat (16 + save_pairs * 16 + unat SPILL_AREA_BYTES + unat FP_SPILL_AREA_BYTES)
      in built (lseq [emit_prologue n_int frame_size, place_locals local_types, set_frame n_int frame_size targets False]))"

definition new_function :: "nat \<Rightarrow> u64 list \<Rightarrow> (LowerError fault, Lowerer) result" where
  "new_function n_locals targets = new_function_typed (replicate n_locals I32) targets"

definition new_function_with_memory_typed :: "ValType list \<Rightarrow> u64 list \<Rightarrow> u64 \<Rightarrow> (LowerError fault, Lowerer) result" where
  "new_function_with_memory_typed local_types targets mem_base =
     (let n_int = int_locals local_types; frame_size = of_nat (unat x28_save_off + 16)
      in built (lseq [emit_prologue n_int frame_size,
                      ins (str_imm MEM_BASE_REG SP x28_save_off),
                      load_u64_into_reg MEM_BASE_REG mem_base,
                      place_locals local_types,
                      set_frame n_int frame_size targets True]))"

definition new_function_with_memory :: "nat \<Rightarrow> u64 list \<Rightarrow> u64 \<Rightarrow> (LowerError fault, Lowerer) result" where
  "new_function_with_memory n_locals targets mem_base = new_function_with_memory_typed (replicate n_locals I32) targets mem_base"

definition new_function_with_table ::
  "nat \<Rightarrow> u64 list \<Rightarrow> u64 \<Rightarrow> u64 \<Rightarrow> FnSig list \<Rightarrow> (LowerError fault, Lowerer) result" where
  "new_function_with_table n_locals targets mem_base table sigs =
     map_sum id (\<lambda>s. s\<lparr> table_base := Some table, indirect_sigs := sigs \<rparr>) (new_function_with_memory n_locals targets mem_base)"

section \<open>Configuration\<close>

definition set_mem_size :: "u32 \<Rightarrow> Lowerer \<Rightarrow> Lowerer" where
  "set_mem_size sz s = s\<lparr> mem_size := sz \<rparr>"

definition set_globals :: "ValType list \<Rightarrow> bool list \<Rightarrow> unit lowering" where
  "set_globals types mut =
     (if length types \<noteq> length mut then lfail GlobalOutOfRange
      else if MAX_GLOBALS < length types then lfail TooManyGlobals
      else lmod (\<lambda>s. s\<lparr> global_types := types, global_mutable := mut \<rparr>))"

definition global_mem_offset :: "Lowerer \<Rightarrow> u32 \<Rightarrow> u32" where
  "global_mem_offset s idx = mem_size s - GLOBAL_AREA_SIZE + idx * GLOBAL_SLOT_BYTES"

definition set_module_fn_sigs :: "FnSig list \<Rightarrow> Lowerer \<Rightarrow> Lowerer" where
  "set_module_fn_sigs sigs s = s\<lparr> module_fn_count := length sigs, module_fn_sigs := sigs \<rparr>"

definition set_call_sigs :: "FnSig list \<Rightarrow> Lowerer \<Rightarrow> Lowerer" where
  "set_call_sigs sigs s = s\<lparr> call_sigs := sigs \<rparr>"

definition take_relocations :: "Lowerer \<Rightarrow> (u32 \<times> u32) list \<times> Lowerer" where
  "take_relocations s = (pending_relocations s, s\<lparr> pending_relocations := [] \<rparr>)"

text \<open>Copying the argument registers into the locals of the parameters.\<close>

fun rehydrate :: "ValType list \<Rightarrow> LocalLoc list \<Rightarrow> u8 \<Rightarrow> u8 \<Rightarrow> unit lowering" where
  "rehydrate (I32 # tys) (LocI32 dst # locs) int_arg fp_arg =
     (if 7 < int_arg then lfail CallArityUnsupported
      else lseq [ins (and_w dst (Reg int_arg) (Reg int_arg)), rehydrate tys locs (int_arg + 1) fp_arg])"
| "rehydrate (I64 # tys) (LocI64 dst # locs) int_arg fp_arg =
     (if 7 < int_arg then lfail CallArityUnsupported
      else lseq [ins (add_x dst ZR (Reg int_arg)), rehydrate tys locs (int_arg + 1) fp_arg])"
| "rehydrate (F32 # tys) (LocF32 dst # locs) int_arg fp_arg =
     (if 7 < fp_arg then lfail CallArityUnsupported
      else lseq [ins (fmov_s_s dst (Vreg fp_arg)), rehydrate tys locs int_arg (fp_arg + 1)])"
| "rehydrate (F64 # tys) (LocF64 dst # locs) int_arg fp_arg =
     (if 7 < fp_arg then lfail CallArityUnsupported
      else lseq [ins (fmov_d_d dst (Vreg fp_arg)), rehydrate tys locs int_arg (fp_arg + 1)])"
| "rehydrate [] locs int_arg fp_arg = lret ()"
| "rehydrate (ty # tys) locs int_arg fp_arg = lfail CallTypeUnsupported"

definition emit_param_rehydration :: "ValType list \<Rightarrow> unit lowering" where
  "emit_param_rehydration param_types =
     lbind (lget locals) (\<lambda>locs.
       if length locs < length param_types then lfail LocalOutOfRange else rehydrate param_types locs 0 0)"

end
