(* ===== verification/LowerOps.thy ===== *)
theory LowerOps
  imports Lowerer
begin

text \<open>
  The lowering of the operations without control flow: constants, arithmetic and locals
  (\<open>wasm_lower/scalar.rs\<close>), conversions (\<open>convert.rs\<close>), bounds checks, loads and stores
  (\<open>memory.rs\<close>), globals (\<open>globals.rs\<close>) and vectors (\<open>simd.rs\<close>).  \<open>unary\<close>, \<open>binary\<close> and \<open>ternary\<close>
  are the pop-push-emit sequences that the source repeats per operation.
\<close>

section \<open>Symbolic upper bounds\<close>

definition saturating_mul :: "'a::len word \<Rightarrow> 'a word \<Rightarrow> 'a word" where
  "saturating_mul a b = (if unat a * unat b < 2 ^ LENGTH('a) then a * b else - 1)"

lemma saturating_mul_code [code]: "saturating_mul a b = (if uint a * uint b < 2 ^ LENGTH('a) then a * b else - 1)"
  for a b :: "'a::len word"
  unfolding saturating_mul_def of_nat_less_iff[where 'a = int, symmetric]
  by (simp only: of_nat_mult of_nat_power of_nat_numeral uint_nat)

fun sym_add :: "SymAddr option \<Rightarrow> SymAddr option \<Rightarrow> SymAddr option" where
  "sym_add (Some (Const x)) (Some (Const y)) = Some (Const (saturating_add x y))"
| "sym_add (Some x) (Some y) = Some (Bounded (saturating_add (sym_max x) (sym_max y)))"
| "sym_add _ _ = None"

fun sym_mul :: "SymAddr option \<Rightarrow> SymAddr option \<Rightarrow> SymAddr option" where
  "sym_mul (Some (Const x)) (Some (Const y)) = Some (Const (saturating_mul x y))"
| "sym_mul (Some x) (Some y) = Some (Bounded (saturating_mul (sym_max x) (sym_max y)))"
| "sym_mul _ _ = None"

fun sym_shl :: "SymAddr option \<Rightarrow> SymAddr option \<Rightarrow> SymAddr option" where
  "sym_shl a (Some (Const s)) =
     (if s < 32
      then (case a of
              Some (Const x) \<Rightarrow> Some (Const (push_bit (unat s) x))
            | Some (Bounded m) \<Rightarrow> Some (Bounded (push_bit (unat s) m))
            | None \<Rightarrow> None)
      else None)"
| "sym_shl a _ = None"

fun sym_shr_u :: "SymAddr option \<Rightarrow> SymAddr option \<Rightarrow> SymAddr option" where
  "sym_shr_u a (Some (Const s)) =
     (if s < 32
      then (case a of
              Some (Const x) \<Rightarrow> Some (Const (drop_bit (unat s) x))
            | Some (Bounded m) \<Rightarrow> Some (Bounded (drop_bit (unat s) m))
            | None \<Rightarrow> None)
      else None)"
| "sym_shr_u a _ = None"

fun sym_and :: "SymAddr option \<Rightarrow> SymAddr option \<Rightarrow> SymAddr option" where
  "sym_and (Some (Const x)) (Some (Const y)) = Some (Const (x AND y))"
| "sym_and (Some x) (Some y) = Some (Bounded (min (sym_max x) (sym_max y)))"
| "sym_and (Some x) None = Some (Bounded (sym_max x))"
| "sym_and None (Some x) = Some (Bounded (sym_max x))"
| "sym_and None None = None"

fun sym_select :: "SymAddr option \<Rightarrow> SymAddr option \<Rightarrow> SymAddr option" where
  "sym_select (Some (Const x)) (Some (Const y)) =
     (if x = y then Some (Const x) else Some (Bounded (max (ucast x) (ucast y))))"
| "sym_select (Some x) (Some y) = Some (Bounded (max (sym_max x) (sym_max y)))"
| "sym_select _ _ = None"

text \<open>The bound a loop guard gives for a local, innermost loop first; a written local has none.\<close>

fun local_bound_below :: "LoopBound option list \<Rightarrow> u32 set list \<Rightarrow> u32 \<Rightarrow> nat \<Rightarrow> u64 option" where
  "local_bound_below bounds taints idx 0 = None"
| "local_bound_below bounds taints idx (Suc i) =
     (case bounds ! i of
        Some b \<Rightarrow>
          if counter_local b = idx
          then (if i < length taints \<and> idx \<in> taints ! i then None else Some (ucast (max_value b)))
          else local_bound_below bounds taints idx i
      | None \<Rightarrow> local_bound_below bounds taints idx i)"

definition local_bound :: "Lowerer \<Rightarrow> u32 \<Rightarrow> u64 option" where
  "local_bound s idx = local_bound_below (active_loop_bounds s) (tainted_locals s) idx (length (active_loop_bounds s))"

definition taint_local :: "u32 \<Rightarrow> unit lowering" where
  "taint_local idx = lmod (\<lambda>s. s\<lparr> tainted_locals := map (insert idx) (tainted_locals s) \<rparr>)"

section \<open>Scalars\<close>

definition unary :: "'a lowering \<Rightarrow> 'b lowering \<Rightarrow> ('b \<Rightarrow> 'a \<Rightarrow> emitter) \<Rightarrow> unit lowering" where
  "unary pop push em = lbind pop (\<lambda>src. lbind push (\<lambda>dst. ins (em dst src)))"

definition binary :: "'a lowering \<Rightarrow> 'b lowering \<Rightarrow> ('b \<Rightarrow> 'a \<Rightarrow> 'a \<Rightarrow> unit lowering) \<Rightarrow> unit lowering" where
  "binary pop push body = lbind pop (\<lambda>rhs. lbind pop (\<lambda>lhs. lbind push (\<lambda>dst. body dst lhs rhs)))"

definition ternary :: "'a lowering \<Rightarrow> 'b lowering \<Rightarrow> ('b \<Rightarrow> 'a \<Rightarrow> 'a \<Rightarrow> 'a \<Rightarrow> unit lowering) \<Rightarrow> unit lowering" where
  "ternary pop push body =
     lbind pop (\<lambda>z. lbind pop (\<lambda>y. lbind pop (\<lambda>x. lbind push (\<lambda>dst. body dst x y z))))"

definition lower_const :: "i32 \<Rightarrow> unit lowering" where
  "lower_const c =
     lbind push_i32_slot (\<lambda>r.
       lseq [load_u32_into_reg r c, lwhen (0 \<le> sint c) (set_top_sym (Some (Const c)))])"

definition lower_eqz :: "unit lowering" where
  "lower_eqz =
     lbind pop_i32_slot (\<lambda>src. lbind push_i32_slot (\<lambda>dst. lseq [ins (cmp_w src ZR), ins (cset dst Eq)]))"

fun binop_body :: "BinOp \<Rightarrow> Reg \<Rightarrow> Reg \<Rightarrow> Reg \<Rightarrow> unit lowering" where
  "binop_body Add dst lhs rhs = ins (add_x dst lhs rhs)"
| "binop_body Sub dst lhs rhs = ins (sub_x dst lhs rhs)"
| "binop_body Mul dst lhs rhs = ins (mul_x dst lhs rhs)"
| "binop_body DivS dst lhs rhs = ins (sdiv_x dst lhs rhs)"
| "binop_body DivU dst lhs rhs = ins (udiv_x dst lhs rhs)"
| "binop_body And dst lhs rhs = ins (and_w dst lhs rhs)"
| "binop_body Or dst lhs rhs = ins (orr_w dst lhs rhs)"
| "binop_body Xor dst lhs rhs = ins (eor_w dst lhs rhs)"
| "binop_body Shl dst lhs rhs = ins (lsl_w dst lhs rhs)"
| "binop_body ShrS dst lhs rhs = ins (asr_w dst lhs rhs)"
| "binop_body ShrU dst lhs rhs = ins (lsr_w dst lhs rhs)"
| "binop_body (Cmp cond) dst lhs rhs = lseq [ins (cmp_w lhs rhs), ins (cset dst cond)]"

fun binop_sym :: "BinOp \<Rightarrow> SymAddr option \<Rightarrow> SymAddr option \<Rightarrow> SymAddr option" where
  "binop_sym Add l r = sym_add l r"
| "binop_sym Mul l r = sym_mul l r"
| "binop_sym Shl l r = sym_shl l r"
| "binop_sym ShrU l r = sym_shr_u l r"
| "binop_sym And l r = sym_and l r"
| "binop_sym _ l r = None"

definition lower_binop :: "BinOp \<Rightarrow> unit lowering" where
  "lower_binop op =
     lbind (peek_sym_at 0) (\<lambda>rhs_sym. lbind (peek_sym_at 1) (\<lambda>lhs_sym.
       lseq [binary pop_i32_slot push_i32_slot (binop_body op), set_top_sym (binop_sym op lhs_sym rhs_sym)]))"

definition lower_i64_const :: "i64 \<Rightarrow> unit lowering" where
  "lower_i64_const c = lbind push_i64_slot (\<lambda>r. load_u64_into_reg r c)"

fun i64_emit :: "I64Op \<Rightarrow> Reg \<Rightarrow> Reg \<Rightarrow> Reg \<Rightarrow> emitter" where
  "i64_emit Add64 = add_x"
| "i64_emit Sub64 = sub_x"
| "i64_emit Mul64 = mul_x"
| "i64_emit DivS64 = sdiv_x"
| "i64_emit DivU64 = udiv_x"
| "i64_emit And64 = and_x"
| "i64_emit Or64 = orr_x"
| "i64_emit Xor64 = eor_x"
| "i64_emit Shl64 = lsl_x"
| "i64_emit ShrS64 = asr_x"
| "i64_emit ShrU64 = lsr_x"

definition lower_i64_binop :: "I64Op \<Rightarrow> unit lowering" where
  "lower_i64_binop op = binary pop_i64_slot push_i64_slot (\<lambda>dst lhs rhs. ins (i64_emit op dst lhs rhs))"

definition lower_i64_eqz :: "unit lowering" where
  "lower_i64_eqz =
     lbind pop_i64_slot (\<lambda>src. lbind push_i32_slot (\<lambda>dst. lseq [ins (cmp_x src ZR), ins (cset dst Eq)]))"

definition lower_i64_cmp :: "Condition \<Rightarrow> unit lowering" where
  "lower_i64_cmp cond = binary pop_i64_slot push_i32_slot (\<lambda>dst lhs rhs. lseq [ins (cmp_x lhs rhs), ins (cset dst cond)])"

definition lower_f32_const :: "u32 \<Rightarrow> unit lowering" where
  "lower_f32_const bits =
     lbind (load_u32_into_reg X16 bits) (\<lambda>_. lbind push_f32_slot (\<lambda>dst. ins (fmov_s_from_w dst X16)))"

fun f32_emit :: "FBinOp \<Rightarrow> Vreg \<Rightarrow> Vreg \<Rightarrow> Vreg \<Rightarrow> emitter" where
  "f32_emit FAdd = fadd_s"
| "f32_emit FSub = fsub_s"
| "f32_emit FMul = fmul_s"
| "f32_emit FDiv = fdiv_s"

definition lower_f32_binop :: "FBinOp \<Rightarrow> unit lowering" where
  "lower_f32_binop op = binary pop_f32_slot push_f32_slot (\<lambda>dst lhs rhs. ins (f32_emit op dst lhs rhs))"

definition lower_f32_cmp :: "Condition \<Rightarrow> unit lowering" where
  "lower_f32_cmp cond = binary pop_f32_slot push_i32_slot (\<lambda>dst lhs rhs. lseq [ins (fcmp_s lhs rhs), ins (cset dst cond)])"

definition lower_f64_const :: "u64 \<Rightarrow> unit lowering" where
  "lower_f64_const bits =
     lbind (load_u64_into_reg X16 bits) (\<lambda>_. lbind push_f64_slot (\<lambda>dst. ins (fmov_d_from_x dst X16)))"

fun f64_emit :: "FBinOp \<Rightarrow> Vreg \<Rightarrow> Vreg \<Rightarrow> Vreg \<Rightarrow> emitter" where
  "f64_emit FAdd = fadd_d"
| "f64_emit FSub = fsub_d"
| "f64_emit FMul = fmul_d"
| "f64_emit FDiv = fdiv_d"

definition lower_f64_binop :: "FBinOp \<Rightarrow> unit lowering" where
  "lower_f64_binop op = binary pop_f64_slot push_f64_slot (\<lambda>dst lhs rhs. ins (f64_emit op dst lhs rhs))"

definition lower_f64_cmp :: "Condition \<Rightarrow> unit lowering" where
  "lower_f64_cmp cond = binary pop_f64_slot push_i32_slot (\<lambda>dst lhs rhs. lseq [ins (fcmp_d lhs rhs), ins (cset dst cond)])"

section \<open>Locals and parametric operations\<close>

definition local_loc :: "u32 \<Rightarrow> LocalLoc lowering" where
  "local_loc idx =
     lbind (lget locals) (\<lambda>locs. if unat idx < length locs then lret (locs ! unat idx) else lfail LocalOutOfRange)"

definition lower_local_get :: "u32 \<Rightarrow> unit lowering" where
  "lower_local_get idx =
     lbind (lget (\<lambda>s. map_option Bounded (local_bound s idx))) (\<lambda>sy.
     lbind (local_loc idx) (\<lambda>loc.
       case loc of
         LocI32 l \<Rightarrow> lbind push_i32_slot (\<lambda>dst. lseq [ins (add_x dst ZR l), set_top_sym sy])
       | LocI64 l \<Rightarrow> lbind push_i64_slot (\<lambda>dst. ins (add_x dst ZR l))
       | LocF32 l \<Rightarrow> lbind push_f32_slot (\<lambda>dst. ins (fmov_s_s dst l))
       | LocF64 l \<Rightarrow> lbind push_f64_slot (\<lambda>dst. ins (fmov_d_d dst l))
       | LocV128 l \<Rightarrow> lbind push_v128_slot (\<lambda>dst. ins (orr_16b_vec dst l l))))"

definition expect_top :: "ValType \<Rightarrow> unit lowering" where
  "expect_top expected = lbind top_type (\<lambda>top. if top \<noteq> expected then lfail (TypeMismatch expected top) else lret ())"

definition int_top_reg :: "Reg lowering" where
  "int_top_reg = lget (\<lambda>s. Reg (of_nat (int_depth s - 1)))"

definition fp_top_reg :: "Vreg lowering" where
  "fp_top_reg = lget (\<lambda>s. Vreg (of_nat (fp_depth s - 1)))"

definition lower_local_tee :: "u32 \<Rightarrow> unit lowering" where
  "lower_local_tee idx =
     lbind (taint_local idx) (\<lambda>_.
     lbind (local_loc idx) (\<lambda>loc.
       case loc of
         LocI32 l \<Rightarrow> lbind (expect_top I32) (\<lambda>_. lbind int_top_reg (\<lambda>src. ins (add_x l ZR src)))
       | LocI64 l \<Rightarrow> lbind (expect_top I64) (\<lambda>_. lbind int_top_reg (\<lambda>src. ins (add_x l ZR src)))
       | LocF32 l \<Rightarrow> lbind (expect_top F32) (\<lambda>_. lbind fp_top_reg (\<lambda>src. ins (fmov_s_s l src)))
       | LocF64 l \<Rightarrow> lbind (expect_top F64) (\<lambda>_. lbind fp_top_reg (\<lambda>src. ins (fmov_d_d l src)))
       | LocV128 l \<Rightarrow> lbind (expect_top V128) (\<lambda>_. lbind fp_top_reg (\<lambda>src. ins (orr_16b_vec l src src)))))"

definition lower_local_set :: "u32 \<Rightarrow> unit lowering" where
  "lower_local_set idx =
     lbind (taint_local idx) (\<lambda>_.
     lbind (local_loc idx) (\<lambda>loc.
       case loc of
         LocI32 l \<Rightarrow> lbind pop_i32_slot (\<lambda>src. ins (add_x l ZR src))
       | LocI64 l \<Rightarrow> lbind pop_i64_slot (\<lambda>src. ins (add_x l ZR src))
       | LocF32 l \<Rightarrow> lbind pop_f32_slot (\<lambda>src. ins (fmov_s_s l src))
       | LocF64 l \<Rightarrow> lbind pop_f64_slot (\<lambda>src. ins (fmov_d_d l src))
       | LocV128 l \<Rightarrow> lbind pop_v128_slot (\<lambda>src. ins (orr_16b_vec l src src))))"

definition lower_drop :: "unit lowering" where
  "lower_drop =
     lbind top_type (\<lambda>ty.
       case ty of
         I32 \<Rightarrow> lbind pop_i32_slot (\<lambda>_. lret ())
       | I64 \<Rightarrow> lbind pop_i64_slot (\<lambda>_. lret ())
       | F32 \<Rightarrow> lbind pop_f32_slot (\<lambda>_. lret ())
       | F64 \<Rightarrow> lbind pop_f64_slot (\<lambda>_. lret ())
       | V128 \<Rightarrow> lbind pop_v128_slot (\<lambda>_. lret ()))"

definition select_int :: "Reg lowering \<Rightarrow> Reg lowering \<Rightarrow> unit lowering" where
  "select_int pop push =
     lbind peek_top_sym (\<lambda>val_false_sym. lbind pop (\<lambda>val_false.
     lbind peek_top_sym (\<lambda>val_true_sym. lbind pop (\<lambda>val_true.
     lbind push (\<lambda>dst.
       lseq [ins (csel dst val_true val_false Ne), set_top_sym (sym_select val_true_sym val_false_sym)])))))"

definition lower_select :: "unit lowering" where
  "lower_select =
     lbind pop_i32_slot (\<lambda>cond. lbind (ins (cmp_w cond ZR)) (\<lambda>_. lbind top_type (\<lambda>ty.
       case ty of
         I32 \<Rightarrow> select_int pop_i32_slot push_i32_slot
       | I64 \<Rightarrow> select_int pop_i64_slot push_i64_slot
       | F32 \<Rightarrow> binary pop_f32_slot push_f32_slot (\<lambda>dst t f. ins (fcsel_s dst t f Ne))
       | F64 \<Rightarrow> binary pop_f64_slot push_f64_slot (\<lambda>dst t f. ins (fcsel_d dst t f Ne))
       | V128 \<Rightarrow> lfail V128ReturnUnsupported)))"

section \<open>Conversions\<close>

definition lower_wrap_i64 :: "unit lowering" where
  "lower_wrap_i64 =
     lbind peek_top_sym (\<lambda>src_sym.
       lseq [unary pop_i64_slot push_i32_slot (\<lambda>dst src. and_w dst src src),
             set_top_sym (case src_sym of
                            Some (Const c) \<Rightarrow> Some (Const c)
                          | Some (Bounded m) \<Rightarrow> if m \<le> 0xFFFFFFFF then Some (Bounded m) else None
                          | None \<Rightarrow> None)])"

definition lower_extend_i32 :: "bool \<Rightarrow> unit lowering" where
  "lower_extend_i32 is_signed =
     lbind peek_top_sym (\<lambda>src_sym.
       lseq [unary pop_i32_slot push_i64_slot (\<lambda>dst src. if is_signed then sxtw dst src else and_w dst src src),
             set_top_sym (case src_sym of
                            Some (Const c) \<Rightarrow> Some (Const c)
                          | Some (Bounded m) \<Rightarrow> if \<not> is_signed \<or> m \<le> 0x7FFFFFFF then Some (Bounded m) else None
                          | None \<Rightarrow> None)])"

definition lower_i32_extend_narrow :: "bool \<Rightarrow> unit lowering" where
  "lower_i32_extend_narrow is_8 = unary pop_i32_slot push_i32_slot (if is_8 then sxtb_w else sxth_w)"

fun i64_extend_emit :: "ExtendWidth \<Rightarrow> Reg \<Rightarrow> Reg \<Rightarrow> emitter" where
  "i64_extend_emit B8 = sxtb_x"
| "i64_extend_emit B16 = sxth_x"
| "i64_extend_emit B32 = sxtw"

definition lower_i64_extend_narrow :: "ExtendWidth \<Rightarrow> unit lowering" where
  "lower_i64_extend_narrow width = unary pop_i64_slot push_i64_slot (i64_extend_emit width)"

definition lower_trunc_f32_i32 :: "bool \<Rightarrow> unit lowering" where
  "lower_trunc_f32_i32 is_signed = unary pop_f32_slot push_i32_slot (if is_signed then fcvtzs_w_s else fcvtzu_w_s)"

definition lower_trunc_f64_i32 :: "bool \<Rightarrow> unit lowering" where
  "lower_trunc_f64_i32 is_signed = unary pop_f64_slot push_i32_slot (if is_signed then fcvtzs_w_d else fcvtzu_w_d)"

definition lower_trunc_f32_i64 :: "bool \<Rightarrow> unit lowering" where
  "lower_trunc_f32_i64 is_signed = unary pop_f32_slot push_i64_slot (if is_signed then fcvtzs_x_s else fcvtzu_x_s)"

definition lower_trunc_f64_i64 :: "bool \<Rightarrow> unit lowering" where
  "lower_trunc_f64_i64 is_signed = unary pop_f64_slot push_i64_slot (if is_signed then fcvtzs_x_d else fcvtzu_x_d)"

definition lower_convert_i32_f32 :: "bool \<Rightarrow> unit lowering" where
  "lower_convert_i32_f32 is_signed = unary pop_i32_slot push_f32_slot (if is_signed then scvtf_s_w else ucvtf_s_w)"

definition lower_convert_i64_f32 :: "bool \<Rightarrow> unit lowering" where
  "lower_convert_i64_f32 is_signed = unary pop_i64_slot push_f32_slot (if is_signed then scvtf_s_x else ucvtf_s_x)"

definition lower_convert_i32_f64 :: "bool \<Rightarrow> unit lowering" where
  "lower_convert_i32_f64 is_signed = unary pop_i32_slot push_f64_slot (if is_signed then scvtf_d_w else ucvtf_d_w)"

definition lower_convert_i64_f64 :: "bool \<Rightarrow> unit lowering" where
  "lower_convert_i64_f64 is_signed = unary pop_i64_slot push_f64_slot (if is_signed then scvtf_d_x else ucvtf_d_x)"

definition lower_f32_demote_f64 :: "unit lowering" where
  "lower_f32_demote_f64 = unary pop_f64_slot push_f32_slot fcvt_s_d"

definition lower_f64_promote_f32 :: "unit lowering" where
  "lower_f64_promote_f32 = unary pop_f32_slot push_f64_slot fcvt_d_s"

definition lower_i32_reinterpret_f32 :: "unit lowering" where
  "lower_i32_reinterpret_f32 = unary pop_f32_slot push_i32_slot fmov_w_from_s"

definition lower_i64_reinterpret_f64 :: "unit lowering" where
  "lower_i64_reinterpret_f64 = unary pop_f64_slot push_i64_slot fmov_x_from_d"

definition lower_f32_reinterpret_i32 :: "unit lowering" where
  "lower_f32_reinterpret_i32 = unary pop_i32_slot push_f32_slot fmov_s_from_w"

definition lower_f64_reinterpret_i64 :: "unit lowering" where
  "lower_f64_reinterpret_i64 = unary pop_i64_slot push_f64_slot fmov_d_from_x"

section \<open>Memory\<close>

text \<open>The largest address an access may have, unless the access never fits.\<close>

definition max_valid :: "u32 \<Rightarrow> u32 \<Rightarrow> u32 \<Rightarrow> u32 option" where
  "max_valid msize access_size offset =
     (case checked_add offset access_size of
        None \<Rightarrow> None
      | Some access_end \<Rightarrow> if msize < access_end then None else Some (msize - access_end))"

definition emit_bounds_check :: "Reg \<Rightarrow> u32 \<Rightarrow> u32 \<Rightarrow> bool \<Rightarrow> unit lowering" where
  "emit_bounds_check addr_reg access_size offset is_store =
     (let trap_kind = if is_store then 2 else 1
      in lbind (lget mem_size) (\<lambda>msize.
           case max_valid msize access_size offset of
             None \<Rightarrow> emit_trap_kind trap_kind
           | Some limit \<Rightarrow>
               lbind (load_u32_into_reg X16 limit) (\<lambda>_.
               lbind (ins (cmp_w addr_reg X16)) (\<lambda>_.
               lbind here (\<lambda>b_cond_pos.
               lbind (ins (b_cond Ls 0)) (\<lambda>_.
               lbind (emit_trap_kind trap_kind) (\<lambda>_.
               lbind here (\<lambda>after_trap.
                 case encode_b_cond Ls (offset_to after_trap b_cond_pos) of
                   Err e \<Rightarrow> lfail (Encode e)
                 | Ok patched \<Rightarrow> patch_at b_cond_pos patched))))))))"

text \<open>Whether a symbolic bound proves the access in range.\<close>

definition provably_in_range :: "u32 \<Rightarrow> SymAddr option \<Rightarrow> u32 \<Rightarrow> u32 \<Rightarrow> bool" where
  "provably_in_range msize addr_sym access_size offset =
     (case addr_sym of
        None \<Rightarrow> False
      | Some sy \<Rightarrow> saturating_add (saturating_add (sym_max sy) (ucast offset)) (ucast access_size) \<le> ucast msize)"

definition maybe_bounds_check :: "Reg \<Rightarrow> u32 \<Rightarrow> u32 \<Rightarrow> bool \<Rightarrow> SymAddr option \<Rightarrow> unit lowering" where
  "maybe_bounds_check addr_reg access_size offset is_store addr_sym =
     lbind (lget mem_size) (\<lambda>msize.
       if provably_in_range msize addr_sym access_size offset
       then lmod (\<lambda>s. s\<lparr> elision_count := elision_count s + 1 \<rparr>)
       else emit_bounds_check addr_reg access_size offset is_store)"

definition full_addr_in_x16 :: "Reg \<Rightarrow> u32 \<Rightarrow> u32 lowering" where
  "full_addr_in_x16 addr_reg offset =
     lbind (ins (add_ext_uxtw X16 MEM_BASE_REG addr_reg)) (\<lambda>_.
       if 16380 < offset
       then lbind (load_u32_into_reg X17 offset) (\<lambda>_. lbind (ins (add_x X16 X16 X17)) (\<lambda>_. lret 0))
       else lret offset)"

definition with_memory :: "unit lowering \<Rightarrow> unit lowering" where
  "with_memory m = lbind (lget has_memory) (\<lambda>mem. if \<not> mem then lfail MemoryNotConfigured else m)"

definition load_with :: "u32 \<Rightarrow> 'r lowering \<Rightarrow> ('r \<Rightarrow> Reg \<Rightarrow> u32 \<Rightarrow> emitter) \<Rightarrow> u32 \<Rightarrow> unit lowering" where
  "load_with access_size push em offset =
     with_memory
       (lbind peek_top_sym (\<lambda>addr_sym. lbind pop_i32_slot (\<lambda>addr.
        lbind (maybe_bounds_check addr access_size offset False addr_sym) (\<lambda>_.
        lbind push (\<lambda>dst. lbind (full_addr_in_x16 addr offset) (\<lambda>eff. ins (em dst X16 eff)))))))"

definition store_with ::
  "u32 \<Rightarrow> SymAddr option lowering \<Rightarrow> 'r lowering \<Rightarrow> ('r \<Rightarrow> Reg \<Rightarrow> u32 \<Rightarrow> emitter) \<Rightarrow> u32 \<Rightarrow> unit lowering" where
  "store_with access_size peek pop em offset =
     with_memory
       (lbind peek (\<lambda>addr_sym. lbind pop (\<lambda>val. lbind pop_i32_slot (\<lambda>addr.
        lbind (maybe_bounds_check addr access_size offset True addr_sym) (\<lambda>_.
        lbind (full_addr_in_x16 addr offset) (\<lambda>eff. ins (em val X16 eff)))))))"

definition lower_load :: "u32 \<Rightarrow> unit lowering" where "lower_load = load_with 4 push_i32_slot ldr_w_imm"
definition lower_store :: "u32 \<Rightarrow> unit lowering" where "lower_store = store_with 4 (peek_sym_at 1) pop_i32_slot str_w_imm"
definition lower_f32_load :: "u32 \<Rightarrow> unit lowering" where "lower_f32_load = load_with 4 push_f32_slot ldr_s_imm"
definition lower_f32_store :: "u32 \<Rightarrow> unit lowering" where "lower_f32_store = store_with 4 peek_top_sym pop_f32_slot str_s_imm"
definition lower_f64_load :: "u32 \<Rightarrow> unit lowering" where "lower_f64_load = load_with 8 push_f64_slot ldr_d_imm"
definition lower_f64_store :: "u32 \<Rightarrow> unit lowering" where "lower_f64_store = store_with 8 peek_top_sym pop_f64_slot str_d_imm"
definition lower_i64_load :: "u32 \<Rightarrow> unit lowering" where "lower_i64_load = load_with 8 push_i64_slot ldr_imm"
definition lower_i64_store :: "u32 \<Rightarrow> unit lowering" where "lower_i64_store = store_with 8 (peek_sym_at 1) pop_i64_slot str_imm"

section \<open>Globals\<close>

definition global_entry :: "u32 \<Rightarrow> (ValType \<times> bool \<times> u32) lowering" where
  "global_entry idx =
     lbind (lget (\<lambda>s. s)) (\<lambda>s.
       if length (global_types s) \<le> unat idx then lfail GlobalOutOfRange
       else if length (global_mutable s) \<le> unat idx then lpanic
       else lret (global_types s ! unat idx, global_mutable s ! unat idx, global_mem_offset s idx))"

definition materialize_global_addr :: "u32 \<Rightarrow> unit lowering" where
  "materialize_global_addr off = lseq [load_u32_into_reg X16 off, ins (add_ext_uxtw X16 MEM_BASE_REG X16)]"

definition lower_global_get :: "u32 \<Rightarrow> unit lowering" where
  "lower_global_get idx =
     with_memory
       (lbind (global_entry idx) (\<lambda>(ty, _, off). lbind (materialize_global_addr off) (\<lambda>_.
          case ty of
            I32 \<Rightarrow> lbind push_i32_slot (\<lambda>dst. ins (ldr_w_imm dst X16 0))
          | I64 \<Rightarrow> lbind push_i64_slot (\<lambda>dst. ins (ldr_imm dst X16 0))
          | F32 \<Rightarrow> lbind push_f32_slot (\<lambda>dst. ins (ldr_s_imm dst X16 0))
          | F64 \<Rightarrow> lbind push_f64_slot (\<lambda>dst. ins (ldr_d_imm dst X16 0))
          | V128 \<Rightarrow> lfail V128LocalsUnsupported)))"

definition global_store :: "'r lowering \<Rightarrow> ('r \<Rightarrow> Reg \<Rightarrow> u32 \<Rightarrow> emitter) \<Rightarrow> u32 \<Rightarrow> unit lowering" where
  "global_store pop em off = lbind pop (\<lambda>src. lseq [materialize_global_addr off, ins (em src X16 0)])"

definition lower_global_set :: "u32 \<Rightarrow> unit lowering" where
  "lower_global_set idx =
     with_memory
       (lbind (global_entry idx) (\<lambda>(ty, mut, off).
          if \<not> mut then lfail GlobalNotMutable
          else
            (case ty of
               I32 \<Rightarrow> global_store pop_i32_slot str_w_imm off
             | I64 \<Rightarrow> global_store pop_i64_slot str_imm off
             | F32 \<Rightarrow> global_store pop_f32_slot str_s_imm off
             | F64 \<Rightarrow> global_store pop_f64_slot str_d_imm off
             | V128 \<Rightarrow> lfail V128LocalsUnsupported)))"

definition u64_from_le_bytes :: "u8 list \<Rightarrow> u64" where
  "u64_from_le_bytes b = ucast (from_le_bytes (take 4 b)) OR push_bit 32 (ucast (from_le_bytes (drop 4 b)))"

definition emit_global_init :: "nat \<Rightarrow> u8 list \<Rightarrow> unit lowering" where
  "emit_global_init idx init =
     lbind (lget (\<lambda>s. s)) (\<lambda>s.
       let off = global_mem_offset s (of_nat idx); ty = global_types s ! idx;
           store = (\<lambda>em. [load_u32_into_reg X16 off, ins (add_ext_uxtw X16 MEM_BASE_REG X16), ins (em X17 X16 0)])
       in if ty = I32 \<or> ty = F32 then
            (let val = from_le_bytes init; max_safe = saturating_sub (mem_size s) GLOBAL_AREA_SIZE
             in lseq (load_u32_into_reg X17 (if ty = I32 \<and> max_safe < val then max_safe else val) # store str_w_imm))
          else if ty = I64 \<or> ty = F64 then lseq (load_u64_into_reg X17 (u64_from_le_bytes init) # store str_imm)
          else lfail V128LocalsUnsupported)"

definition emit_global_inits :: "u8 list list \<Rightarrow> unit lowering" where
  "emit_global_inits init_values =
     lbind (lget global_types) (\<lambda>types.
       if length init_values \<noteq> length types then lfail GlobalOutOfRange
       else lseq (map (\<lambda>(idx, init). emit_global_init idx init) (enumerate 0 init_values)))"

section \<open>Vectors\<close>

definition lower_v128_const :: "u128 \<Rightarrow> unit lowering" where
  "lower_v128_const bits =
     lbind push_v128_slot (\<lambda>dst. lbind here (\<lambda>at.
       let padding = (16 - (at + 4) mod 16) mod 16
       in lbind (ins (b_insn (4 + of_nat padding + 16))) (\<lambda>_.
          lbind (lseq (replicate (padding div 4) (lmod (\<lambda>s. s\<lparr> enc := nop_insn (enc s) \<rparr>)))) (\<lambda>_.
          lbind here (\<lambda>data_start.
          lbind (lseq (map (\<lambda>k. lmod (\<lambda>s. s\<lparr> enc := emit_raw_word (ucast (drop_bit (32 * k) bits)) (enc s) \<rparr>)) [0..<4])) (\<lambda>_.
          lbind here (\<lambda>data_end.
          lbind (lmod (\<lambda>s. s\<lparr> data_regions := data_regions s @ [\<lparr> dr_start = data_start, dr_end = data_end \<rparr>] \<rparr>)) (\<lambda>_.
            ins (ldr_q_literal dst (- 16))))))))))"

definition lower_v128_load :: "u32 \<Rightarrow> unit lowering" where
  "lower_v128_load offset =
     with_memory
       (lbind peek_top_sym (\<lambda>addr_sym. lbind pop_i32_slot (\<lambda>addr.
        lbind (maybe_bounds_check addr 16 offset False addr_sym) (\<lambda>_.
        lbind push_v128_slot (\<lambda>dst.
          lseq [ins (add_ext_uxtw X16 MEM_BASE_REG addr), ins (ldr_q_imm dst X16 offset)])))))"

definition lower_v128_store :: "u32 \<Rightarrow> unit lowering" where
  "lower_v128_store offset =
     with_memory
       (lbind peek_top_sym (\<lambda>addr_sym. lbind pop_v128_slot (\<lambda>val. lbind pop_i32_slot (\<lambda>addr.
        lbind (maybe_bounds_check addr 16 offset True addr_sym) (\<lambda>_.
          lseq [ins (add_ext_uxtw X16 MEM_BASE_REG addr), ins (str_q_imm val X16 offset)])))))"

definition lower_v128_binop :: "(Vreg \<Rightarrow> Vreg \<Rightarrow> Vreg \<Rightarrow> emitter) \<Rightarrow> unit lowering" where
  "lower_v128_binop em = binary pop_v128_slot push_v128_slot (\<lambda>dst lhs rhs. ins (em dst lhs rhs))"

definition lower_f32x4_unary :: "(Vreg \<Rightarrow> Vreg \<Rightarrow> emitter) \<Rightarrow> unit lowering" where
  "lower_f32x4_unary em = unary pop_v128_slot push_v128_slot em"

definition lower_f32x4_add :: "unit lowering" where "lower_f32x4_add = lower_v128_binop fadd_4s"
definition lower_f32x4_mul :: "unit lowering" where "lower_f32x4_mul = lower_v128_binop fmul_4s"
definition lower_f32x4_sub :: "unit lowering" where "lower_f32x4_sub = lower_v128_binop fsub_4s"
definition lower_f32x4_div :: "unit lowering" where "lower_f32x4_div = lower_v128_binop fdiv_4s"
definition lower_f32x4_max :: "unit lowering" where "lower_f32x4_max = lower_v128_binop fmax_4s"
definition lower_f32x4_min :: "unit lowering" where "lower_f32x4_min = lower_v128_binop fmin_4s"
definition lower_f32x4_eq :: "unit lowering" where "lower_f32x4_eq = lower_v128_binop fcmeq_4s"
definition lower_f32x4_gt :: "unit lowering" where "lower_f32x4_gt = lower_v128_binop fcmgt_4s"
definition lower_i32x4_add :: "unit lowering" where "lower_i32x4_add = lower_v128_binop add_4s_vector"
definition lower_i32x4_sub :: "unit lowering" where "lower_i32x4_sub = lower_v128_binop sub_4s_vector"
definition lower_i32x4_mul :: "unit lowering" where "lower_i32x4_mul = lower_v128_binop mul_4s_vector"

definition lower_f32x4_extract_lane :: "u8 \<Rightarrow> unit lowering" where
  "lower_f32x4_extract_lane lane = unary pop_v128_slot push_f32_slot (\<lambda>dst src. dup_s_from_v_s_lane dst src lane)"

definition lower_f32x4_splat :: "unit lowering" where
  "lower_f32x4_splat = unary pop_f32_slot push_v128_slot dup_4s_from_vs_lane0"

definition lower_i32x4_splat :: "unit lowering" where
  "lower_i32x4_splat = unary pop_i32_slot push_v128_slot dup_4s_from_w"

definition dot_body :: "(Vreg \<Rightarrow> Vreg \<Rightarrow> Vreg \<Rightarrow> emitter) \<Rightarrow> Vreg \<Rightarrow> Vreg \<Rightarrow> Vreg \<Rightarrow> Vreg \<Rightarrow> unit lowering" where
  "dot_body em dst acc x y = lseq [lwhen (dst \<noteq> acc) (ins (orr_16b_vec dst acc acc)), ins (em dst x y)]"

definition lower_i32x4_dot_i8x16_signed :: "unit lowering" where
  "lower_i32x4_dot_i8x16_signed = ternary pop_v128_slot push_v128_slot (dot_body sdot_4s_16b)"

definition lower_i32x4_dot_i8x16_unsigned :: "unit lowering" where
  "lower_i32x4_dot_i8x16_unsigned = ternary pop_v128_slot push_v128_slot (dot_body udot_4s_16b)"

definition lower_i32x4_extract_lane :: "u8 \<Rightarrow> unit lowering" where
  "lower_i32x4_extract_lane lane = unary pop_v128_slot push_i32_slot (\<lambda>dst src. umov_w_from_vs_lane dst src lane)"

definition lower_f32x4_fma :: "unit lowering" where
  "lower_f32x4_fma = ternary pop_v128_slot push_v128_slot (\<lambda>dst acc x y. ins (fmla_4s dst x y))"

definition lower_f64x2_splat :: "unit lowering" where
  "lower_f64x2_splat =
     lbind pop_f64_slot (\<lambda>src. lbind push_v128_slot (\<lambda>dst. lseq [ins (fmov_x_from_d X17 src), ins (dup_2d_from_x dst X17)]))"

definition lower_f64x2_extract_lane :: "u8 \<Rightarrow> unit lowering" where
  "lower_f64x2_extract_lane lane = unary pop_v128_slot push_f64_slot (\<lambda>dst src. dup_d_from_v_d_lane dst src lane)"

definition lower_v128_bitselect :: "unit lowering" where
  "lower_v128_bitselect =
     ternary pop_v128_slot push_v128_slot (\<lambda>dst v1 v2 mask_reg.
       lseq [ins (bsl_16b mask_reg v1 v2),
             lwhen (vreg_no dst \<noteq> vreg_no mask_reg) (ins (orr_16b_vec dst mask_reg mask_reg))])"

definition lower_f32x4_horizontal_sum :: "unit lowering" where
  "lower_f32x4_horizontal_sum =
     lbind pop_v128_slot (\<lambda>src. lbind push_f32_slot (\<lambda>dst.
       lseq [ins (faddp_4s src src src), ins (faddp_s_from_2s_scalar dst src)]))"

end
