(* ===== verification/LowerCtl.thy ===== *)
theory LowerCtl
  imports LowerOps
begin

text \<open>
  The lowering of structured control flow with its forward-branch patches (\<open>wasm_lower/control.rs\<close>),
  of calls and returns (\<open>call.rs\<close>), the dispatch over the operations and the loop over a function
  body (\<open>mod.rs\<close>).
\<close>

section \<open>Blocks and branches\<close>

definition push_label :: "LabelKind \<Rightarrow> nat option \<Rightarrow> unit lowering" where
  "push_label knd start =
     lmod (\<lambda>s. s\<lparr> label_stack := \<lparr> kind = knd, loop_start = start, pending = [], entry_depth = length (stack s) \<rparr> # label_stack s \<rparr>)"

definition lower_block :: "unit lowering" where
  "lower_block = push_label BlockLabel None"

definition lower_loop :: "unit lowering" where
  "lower_loop = lbind here (\<lambda>at. push_label LoopLabel (Some at))"

text \<open>The position of a label in the list with the innermost label first.\<close>

definition label_index :: "u32 \<Rightarrow> nat lowering" where
  "label_index depth =
     lbind (lget label_stack) (\<lambda>ls. if length ls \<le> unat depth then lfail LabelOutOfRange else lret (unat depth))"

definition add_pending :: "nat \<Rightarrow> PendingPatch \<Rightarrow> unit lowering" where
  "add_pending idx p =
     lmod (\<lambda>s. s\<lparr> label_stack := (label_stack s)[idx := (label_stack s ! idx)\<lparr> pending := pending (label_stack s ! idx) @ [p] \<rparr>] \<rparr>)"

definition branch_to :: "nat \<Rightarrow> (i32 \<Rightarrow> emitter) \<Rightarrow> (nat \<Rightarrow> PendingPatch) \<Rightarrow> unit lowering" where
  "branch_to idx em patch =
     lbind (lget (\<lambda>s. label_stack s ! idx)) (\<lambda>l. lbind here (\<lambda>at.
       case kind l of
         LoopLabel \<Rightarrow> (case loop_start l of None \<Rightarrow> lpanic | Some target \<Rightarrow> ins (em (offset_to target at)))
       | _ \<Rightarrow> lseq [ins (em 0), add_pending idx (patch at)]))"

definition lower_br :: "u32 \<Rightarrow> unit lowering" where
  "lower_br depth = lbind (label_index depth) (\<lambda>idx. branch_to idx b_insn PatchB)"

definition lower_br_if :: "u32 \<Rightarrow> unit lowering" where
  "lower_br_if depth =
     lbind pop_i32_slot (\<lambda>cond. lbind (label_index depth) (\<lambda>idx. branch_to idx (cbnz_w cond) (\<lambda>at. PatchCbnzW at cond)))"

fun patch_pending :: "nat \<Rightarrow> PendingPatch \<Rightarrow> unit lowering" where
  "patch_pending target (PatchB at) = lbind (or_out_of_range (encode_b (offset_to target at))) (patch_at at)"
| "patch_pending target (PatchCbnzW at rt) = lbind (or_out_of_range (encode_cbnz_w rt (offset_to target at))) (patch_at at)"

definition rt_from_cbz_at :: "nat \<Rightarrow> Reg lowering" where
  "rt_from_cbz_at at =
     lbind (lget (\<lambda>s. buf (enc s))) (\<lambda>bytes.
       if length bytes < at + 4 then lpanic
       else lret (case Reg_new (ucast (word_at bytes at AND 0x1F)) of Some r \<Rightarrow> r | None \<Rightarrow> X0))"

definition patch_cbz :: "nat \<Rightarrow> nat \<Rightarrow> unit lowering" where
  "patch_cbz target at =
     lbind (rt_from_cbz_at at) (\<lambda>rt. lbind (or_out_of_range (encode_cbz_w rt (offset_to target at))) (patch_at at))"

definition lower_block_end :: "unit lowering" where
  "lower_block_end =
     lbind (lget label_stack) (\<lambda>ls.
       case ls of
         [] \<Rightarrow> lfail UnbalancedEnd
       | l # rest \<Rightarrow>
           lbind (lmod (\<lambda>s. s\<lparr> label_stack := rest \<rparr>)) (\<lambda>_. lbind here (\<lambda>target.
             case kind l of
               BlockLabel \<Rightarrow> lseq (map (patch_pending target) (pending l))
             | LoopLabel \<Rightarrow> lret ()
             | IfLabel cond_branch_pos \<Rightarrow> lseq (patch_cbz target cond_branch_pos # map (patch_pending target) (pending l))
             | IfElseLabel else_skip_pos \<Rightarrow>
                 lseq (patch_pending target (PatchB else_skip_pos) # map (patch_pending target) (pending l)))))"

definition lower_if :: "unit lowering" where
  "lower_if = lbind pop_i32_slot (\<lambda>cond. lbind here (\<lambda>at. lseq [ins (cbz_w cond 0), push_label (IfLabel at) None]))"

fun truncate_to :: "nat \<Rightarrow> ValType list \<Rightarrow> nat \<Rightarrow> nat \<Rightarrow> SymAddr option list \<Rightarrow>
    ValType list \<times> nat \<times> nat \<times> SymAddr option list" where
  "truncate_to target [] ints fps syms = ([], ints, fps, syms)"
| "truncate_to target (ty # st) ints fps syms =
     (if target < length (ty # st)
      then (if is_int ty then truncate_to target st (ints - 1) fps (tl syms) else truncate_to target st ints (fps - 1) syms)
      else (ty # st, ints, fps, syms))"

definition truncate_stack_to :: "nat \<Rightarrow> unit lowering" where
  "truncate_stack_to target =
     lmod (\<lambda>s. let (st, ints, fps, syms) = truncate_to target (stack s) (int_depth s) (fp_depth s) (int_sym_stack s)
                in s\<lparr> stack := st, int_depth := ints, fp_depth := fps, int_sym_stack := syms \<rparr>)"

definition lower_else :: "unit lowering" where
  "lower_else =
     lbind (lget label_stack) (\<lambda>ls.
       case ls of
         [] \<Rightarrow> lfail ElseWithoutIf
       | l # rest \<Rightarrow>
           (case kind l of
              IfLabel cond_branch_pos \<Rightarrow>
                lbind here (\<lambda>skip_pos. lbind (ins (b_insn 0)) (\<lambda>_. lbind here (\<lambda>else_target.
                  lseq [patch_cbz else_target cond_branch_pos,
                        lmod (\<lambda>s. s\<lparr> label_stack := l\<lparr> kind := IfElseLabel skip_pos \<rparr> # rest \<rparr>),
                        truncate_stack_to (entry_depth l)])))
            | _ \<Rightarrow> lfail ElseWithoutIf))"

section \<open>Calls and returns\<close>

fun pop_args :: "ValType list \<Rightarrow> Reg list lowering" where
  "pop_args [] = lret []"
| "pop_args (p # ps) =
     lbind (case p of I32 \<Rightarrow> pop_i32_slot | I64 \<Rightarrow> pop_i64_slot | _ \<Rightarrow> lpanic) (\<lambda>src.
     lbind (pop_args ps) (\<lambda>srcs. lret (src # srcs)))"

text \<open>The arguments, popped from the last to the first, through the scratch registers into the first registers.\<close>

definition marshal_args :: "Reg list \<Rightarrow> unit lowering" where
  "marshal_args arg_src =
     lseq (map (\<lambda>(i, src). ins (add_x (Reg (of_nat (9 + i))) ZR src)) (enumerate 0 arg_src)
           @ map (\<lambda>i. ins (add_x (Reg (of_nat i)) ZR (Reg (of_nat (9 + i))))) [0..<length arg_src])"

definition rehydrate_result :: "LowerError \<Rightarrow> ValType option \<Rightarrow> unit lowering" where
  "rehydrate_result unsupported result =
     (case result of
        None \<Rightarrow> lret ()
      | Some I32 \<Rightarrow> lbind push_i32_slot (\<lambda>dst. if reg_no dst \<noteq> 0 then ins (and_w dst X0 X0) else ins (and_w X0 X0 X0))
      | Some I64 \<Rightarrow> lbind push_i64_slot (\<lambda>dst. lwhen (reg_no dst \<noteq> 0) (ins (add_x dst ZR X0)))
      | Some _ \<Rightarrow> lfail unsupported)"

definition check_args :: "LowerError \<Rightarrow> LowerError \<Rightarrow> FnSig \<Rightarrow> unit lowering" where
  "check_args unsupported arity sig =
     (if \<not> list_all is_int (params sig) then lfail unsupported
      else if 8 < length (params sig) then lfail arity
      else lret ())"

definition lower_call_internal :: "u32 \<Rightarrow> unit lowering" where
  "lower_call_internal idx =
     lbind (lget module_fn_sigs) (\<lambda>sigs.
       if length sigs \<le> unat idx then lpanic
       else
         (let sig = sigs ! unat idx
          in lbind (check_args CallTypeUnsupported CallArityUnsupported sig) (\<lambda>_.
             lbind (pop_args (rev (params sig))) (\<lambda>srcs.
             lbind (marshal_args (rev srcs)) (\<lambda>_.
             lbind here (\<lambda>bl_site.
               lseq [ins (bl_insn 4),
                     lmod (\<lambda>s. s\<lparr> pending_relocations := pending_relocations s @ [(of_nat bl_site, idx)] \<rparr>),
                     rehydrate_result CallTypeUnsupported (sig_result sig)]))))))"

definition lower_call :: "u32 \<Rightarrow> unit lowering" where
  "lower_call idx =
     lbind (lget (\<lambda>s. s)) (\<lambda>s.
       if unat idx < module_fn_count s then lower_call_internal idx
       else if length (call_targets s) \<le> unat idx then lfail CallTargetMissing
       else
         (let target = call_targets s ! unat idx;
              sig = if unat idx < length (call_sigs s) then call_sigs s ! unat idx
                    else \<lparr> params = [], sig_result = Some I32 \<rparr>
          in lbind (check_args CallTypeUnsupported CallArityUnsupported sig) (\<lambda>_.
             lbind (pop_args (rev (params sig))) (\<lambda>srcs.
               lseq [load_u64_into_reg X16 target, marshal_args (rev srcs), ins (blr_insn X16),
                     rehydrate_result CallTypeUnsupported (sig_result sig)]))))"

definition lower_call_indirect :: "u32 \<Rightarrow> unit lowering" where
  "lower_call_indirect type_id =
     lbind (lget (\<lambda>s. s)) (\<lambda>s.
       case table_base s of
         None \<Rightarrow> lfail TableNotConfigured
       | Some table \<Rightarrow>
           if length (indirect_sigs s) \<le> unat type_id then lfail IndirectTypeMissing
           else
             (let sig = indirect_sigs s ! unat type_id
              in lbind (check_args IndirectTypeUnsupported IndirectArityUnsupported sig) (\<lambda>_.
                 lbind pop_i32_slot (\<lambda>idx_reg.
                 lbind (lseq [load_u64_into_reg X17 table, ins (add_ext_uxtw_shifted X17 X17 idx_reg 4), ins (ldr_imm X16 X17 0)]) (\<lambda>_.
                 lbind (pop_args (rev (params sig))) (\<lambda>srcs.
                   lseq [marshal_args (rev srcs), ins (blr_insn X16),
                         rehydrate_result IndirectTypeUnsupported (sig_result sig)]))))))"

definition lower_function_end :: "unit lowering" where
  "lower_function_end =
     lbind flush_pending_spill (\<lambda>_. lbind flush_pending_fp_spill (\<lambda>_.
     lbind (lget stack) (\<lambda>st.
     lbind (case st of
              [] \<Rightarrow> lret ()
            | [I32] \<Rightarrow> lbind pop_i32_slot (\<lambda>_. lret ())
            | [I64] \<Rightarrow> lbind pop_i64_slot (\<lambda>_. lret ())
            | [F32] \<Rightarrow> lbind pop_f32_slot (\<lambda>v. ins (fmov_w_from_s X0 v))
            | [F64] \<Rightarrow> lbind pop_f64_slot (\<lambda>v. ins (fmov_x_from_d X0 v))
            | [V128] \<Rightarrow> lfail V128ReturnUnsupported
            | _ \<Rightarrow> lfail StackNotSingleton) (\<lambda>_.
       lseq [emit_epilogue, ins (ret_insn X30)]))))"

definition lower_explicit_return :: "unit lowering" where
  "lower_explicit_return =
     lbind (lget (\<lambda>s. s)) (\<lambda>s.
     lbind (case stack s of
              [] \<Rightarrow> lret ()
            | V128 # _ \<Rightarrow> lfail V128ReturnUnsupported
            | F32 # _ \<Rightarrow> (case Vreg_new (of_nat (fp_depth s - 1)) of None \<Rightarrow> lpanic | Some v \<Rightarrow> ins (fmov_w_from_s X0 v))
            | F64 # _ \<Rightarrow> (case Vreg_new (of_nat (fp_depth s - 1)) of None \<Rightarrow> lpanic | Some v \<Rightarrow> ins (fmov_x_from_d X0 v))
            | _ # _ \<Rightarrow>
                (case Reg_new (of_nat (int_depth s - 1)) of
                   None \<Rightarrow> lpanic
                 | Some r \<Rightarrow> lwhen (reg_no r \<noteq> 0) (ins (add_x X0 ZR r)))) (\<lambda>_.
       ins (ret_insn X30)))"

section \<open>Dispatch\<close>

fun lower_i32 :: "i32_instr \<Rightarrow> unit lowering" where
  "lower_i32 I32Add = lower_binop Add"
| "lower_i32 I32Sub = lower_binop Sub"
| "lower_i32 I32Mul = lower_binop Mul"
| "lower_i32 I32DivS = lower_binop DivS"
| "lower_i32 I32DivU = lower_binop DivU"
| "lower_i32 I32Eq = lower_binop (Cmp Eq)"
| "lower_i32 I32Ne = lower_binop (Cmp Ne)"
| "lower_i32 I32LtS = lower_binop (Cmp Lt)"
| "lower_i32 I32GtS = lower_binop (Cmp Gt)"
| "lower_i32 I32LeS = lower_binop (Cmp Le)"
| "lower_i32 I32GeS = lower_binop (Cmp Ge)"
| "lower_i32 I32LtU = lower_binop (Cmp Lo)"
| "lower_i32 I32GtU = lower_binop (Cmp Hi)"
| "lower_i32 I32LeU = lower_binop (Cmp Ls)"
| "lower_i32 I32GeU = lower_binop (Cmp Hs)"
| "lower_i32 I32Eqz = lower_eqz"
| "lower_i32 I32And = lower_binop And"
| "lower_i32 I32Or = lower_binop Or"
| "lower_i32 I32Xor = lower_binop Xor"
| "lower_i32 I32Shl = lower_binop Shl"
| "lower_i32 I32ShrS = lower_binop ShrS"
| "lower_i32 I32ShrU = lower_binop ShrU"

fun lower_i64 :: "i64_instr \<Rightarrow> unit lowering" where
  "lower_i64 I64Add = lower_i64_binop Add64"
| "lower_i64 I64Sub = lower_i64_binop Sub64"
| "lower_i64 I64Mul = lower_i64_binop Mul64"
| "lower_i64 I64Eqz = lower_i64_eqz"
| "lower_i64 I64Eq = lower_i64_cmp Eq"
| "lower_i64 I64Ne = lower_i64_cmp Ne"
| "lower_i64 I64LtS = lower_i64_cmp Lt"
| "lower_i64 I64GtS = lower_i64_cmp Gt"
| "lower_i64 I64LtU = lower_i64_cmp Lo"
| "lower_i64 I64GtU = lower_i64_cmp Hi"
| "lower_i64 I64LeS = lower_i64_cmp Le"
| "lower_i64 I64LeU = lower_i64_cmp Ls"
| "lower_i64 I64GeS = lower_i64_cmp Ge"
| "lower_i64 I64GeU = lower_i64_cmp Hs"
| "lower_i64 I64DivS = lower_i64_binop DivS64"
| "lower_i64 I64DivU = lower_i64_binop DivU64"
| "lower_i64 I64And = lower_i64_binop And64"
| "lower_i64 I64Or = lower_i64_binop Or64"
| "lower_i64 I64Xor = lower_i64_binop Xor64"
| "lower_i64 I64Shl = lower_i64_binop Shl64"
| "lower_i64 I64ShrS = lower_i64_binop ShrS64"
| "lower_i64 I64ShrU = lower_i64_binop ShrU64"

fun lower_float :: "float_instr \<Rightarrow> unit lowering" where
  "lower_float F32Add = lower_f32_binop FAdd"
| "lower_float F32Sub = lower_f32_binop FSub"
| "lower_float F32Mul = lower_f32_binop FMul"
| "lower_float F32Div = lower_f32_binop FDiv"
| "lower_float F32Eq = lower_f32_cmp Eq"
| "lower_float F32Ne = lower_f32_cmp Ne"
| "lower_float F32Lt = lower_f32_cmp Lt"
| "lower_float F32Gt = lower_f32_cmp Gt"
| "lower_float F32Le = lower_f32_cmp Le"
| "lower_float F32Ge = lower_f32_cmp Ge"
| "lower_float F64Add = lower_f64_binop FAdd"
| "lower_float F64Sub = lower_f64_binop FSub"
| "lower_float F64Mul = lower_f64_binop FMul"
| "lower_float F64Div = lower_f64_binop FDiv"
| "lower_float F64Eq = lower_f64_cmp Eq"
| "lower_float F64Ne = lower_f64_cmp Ne"
| "lower_float F64Lt = lower_f64_cmp Lt"
| "lower_float F64Gt = lower_f64_cmp Gt"
| "lower_float F64Le = lower_f64_cmp Le"
| "lower_float F64Ge = lower_f64_cmp Ge"

fun lower_conv :: "conv_instr \<Rightarrow> unit lowering" where
  "lower_conv I32WrapI64 = lower_wrap_i64"
| "lower_conv I64ExtendI32S = lower_extend_i32 True"
| "lower_conv I64ExtendI32U = lower_extend_i32 False"
| "lower_conv I32Extend8S = lower_i32_extend_narrow True"
| "lower_conv I32Extend16S = lower_i32_extend_narrow False"
| "lower_conv I64Extend8S = lower_i64_extend_narrow B8"
| "lower_conv I64Extend16S = lower_i64_extend_narrow B16"
| "lower_conv I64Extend32S = lower_i64_extend_narrow B32"
| "lower_conv I32TruncF32S = lower_trunc_f32_i32 True"
| "lower_conv I32TruncF32U = lower_trunc_f32_i32 False"
| "lower_conv I32TruncF64S = lower_trunc_f64_i32 True"
| "lower_conv I32TruncF64U = lower_trunc_f64_i32 False"
| "lower_conv I64TruncF32S = lower_trunc_f32_i64 True"
| "lower_conv I64TruncF32U = lower_trunc_f32_i64 False"
| "lower_conv I64TruncF64S = lower_trunc_f64_i64 True"
| "lower_conv I64TruncF64U = lower_trunc_f64_i64 False"
| "lower_conv F32ConvertI32S = lower_convert_i32_f32 True"
| "lower_conv F32ConvertI32U = lower_convert_i32_f32 False"
| "lower_conv F32ConvertI64S = lower_convert_i64_f32 True"
| "lower_conv F32ConvertI64U = lower_convert_i64_f32 False"
| "lower_conv F64ConvertI32S = lower_convert_i32_f64 True"
| "lower_conv F64ConvertI32U = lower_convert_i32_f64 False"
| "lower_conv F64ConvertI64S = lower_convert_i64_f64 True"
| "lower_conv F64ConvertI64U = lower_convert_i64_f64 False"
| "lower_conv F32DemoteF64 = lower_f32_demote_f64"
| "lower_conv F64PromoteF32 = lower_f64_promote_f32"
| "lower_conv I32ReinterpretF32 = lower_i32_reinterpret_f32"
| "lower_conv I64ReinterpretF64 = lower_i64_reinterpret_f64"
| "lower_conv F32ReinterpretI32 = lower_f32_reinterpret_i32"
| "lower_conv F64ReinterpretI64 = lower_f64_reinterpret_i64"

fun lower_simd :: "simd_instr \<Rightarrow> unit lowering" where
  "lower_simd F32x4Add = lower_f32x4_add"
| "lower_simd F32x4Mul = lower_f32x4_mul"
| "lower_simd (F32x4ExtractLane lane) = lower_f32x4_extract_lane lane"
| "lower_simd F32x4Splat = lower_f32x4_splat"
| "lower_simd I32x4Splat = lower_i32x4_splat"
| "lower_simd I32x4Add = lower_i32x4_add"
| "lower_simd I32x4Sub = lower_i32x4_sub"
| "lower_simd I32x4Mul = lower_i32x4_mul"
| "lower_simd I32x4DotI8x16Signed = lower_i32x4_dot_i8x16_signed"
| "lower_simd I32x4DotI8x16Unsigned = lower_i32x4_dot_i8x16_unsigned"
| "lower_simd (I32x4ExtractLane lane) = lower_i32x4_extract_lane lane"
| "lower_simd F64x2Add = lower_v128_binop fadd_2d"
| "lower_simd F64x2Sub = lower_v128_binop fsub_2d"
| "lower_simd F64x2Mul = lower_v128_binop fmul_2d"
| "lower_simd F64x2Div = lower_v128_binop fdiv_2d"
| "lower_simd F64x2Min = lower_v128_binop fmin_2d"
| "lower_simd F64x2Max = lower_v128_binop fmax_2d"
| "lower_simd F64x2Sqrt = lower_f32x4_unary fsqrt_2d"
| "lower_simd F64x2Abs = lower_f32x4_unary fabs_2d"
| "lower_simd F64x2Neg = lower_f32x4_unary fneg_2d"
| "lower_simd F64x2Splat = lower_f64x2_splat"
| "lower_simd (F64x2ExtractLane lane) = lower_f64x2_extract_lane lane"
| "lower_simd I8x16Add = lower_v128_binop add_16b_vector"
| "lower_simd I8x16Sub = lower_v128_binop sub_16b_vector"
| "lower_simd I8x16Splat = unary pop_i32_slot push_v128_slot dup_16b_from_w"
| "lower_simd (I8x16ExtractLaneU lane) = unary pop_v128_slot push_i32_slot (\<lambda>d v. umov_w_from_vb_lane d v lane)"
| "lower_simd I16x8Add = lower_v128_binop add_8h_vector"
| "lower_simd I16x8Sub = lower_v128_binop sub_8h_vector"
| "lower_simd I16x8Mul = lower_v128_binop mul_8h_vector"
| "lower_simd I16x8Splat = unary pop_i32_slot push_v128_slot dup_8h_from_w"
| "lower_simd (I16x8ExtractLaneU lane) = unary pop_v128_slot push_i32_slot (\<lambda>d v. umov_w_from_vh_lane d v lane)"
| "lower_simd F32x4Sub = lower_f32x4_sub"
| "lower_simd F32x4Div = lower_f32x4_div"
| "lower_simd F32x4Fma = lower_f32x4_fma"
| "lower_simd F32x4HorizontalSum = lower_f32x4_horizontal_sum"
| "lower_simd F32x4Max = lower_f32x4_max"
| "lower_simd F32x4Min = lower_f32x4_min"
| "lower_simd F32x4Abs = lower_f32x4_unary fabs_4s"
| "lower_simd F32x4Neg = lower_f32x4_unary fneg_4s"
| "lower_simd F32x4Sqrt = lower_f32x4_unary fsqrt_4s"
| "lower_simd F32x4Eq = lower_f32x4_eq"
| "lower_simd F32x4Gt = lower_f32x4_gt"
| "lower_simd V128Bitselect = lower_v128_bitselect"

fun lower_op :: "WasmOp \<Rightarrow> unit lowering" where
  "lower_op (I32I i) = lower_i32 i"
| "lower_op (I64I i) = lower_i64 i"
| "lower_op (FloatI i) = lower_float i"
| "lower_op (ConvI i) = lower_conv i"
| "lower_op (SimdI i) = lower_simd i"
| "lower_op (I32Const c) = lower_const c"
| "lower_op (I64Const c) = lower_i64_const c"
| "lower_op (F32Const f) = lower_f32_const f"
| "lower_op (F64Const f) = lower_f64_const f"
| "lower_op (V128Const bits) = lower_v128_const bits"
| "lower_op (I32Load off) = lower_load off"
| "lower_op (I32Store off) = lower_store off"
| "lower_op (I64Load off) = lower_i64_load off"
| "lower_op (I64Store off) = lower_i64_store off"
| "lower_op (F32Load off) = lower_f32_load off"
| "lower_op (F32Store off) = lower_f32_store off"
| "lower_op (F64Load off) = lower_f64_load off"
| "lower_op (F64Store off) = lower_f64_store off"
| "lower_op (V128Load off) = lower_v128_load off"
| "lower_op (V128Store off) = lower_v128_store off"
| "lower_op Drop = lower_drop"
| "lower_op Select = lower_select"
| "lower_op (LocalGet i) = lower_local_get i"
| "lower_op (LocalSet i) = lower_local_set i"
| "lower_op (LocalTee i) = lower_local_tee i"
| "lower_op (GlobalGet i) = lower_global_get i"
| "lower_op (GlobalSet i) = lower_global_set i"
| "lower_op Block = lower_block"
| "lower_op Loop = lower_loop"
| "lower_op (Br n) = lower_br n"
| "lower_op (BrIf n) = lower_br_if n"
| "lower_op IfOp = lower_if"
| "lower_op ElseOp = lower_else"
| "lower_op (Call n) = lower_call n"
| "lower_op (CallIndirect t) = lower_call_indirect t"
| "lower_op Return = lower_explicit_return"
| "lower_op End = lbind (lget label_stack) (\<lambda>ls. if ls = [] then lower_function_end else lower_block_end)"

section \<open>Function bodies\<close>

text \<open>Loops that start with the guard \<open>local.get; i32.const; i32.ge_s or gt_s; br_if\<close>.\<close>

definition loop_guard :: "WasmOp list \<Rightarrow> nat \<Rightarrow> LoopBound option" where
  "loop_guard ops i =
     (if ops ! i \<noteq> Loop \<or> length ops \<le> i + 4 then None
      else
        (case (ops ! (i + 1), ops ! (i + 2), ops ! (i + 4)) of
           (LocalGet l, I32Const m, BrIf _) \<Rightarrow>
             if (ops ! (i + 3) = I32I I32GeS \<or> ops ! (i + 3) = I32I I32GtS) \<and> 0 \<le> sint m
             then Some \<lparr> counter_local = l, max_value = m \<rparr> else None
         | _ \<Rightarrow> None))"

definition scan_loop_bounds :: "WasmOp list \<Rightarrow> nat \<Rightarrow> LoopBound option" where
  "scan_loop_bounds ops i = (if i < length ops then loop_guard ops i else None)"

text \<open>The positions of the \<open>end\<close> operations that close a loop, with the kinds of the open labels.\<close>

fun loop_ends_from :: "nat \<Rightarrow> bool list \<Rightarrow> WasmOp list \<Rightarrow> nat list" where
  "loop_ends_from i open_loops [] = []"
| "loop_ends_from i open_loops (op # ops) =
     (if op = Block \<or> op = IfOp then loop_ends_from (i + 1) (False # open_loops) ops
      else if op = Loop then loop_ends_from (i + 1) (True # open_loops) ops
      else if op = End then
        (case open_loops of
           [] \<Rightarrow> loop_ends_from (i + 1) [] ops
         | was_loop # rest \<Rightarrow> (if was_loop then [i] else []) @ loop_ends_from (i + 1) rest ops)
      else loop_ends_from (i + 1) open_loops ops)"

definition compute_loop_end_indices :: "WasmOp list \<Rightarrow> nat list" where
  "compute_loop_end_indices ops = loop_ends_from 0 [] ops"

definition enter_loop :: "LoopBound option \<Rightarrow> unit lowering" where
  "enter_loop bound =
     lmod (\<lambda>s. s\<lparr> active_loop_bounds := active_loop_bounds s @ [bound], tainted_locals := tainted_locals s @ [{}] \<rparr>)"

definition leave_loop :: "unit lowering" where
  "leave_loop =
     lmod (\<lambda>s. s\<lparr> active_loop_bounds := butlast (active_loop_bounds s), tainted_locals := butlast (tainted_locals s) \<rparr>)"

fun lower_from :: "(nat \<Rightarrow> LoopBound option) \<Rightarrow> nat list \<Rightarrow> nat \<Rightarrow> WasmOp list \<Rightarrow> unit lowering" where
  "lower_from bounds ends i [] = lret ()"
| "lower_from bounds ends i (op # ops) =
     lseq [lwhen (op = Loop) (enter_loop (bounds i)), lower_op op, lwhen (i \<in> set ends) leave_loop,
           lower_from bounds ends (i + 1) ops]"

definition lower_all :: "WasmOp list \<Rightarrow> unit lowering" where
  "lower_all ops = lower_from (scan_loop_bounds ops) (compute_loop_end_indices ops) 0 ops"

definition finish :: "Lowerer \<Rightarrow> u8 list" where
  "finish s = fst (optimize (buf (enc s)) (data_regions s))"

definition finish_raw :: "Lowerer \<Rightarrow> u8 list" where
  "finish_raw s = buf (enc s)"

end
