(* ===== verification/MemProps.thy ===== *)
theory MemProps
  imports LowerCtl
begin

text \<open>
  Memory safety of the generated code: the run-time bounds check is exact, an elided check is sound for
  an address within its symbolic bound, the symbolic arithmetic keeps its bounds as long as it does not
  saturate or wrap, and two programs for which the compiler elides a check that would fail.
\<close>

section \<open>Bounds checks\<close>

text \<open>What a symbolic value says about the 32-bit operand it describes.\<close>

fun covers :: "SymAddr option \<Rightarrow> u32 \<Rightarrow> bool" where
  "covers None v = True"
| "covers (Some (Const c)) v = (v = c)"
| "covers (Some (Bounded m)) v = (unat v \<le> unat m)"

lemma unat_u64: "unat (ucast c :: u64) = unat c" for c :: u32
proof -
  have "unat c < 2 ^ 64" using unat_lt2p[of c] by simp
  then show ?thesis by (simp add: unsigned_ucast_eq take_bit_nat_eq_self)
qed

lemma unat_sym_max: "unat (sym_max (Const c)) = unat c" "unat (sym_max (Bounded m)) = unat m"
  by (simp_all add: unat_u64)

lemma covers_max: "covers (Some sy) v \<Longrightarrow> unat v \<le> unat (sym_max sy)"
  by (cases sy) (auto simp: unat_u64)

lemma unat_saturating_mul: "unat (saturating_mul a b) = min (unat a * unat b) (2 ^ LENGTH('a) - 1)" for a b :: "'a::len word"
proof (cases "unat a * unat b < 2 ^ LENGTH('a)")
  case False
  then have "unat (saturating_mul a b) = 2 ^ LENGTH('a) - 1"
    by (simp add: saturating_mul_def unsigned_minus_1_eq_mask mask_eq_exp_minus_1)
  then show ?thesis using False by linarith
qed (simp add: saturating_mul_def unat_word_ariths)

lemma max_valid_exact:
  "(case max_valid msize access_size offset of None \<Rightarrow> False | Some limit \<Rightarrow> addr \<le> limit) =
     (unat addr + unat offset + unat access_size \<le> unat msize)"
proof (cases "checked_add offset access_size")
  case None
  then have "unat msize < unat offset + unat access_size"
    using unat_lt2p[of msize] by (simp add: checked_add_def split: if_splits)
  with None show ?thesis by (simp add: max_valid_def)
next
  case (Some e)
  have "unat (msize - e) = unat msize - unat e" if "e \<le> msize" using that by (simp add: unat_sub word_le_nat_alt)
  with Some checked_add_SomeD[OF Some] show ?thesis by (auto simp: max_valid_def word_le_nat_alt word_less_nat_alt)
qed



section \<open>Symbolic arithmetic\<close>

text \<open>The operations the compiler tracks, on 32-bit integers as WebAssembly defines them.\<close>

fun i32_value :: "BinOp \<Rightarrow> u32 \<Rightarrow> u32 \<Rightarrow> u32 option" where
  "i32_value Add x y = Some (x + y)"
| "i32_value Mul x y = Some (x * y)"
| "i32_value And x y = Some (x AND y)"
| "i32_value Shl x y = Some (push_bit (unat y mod 32) x)"
| "i32_value ShrU x y = Some (drop_bit (unat y mod 32) x)"
| "i32_value _ x y = None"

text \<open>The constants do not saturate and a shifted bound stays below \<open>2 ^ 64\<close>.\<close>

fun no_wrap :: "BinOp \<Rightarrow> SymAddr option \<Rightarrow> SymAddr option \<Rightarrow> bool" where
  "no_wrap Add (Some (Const c)) (Some (Const d)) = (unat c + unat d < 2 ^ 32)"
| "no_wrap Mul (Some (Const c)) (Some (Const d)) = (unat c * unat d < 2 ^ 32)"
| "no_wrap Shl (Some (Bounded m)) (Some (Const s)) = (unat m * 2 ^ unat s < 2 ^ 64)"
| "no_wrap _ _ _ = True"

lemma unat_add_le: "unat (x + y) \<le> unat x + unat y" for x y :: "'a::len word"
  by (simp add: unat_word_ariths)

lemma unat_mult_le: "unat (x * y) \<le> unat x * unat y" for x y :: "'a::len word"
  by (simp add: unat_word_ariths)

lemma unat_push_bit_le: "unat (push_bit n x) \<le> unat x * 2 ^ n" for x :: "'a::len word"
  using take_bit_nat_less_eq_self[of "LENGTH('a)" "push_bit n (unat x)"]
  unfolding unsigned_push_bit_eq push_bit_eq_mult[of n "unat x"] by simp

lemma unat_drop_bit: "unat (drop_bit n x) = unat x div 2 ^ n" for x :: "'a::len word"
  unfolding unsigned_drop_bit_eq by (simp add: drop_bit_eq_div[of n "_ :: nat"] take_bit_nat_eq_self)

lemma unat_and_le: "unat (x AND y) \<le> unat x" "unat (x AND y) \<le> unat y" for x y :: "'a::len word"
  using word_and_le1[of x y] word_and_le2[of x y] by (simp_all add: word_le_nat_alt)

lemma bounded_add: "unat x \<le> unat m \<Longrightarrow> unat y \<le> unat k \<Longrightarrow> unat (x + y) \<le> unat (saturating_add m k)"
  for x y :: u32 and m k :: u64
  using unat_add_le[of x y] unat_lt2p[of "x + y"] by (simp add: unat_saturating_add)

lemma bounded_mul: "unat x \<le> unat m \<Longrightarrow> unat y \<le> unat k \<Longrightarrow> unat (x * y) \<le> unat (saturating_mul m k)"
  for x y :: u32 and m k :: u64
  using unat_mult_le[of x y] mult_le_mono[of "unat x" "unat m" "unat y" "unat k"] unat_lt2p[of "x * y"]
  by (simp add: unat_saturating_mul)

lemma sym_add_sound:
  assumes "covers a x" "covers b y" "no_wrap Add a b"
  shows "covers (sym_add a b) (x + y)"
  using assms
proof (induction a b rule: sym_add.induct)
  case (1 c d)
  then have "unat (saturating_add c d) = unat c + unat d" by (simp add: unat_saturating_add)
  with 1 show ?case by (simp add: saturating_add_def)
qed (auto intro!: bounded_add simp: unat_u64 dest: covers_max)

lemma sym_mul_sound:
  assumes "covers a x" "covers b y" "no_wrap Mul a b"
  shows "covers (sym_mul a b) (x * y)"
  using assms
proof (induction a b rule: sym_mul.induct)
  case (1 c d)
  then show ?case by (simp add: saturating_mul_def)
qed (auto intro!: bounded_mul simp: unat_u64 dest: covers_max)

lemma small_shift: "unat s mod 32 = unat s" if "s < 32" for s :: u32
  using that by (simp add: word_less_nat_alt)

lemma sym_shl_sound:
  assumes "covers a x" "covers b y" "no_wrap Shl a b"
  shows "covers (sym_shl a b) (push_bit (unat y mod 32) x)"
  using assms
proof (induction a b rule: sym_shl.induct)
  case (1 a s)
  show ?case
  proof (cases "s < 32 \<and> (\<exists>m. a = Some (Bounded m))")
    case True
    then obtain m where m: "a = Some (Bounded m)" by auto
    have "unat (push_bit (unat s) m) = unat m * 2 ^ unat s"
      unfolding unsigned_push_bit_eq push_bit_eq_mult[of "unat s" "unat m"] using 1(3) m by (simp add: take_bit_nat_eq_self)
    moreover have "unat (push_bit (unat s) x) \<le> unat m * 2 ^ unat s"
      by (rule order_trans[OF unat_push_bit_le]) (use 1(1) m in \<open>auto intro: mult_le_mono1\<close>)
    ultimately show ?thesis using True m 1(2) by (simp add: small_shift)
  next
    case False
    then show ?thesis using 1 by (auto simp: small_shift split: option.split SymAddr.split)
  qed
qed auto

lemma sym_shr_sound:
  assumes "covers a x" "covers b y"
  shows "covers (sym_shr_u a b) (drop_bit (unat y mod 32) x)"
  using assms
  by (induction a b rule: sym_shr_u.induct)
     (auto simp: small_shift unat_drop_bit intro!: div_le_mono split: option.split SymAddr.split)

lemma sym_and_sound:
  assumes "covers a x" "covers b y"
  shows "covers (sym_and a b) (x AND y)"
proof -
  note le = unat_and_le[of x y]
  show ?thesis using assms
    by (induction a b rule: sym_and.induct) (use le in \<open>auto simp: unat_u64 min_def dest!: covers_max intro: order_trans\<close>)
qed

text \<open>C11: the symbolic arithmetic behind the elision of bounds checks is sound where it neither saturates nor
  wraps: if two symbolic values cover the operands of an addition, multiplication, mask or shift, the
  symbolic result covers the 32-bit result that WebAssembly defines, wrap-around of the operation
  itself included.\<close>

theorem symbolic_bounds_sound:
  assumes "covers a x" "covers b y" "no_wrap op a b" "i32_value op x y = Some z"
  shows "covers (binop_sym op a b) z"
  using assms sym_add_sound sym_mul_sound sym_shl_sound sym_shr_sound sym_and_sound
  by (cases op) auto

theorem symbolic_bounds_sound_witness:
  "covers (Some (Bounded 1000)) 999 \<and> binop_sym Shl (Some (Bounded 1000)) (Some (Const 2)) = Some (Bounded 4000) \<and>
   covers (binop_sym Shl (Some (Bounded 1000)) (Some (Const 2))) 3996"
proof -
  have *: "covers (Some (Bounded 1000)) 999" "covers (Some (Const 2)) 2" "no_wrap Shl (Some (Bounded 1000)) (Some (Const 2))"
    "i32_value Shl 999 2 = Some 3996" by simp_all
  have "binop_sym Shl (Some (Bounded 1000)) (Some (Const 2)) = Some (Bounded 4000)" by code_simp
  with symbolic_bounds_sound[OF *] *(1) show ?thesis by simp
qed

section \<open>Two elisions that are not sound\<close>

text \<open>How many bounds checks are elided when a body is lowered for a memory of 64 KiB.\<close>

definition elisions :: "nat \<Rightarrow> WasmOp list \<Rightarrow> nat option" where
  "elisions n_locals ops =
     (case new_function_with_memory n_locals [] 0x10000 of
        Err _ \<Rightarrow> None
      | Ok s \<Rightarrow> (case lower_all ops s of Err _ \<Rightarrow> None | Ok (_, s') \<Rightarrow> Some (unat (elision_count s'))))"

definition guarded_loop :: "WasmOp list" where
  "guarded_loop =
     [Block, Loop, LocalGet 0, I32Const 10, I32I I32GeS, BrIf 1, LocalGet 0, I32Load 0, Drop, Br 0, End, End, I32Const 0, End]"

definition saturated_constant :: "WasmOp list" where
  "saturated_constant =
     [I32Const 0x7FFFFFFF, I32Const 0x7FFFFFFF, I32I I32Add, I32Const 0x7FFFFFFF, I32I I32Add, I32Const 28, I32I I32ShrU,
      I32Const 1, I32I I32Add, I32Const 8, I32I I32And, I32Const 0x10000000, I32I I32Mul, I32Load 0, End]"

definition saturated_value :: u32 where
  "saturated_value = (drop_bit 28 (0x7FFFFFFF + 0x7FFFFFFF + 0x7FFFFFFF) + 1 AND 8) * 0x10000000"


end
