(* ===== verification/WasmValidate.thy ===== *)
theory WasmValidate
  imports Wasm
begin

text \<open>
  The validator of function bodies (\<open>wasm_validate.rs\<close>): a pass over the operations with a stack of
  operand types.  The operand stack is a list with its top first.  The operations whose effect is a
  fixed list of operands and results are given by \<open>instr_type\<close>, one equation per arm of the source;
  the others are the branches of \<open>validate_op\<close>.
\<close>

section \<open>Operand and result types\<close>

record ValidationError =
  op_index :: nat
  message :: string

text \<open>Operands in the order they are popped, and the value pushed.\<close>

fun i32_type :: "i32_instr \<Rightarrow> ValType list \<times> ValType list" where
  "i32_type I32Eqz = ([I32], [I32])"
| "i32_type _ = ([I32, I32], [I32])"

definition i64_arith :: "i64_instr \<Rightarrow> bool" where
  "i64_arith i \<longleftrightarrow> i \<in> {I64Add, I64Sub, I64Mul, I64DivS, I64DivU, I64And, I64Or, I64Xor, I64Shl, I64ShrS, I64ShrU}"

definition i64_type :: "i64_instr \<Rightarrow> ValType list \<times> ValType list" where
  "i64_type i = (if i = I64Eqz then ([I64], [I32]) else if i64_arith i then ([I64, I64], [I64]) else ([I64, I64], [I32]))"

definition float_type :: "float_instr \<Rightarrow> ValType list \<times> ValType list" where
  "float_type i =
     (if i \<in> {F32Add, F32Sub, F32Mul, F32Div} then ([F32, F32], [F32])
      else if i \<in> {F32Eq, F32Ne, F32Lt, F32Gt, F32Le, F32Ge} then ([F32, F32], [I32])
      else if i \<in> {F64Add, F64Sub, F64Mul, F64Div} then ([F64, F64], [F64])
      else ([F64, F64], [I32]))"

fun conv_type :: "conv_instr \<Rightarrow> ValType list \<times> ValType list" where
  "conv_type I32WrapI64 = ([I64], [I32])"
| "conv_type I64ExtendI32S = ([I32], [I64])"
| "conv_type I64ExtendI32U = ([I32], [I64])"
| "conv_type I32Extend8S = ([I32], [I32])"
| "conv_type I32Extend16S = ([I32], [I32])"
| "conv_type I64Extend8S = ([I64], [I64])"
| "conv_type I64Extend16S = ([I64], [I64])"
| "conv_type I64Extend32S = ([I64], [I64])"
| "conv_type I32TruncF32S = ([F32], [I32])"
| "conv_type I32TruncF32U = ([F32], [I32])"
| "conv_type I32TruncF64S = ([F64], [I32])"
| "conv_type I32TruncF64U = ([F64], [I32])"
| "conv_type I64TruncF32S = ([F32], [I64])"
| "conv_type I64TruncF32U = ([F32], [I64])"
| "conv_type I64TruncF64S = ([F64], [I64])"
| "conv_type I64TruncF64U = ([F64], [I64])"
| "conv_type F32ConvertI32S = ([I32], [F32])"
| "conv_type F32ConvertI32U = ([I32], [F32])"
| "conv_type F32ConvertI64S = ([I64], [F32])"
| "conv_type F32ConvertI64U = ([I64], [F32])"
| "conv_type F64ConvertI32S = ([I32], [F64])"
| "conv_type F64ConvertI32U = ([I32], [F64])"
| "conv_type F64ConvertI64S = ([I64], [F64])"
| "conv_type F64ConvertI64U = ([I64], [F64])"
| "conv_type F32DemoteF64 = ([F64], [F32])"
| "conv_type F64PromoteF32 = ([F32], [F64])"
| "conv_type I32ReinterpretF32 = ([F32], [I32])"
| "conv_type I64ReinterpretF64 = ([F64], [I64])"
| "conv_type F32ReinterpretI32 = ([I32], [F32])"
| "conv_type F64ReinterpretI64 = ([I64], [F64])"

fun simd_type :: "simd_instr \<Rightarrow> ValType list \<times> ValType list" where
  "simd_type I32x4DotI8x16Signed = ([V128, V128, V128], [V128])"
| "simd_type I32x4DotI8x16Unsigned = ([V128, V128, V128], [V128])"
| "simd_type F32x4Abs = ([V128], [V128])"
| "simd_type F32x4Neg = ([V128], [V128])"
| "simd_type F32x4Sqrt = ([V128], [V128])"
| "simd_type F64x2Abs = ([V128], [V128])"
| "simd_type F64x2Neg = ([V128], [V128])"
| "simd_type F64x2Sqrt = ([V128], [V128])"
| "simd_type F32x4Fma = ([V128, V128, V128], [V128])"
| "simd_type V128Bitselect = ([V128, V128, V128], [V128])"
| "simd_type F32x4Splat = ([F32], [V128])"
| "simd_type F64x2Splat = ([F64], [V128])"
| "simd_type I32x4Splat = ([I32], [V128])"
| "simd_type I8x16Splat = ([I32], [V128])"
| "simd_type I16x8Splat = ([I32], [V128])"
| "simd_type (F32x4ExtractLane _) = ([V128], [F32])"
| "simd_type (F64x2ExtractLane _) = ([V128], [F64])"
| "simd_type (I32x4ExtractLane _) = ([V128], [I32])"
| "simd_type (I8x16ExtractLaneU _) = ([V128], [I32])"
| "simd_type (I16x8ExtractLaneU _) = ([V128], [I32])"
| "simd_type F32x4HorizontalSum = ([V128], [F32])"
| "simd_type _ = ([V128, V128], [V128])"

fun instr_type :: "WasmOp \<Rightarrow> (ValType list \<times> ValType list) option" where
  "instr_type (I32Const _) = Some ([], [I32])"
| "instr_type (I64Const _) = Some ([], [I64])"
| "instr_type (F32Const _) = Some ([], [F32])"
| "instr_type (F64Const _) = Some ([], [F64])"
| "instr_type (V128Const _) = Some ([], [V128])"
| "instr_type (I32I i) = Some (i32_type i)"
| "instr_type (I64I i) = Some (i64_type i)"
| "instr_type (FloatI i) = Some (float_type i)"
| "instr_type (ConvI i) = Some (conv_type i)"
| "instr_type (SimdI i) = Some (simd_type i)"
| "instr_type (I32Load _) = Some ([I32], [I32])"
| "instr_type (I32Store _) = Some ([I32, I32], [])"
| "instr_type (I64Load _) = Some ([I32], [I64])"
| "instr_type (I64Store _) = Some ([I64, I32], [])"
| "instr_type (F32Load _) = Some ([I32], [F32])"
| "instr_type (F32Store _) = Some ([F32, I32], [])"
| "instr_type (F64Load _) = Some ([I32], [F64])"
| "instr_type (F64Store _) = Some ([F64, I32], [])"
| "instr_type (V128Load _) = Some ([I32], [V128])"
| "instr_type (V128Store _) = Some ([V128, I32], [])"
| "instr_type _ = None"

section \<open>The pass\<close>

record Validator =
  vstack :: "ValType list"
  label_depth :: u32
  unreachable :: bool

record Signatures =
  v_locals :: "ValType list"
  v_globals :: "ValType list"
  v_calls :: "FnSig list"
  v_indirect :: "FnSig list"

definition MAX_STACK_DEPTH :: nat where
  "MAX_STACK_DEPTH = 4096"

definition pop_expect :: "ValType list \<Rightarrow> ValType \<Rightarrow> (string, ValType list) result" where
  "pop_expect st expected =
     (case st of
        [] \<Rightarrow> Err ''stack underflow''
      | got # rest \<Rightarrow> if got \<noteq> expected then Err ''type mismatch'' else Ok rest)"

fun pop_all :: "ValType list \<Rightarrow> ValType list \<Rightarrow> (string, ValType list) result" where
  "pop_all st [] = Ok st"
| "pop_all st (t # ts) = (case pop_expect st t of Err e \<Rightarrow> Err e | Ok rest \<Rightarrow> pop_all rest ts)"

definition apply_type :: "ValType list \<times> ValType list \<Rightarrow> Validator \<Rightarrow> (string, Validator) result" where
  "apply_type ty v =
     (case pop_all (vstack v) (fst ty) of Err e \<Rightarrow> Err e | Ok rest \<Rightarrow> Ok (v\<lparr> vstack := snd ty @ rest \<rparr>))"

definition sig_type :: "FnSig \<Rightarrow> ValType list \<times> ValType list" where
  "sig_type sig = (rev (params sig), (case sig_result sig of None \<Rightarrow> [] | Some r \<Rightarrow> [r]))"

text \<open>The operations after an unconditional branch or return.\<close>

definition validate_unreachable :: "WasmOp \<Rightarrow> Validator \<Rightarrow> Validator" where
  "validate_unreachable op v =
     (case op of
        End \<Rightarrow> v\<lparr> unreachable := False, label_depth := saturating_sub (label_depth v) 1 \<rparr>
      | ElseOp \<Rightarrow> v\<lparr> unreachable := False \<rparr>
      | Block \<Rightarrow> v\<lparr> label_depth := label_depth v + 1 \<rparr>
      | Loop \<Rightarrow> v\<lparr> label_depth := label_depth v + 1 \<rparr>
      | IfOp \<Rightarrow> v\<lparr> label_depth := label_depth v + 1 \<rparr>
      | _ \<Rightarrow> v)"

definition validate_select :: "Validator \<Rightarrow> (string, Validator) result" where
  "validate_select v =
     (case pop_expect (vstack v) I32 of
        Err e \<Rightarrow> Err e
      | Ok (b # a # rest) \<Rightarrow>
          if a \<noteq> b then Err ''select: both values must have same type'' else Ok (v\<lparr> vstack := a # rest \<rparr>)
      | Ok _ \<Rightarrow> Err ''stack underflow'')"

definition validate_special :: "Signatures \<Rightarrow> WasmOp \<Rightarrow> Validator \<Rightarrow> (string, Validator) result" where
  "validate_special sg op v =
     (case op of
        LocalGet idx \<Rightarrow>
          if length (v_locals sg) \<le> unat idx then Err ''local index out of range''
          else apply_type ([], [v_locals sg ! unat idx]) v
      | LocalSet idx \<Rightarrow>
          if length (v_locals sg) \<le> unat idx then Err ''local index out of range''
          else apply_type ([v_locals sg ! unat idx], []) v
      | LocalTee idx \<Rightarrow>
          if length (v_locals sg) \<le> unat idx then Err ''local index out of range''
          else if vstack v = [] then Err ''stack underflow''
          else if hd (vstack v) \<noteq> v_locals sg ! unat idx then Err ''type mismatch''
          else Ok v
      | GlobalGet idx \<Rightarrow>
          if length (v_globals sg) \<le> unat idx then Err ''global index out of range''
          else apply_type ([], [v_globals sg ! unat idx]) v
      | GlobalSet idx \<Rightarrow>
          if length (v_globals sg) \<le> unat idx then Err ''global index out of range''
          else apply_type ([v_globals sg ! unat idx], []) v
      | Drop \<Rightarrow> if vstack v = [] then Err ''stack underflow'' else Ok (v\<lparr> vstack := tl (vstack v) \<rparr>)
      | Select \<Rightarrow> validate_select v
      | Block \<Rightarrow> Ok (v\<lparr> label_depth := label_depth v + 1 \<rparr>)
      | Loop \<Rightarrow> Ok (v\<lparr> label_depth := label_depth v + 1 \<rparr>)
      | IfOp \<Rightarrow> apply_type ([I32], []) (v\<lparr> label_depth := label_depth v + 1 \<rparr>)
      | ElseOp \<Rightarrow> Ok v
      | Br d \<Rightarrow>
          if label_depth v \<le> d then Err ''br/br_if depth exceeds label stack'' else Ok (v\<lparr> unreachable := True \<rparr>)
      | BrIf d \<Rightarrow>
          if label_depth v \<le> d then Err ''br/br_if depth exceeds label stack'' else apply_type ([I32], []) v
      | End \<Rightarrow> Ok (v\<lparr> label_depth := saturating_sub (label_depth v) 1 \<rparr>)
      | Return \<Rightarrow> if vstack v = [] then Err ''return with empty stack'' else Ok (v\<lparr> unreachable := True \<rparr>)
      | Call idx \<Rightarrow>
          if length (v_calls sg) \<le> unat idx then Err ''call target index out of range''
          else apply_type (sig_type (v_calls sg ! unat idx)) v
      | CallIndirect type_id \<Rightarrow>
          (case apply_type ([I32], []) v of
             Err e \<Rightarrow> Err e
           | Ok v' \<Rightarrow>
               if length (v_indirect sg) \<le> unat type_id then Err ''call_indirect type index out of range''
               else apply_type (sig_type (v_indirect sg ! unat type_id)) v')
      | _ \<Rightarrow> Ok v)"

definition validate_op :: "Signatures \<Rightarrow> WasmOp \<Rightarrow> Validator \<Rightarrow> (string, Validator) result" where
  "validate_op sg op v =
     (if unreachable v then Ok (validate_unreachable op v)
      else if MAX_STACK_DEPTH < length (vstack v) then Err ''operand stack depth exceeded (max 4096)''
      else (case instr_type op of Some ty \<Rightarrow> apply_type ty v | None \<Rightarrow> validate_special sg op v))"

fun validate_loop :: "Signatures \<Rightarrow> nat \<Rightarrow> WasmOp list \<Rightarrow> Validator \<Rightarrow> (ValidationError, Validator) result" where
  "validate_loop sg i [] v = Ok v"
| "validate_loop sg i (op # ops) v =
     (case validate_op sg op v of
        Err msg \<Rightarrow> Err \<lparr> op_index = i, message = msg \<rparr>
      | Ok v' \<Rightarrow> validate_loop sg (i + 1) ops v')"

definition validate_full ::
  "ValType list \<Rightarrow> ValType list \<Rightarrow> WasmOp list \<Rightarrow> FnSig list \<Rightarrow> FnSig list \<Rightarrow> (ValidationError, unit) result" where
  "validate_full local_types global_types ops call_sigs indirect_sigs =
     (case validate_loop
             \<lparr> v_locals = local_types, v_globals = global_types, v_calls = call_sigs, v_indirect = indirect_sigs \<rparr> 0 ops
             \<lparr> vstack = [], label_depth = 0, unreachable = False \<rparr> of
        Err e \<Rightarrow> Err e
      | Ok v \<Rightarrow>
          if label_depth v \<noteq> 0
          then Err \<lparr> op_index = length ops, message = ''unclosed block/loop at function end'' \<rparr>
          else if length (vstack v) \<noteq> 1
          then Err \<lparr> op_index = length ops, message = ''function must leave exactly 1 value on the stack'' \<rparr>
          else Ok ())"

definition validate :: "ValType list \<Rightarrow> WasmOp list \<Rightarrow> FnSig list \<Rightarrow> FnSig list \<Rightarrow> (ValidationError, unit) result" where
  "validate local_types ops call_sigs indirect_sigs = validate_full local_types [] ops call_sigs indirect_sigs"

end
