(* ===== verification/LowerInv.thy ===== *)
theory LowerInv
  imports LowerCtl WasmValidate
begin

text \<open>
  A type discipline for lowering steps.  \<open>good c st n k s\<close> says that a lowering state is consistent, holds
  the configuration \<open>c\<close>, has the operand types \<open>st\<close>, \<open>n\<close> open labels and at least \<open>k\<close> bytes of code.  \<open>acts c ts us m\<close> says that the
  step \<open>m\<close> replaces the operand types \<open>ts\<close> on top of any stack by \<open>us\<close>, or stops with an error that
  names an exceeded resource or an unsupported construct; it never panics and never reports a type
  error.  The rules below give the discipline for the building blocks, and \<open>lower_acts\<close> shows that the
  lowering of each operation has the type that the validator assigns to it.
\<close>

section \<open>Consistent states\<close>

fun resource_error :: "LowerError \<Rightarrow> bool" where
  "resource_error (TypedStackOverflow _) = True"
| "resource_error MemoryNotConfigured = True"
| "resource_error TableNotConfigured = True"
| "resource_error CallTypeUnsupported = True"
| "resource_error CallArityUnsupported = True"
| "resource_error IndirectTypeUnsupported = True"
| "resource_error IndirectArityUnsupported = True"
| "resource_error V128ReturnUnsupported = True"
| "resource_error V128LocalsUnsupported = True"
| "resource_error GlobalNotMutable = True"
| "resource_error BranchOutOfRange = True"
| "resource_error TooManyLocals = True"
| "resource_error TooManyGlobals = True"
| "resource_error (Encode _) = True"
| "resource_error _ = False"

record Config =
  cf_locals :: "LocalLoc list"
  cf_globals :: "ValType list"
  cf_mutable :: "bool list"
  cf_count :: nat
  cf_sigs :: "FnSig list"
  cf_indirect :: "FnSig list"

definition config :: "Lowerer \<Rightarrow> Config" where
  "config s = \<lparr> cf_locals = locals s, cf_globals = global_types s, cf_mutable = global_mutable s,
     cf_count = module_fn_count s, cf_sigs = module_fn_sigs s, cf_indirect = indirect_sigs s \<rparr>"

fun patch_pos :: "PendingPatch \<Rightarrow> nat" where
  "patch_pos (PatchB at) = at"
| "patch_pos (PatchCbnzW at rt) = at"

text \<open>Every instruction a label wants to patch lies in the buffer.\<close>

definition label_ok :: "nat \<Rightarrow> Label \<Rightarrow> bool" where
  "label_ok len l \<longleftrightarrow>
     (kind l = LoopLabel \<longrightarrow> loop_start l \<noteq> None) \<and>
     (case kind l of IfLabel at \<Rightarrow> at + 4 \<le> len | IfElseLabel at \<Rightarrow> at + 4 \<le> len | _ \<Rightarrow> True) \<and>
     (\<forall>p \<in> set (pending l). patch_pos p + 4 \<le> len)"

text \<open>The recorded call sites are in order, do not overlap and lie in the buffer.\<close>

definition relocs_ok :: "nat \<Rightarrow> nat \<Rightarrow> (u32 \<times> u32) list \<Rightarrow> bool" where
  "relocs_ok len fns rs \<longleftrightarrow>
     (\<forall>(site, target) \<in> set rs. unat target < fns) \<and>
     (len < 2 ^ 32 \<longrightarrow>
        sorted_wrt (\<lambda>a b. unat (fst a) + 4 \<le> unat (fst b)) rs \<and> (\<forall>(site, target) \<in> set rs. unat site + 4 \<le> len))"

definition depths_ok :: "Lowerer \<Rightarrow> bool" where
  "depths_ok s \<longleftrightarrow>
     int_depth s = length (filter is_int (stack s)) \<and>
     fp_depth s = length (filter (\<lambda>t. \<not> is_int t) (stack s)) \<and>
     length (int_sym_stack s) = int_depth s"

definition good :: "Config \<Rightarrow> ValType list \<Rightarrow> nat \<Rightarrow> nat \<Rightarrow> Lowerer \<Rightarrow> bool" where
  "good c st n k s \<longleftrightarrow>
     k \<le> length (buf (enc s)) \<and> config s = c \<and> stack s = st \<and> length (label_stack s) = n \<and> depths_ok s \<and>
     (\<forall>l \<in> set (label_stack s). label_ok (length (buf (enc s))) l) \<and>
     relocs_ok (length (buf (enc s))) (module_fn_count s) (pending_relocations s)"

lemma label_ok_mono: "label_ok len l \<Longrightarrow> len \<le> len' \<Longrightarrow> label_ok len' l"
  by (auto simp: label_ok_def split: LabelKind.splits)

lemma relocs_ok_mono: "relocs_ok len fns rs \<Longrightarrow> len \<le> len' \<Longrightarrow> relocs_ok len' fns rs"
  by (fastforce simp: relocs_ok_def)

text \<open>The call site recorded at a branch-and-link follows all earlier ones.\<close>

lemma relocs_ok_snoc:
  assumes "relocs_ok len fns rs" "unat idx < fns"
  shows "relocs_ok (len + 4) fns (rs @ [(of_nat len, idx)])"
proof -
  have "unat (of_nat len :: u32) = len" if "len + 4 < 2 ^ 32" using that by (simp add: unat_of_nat take_bit_nat_eq_self)
  with assms show ?thesis by (fastforce simp: relocs_ok_def sorted_wrt_append)
qed

text \<open>Fields that the invariant does not read may change, and the buffer may grow.\<close>

lemma good_grow:
  assumes "good c st n k s" "config s' = config s" "stack s' = stack s" "label_stack s' = label_stack s"
    "int_depth s' = int_depth s" "fp_depth s' = fp_depth s" "length (int_sym_stack s') = length (int_sym_stack s)"
    "length (buf (enc s)) \<le> length (buf (enc s'))" "pending_relocations s' = pending_relocations s"
  shows "good c st n k s'"
proof -
  have "module_fn_count s' = module_fn_count s" using assms(2) by (simp add: config_def)
  with assms show ?thesis
    by (auto simp: good_def depths_ok_def intro: label_ok_mono relocs_ok_mono)
qed

section \<open>Typed steps\<close>

definition hoare :: "(Lowerer \<Rightarrow> bool) \<Rightarrow> 'a lowering \<Rightarrow> ('a \<Rightarrow> Lowerer \<Rightarrow> bool) \<Rightarrow> bool" where
  "hoare P m Q \<longleftrightarrow>
     (\<forall>s. P s \<longrightarrow>
        (case m s of Err Panic \<Rightarrow> False | Err (Failure e) \<Rightarrow> resource_error e | Ok (x, s') \<Rightarrow> Q x s'))"

definition acts :: "Config \<Rightarrow> ValType list \<Rightarrow> ValType list \<Rightarrow> 'a lowering \<Rightarrow> bool" where
  "acts c ts us m \<longleftrightarrow> (\<forall>st n k. hoare (good c (ts @ st) n k) m (\<lambda>_. good c (us @ st) n k))"

lemma hoareI: "(\<And>s. P s \<Longrightarrow> (case m s of Err Panic \<Rightarrow> False | Err (Failure e) \<Rightarrow> resource_error e | Ok (x, s') \<Rightarrow> Q x s')) \<Longrightarrow> hoare P m Q"
  by (simp add: hoare_def)

lemma hoare_ret: "hoare (Q x) (lret x) Q"
  by (simp add: hoare_def lret_def)

lemma hoare_fail: "resource_error e \<Longrightarrow> hoare P (lfail e) Q"
  by (simp add: hoare_def lfail_def)

lemma hoare_bind:
  assumes "hoare P m Q" "\<And>x. hoare (Q x) (f x) R"
  shows "hoare P (lbind m f) R"
proof (rule hoareI)
  fix s assume "P s"
  with assms(1) show "case lbind m f s of Err Panic \<Rightarrow> False | Err (Failure e) \<Rightarrow> resource_error e | Ok (x, s') \<Rightarrow> R x s'"
    using assms(2) by (fastforce simp: hoare_def lbind_def split: sum.splits fault.splits)
qed

lemma hoare_get: "(\<And>s. P s \<Longrightarrow> hoare (\<lambda>s'. s' = s) (f (g s)) Q) \<Longrightarrow> hoare P (lbind (lget g) f) Q"
  by (simp add: hoare_def lbind_def lget_def)

lemma hoare_get_value: "(\<And>s. P s \<Longrightarrow> hoare P (f (g s)) Q) \<Longrightarrow> hoare P (lbind (lget g) f) Q"
  by (simp add: hoare_def lbind_def lget_def)

lemma hoare_mod: "(\<And>s. P s \<Longrightarrow> Q () (f s)) \<Longrightarrow> hoare P (lmod f) Q"
  by (simp add: hoare_def lmod_def)

lemma hoare_weaken: "hoare P m Q \<Longrightarrow> (\<And>s. P' s \<Longrightarrow> P s) \<Longrightarrow> (\<And>x s. Q x s \<Longrightarrow> Q' x s) \<Longrightarrow> hoare P' m Q'"
  by (fastforce simp: hoare_def split: sum.splits fault.splits)

lemma hoare_ins: "appends em \<Longrightarrow> hoare (good c st n k) (ins em) (\<lambda>_. good c st n k)"
proof (rule hoareI)
  fix s assume em: "appends em" and s: "good c st n k s"
  have "good c st n k (s\<lparr> enc := emit word (enc s) \<rparr>)" for word
    by (rule good_grow[OF s]) (simp_all add: config_def emit_def)
  with em show "case ins em s of Err Panic \<Rightarrow> False | Err (Failure e) \<Rightarrow> resource_error e | Ok (x, s') \<Rightarrow> good c st n k s'"
    by (auto simp: ins_def appends_def split: sum.splits)
qed

lemma hoare_neutral:
  assumes "\<And>s. config (f s) = config s \<and> stack (f s) = stack s \<and> label_stack (f s) = label_stack s \<and>
    int_depth (f s) = int_depth s \<and> fp_depth (f s) = fp_depth s \<and> length (int_sym_stack (f s)) = length (int_sym_stack s) \<and>
    length (buf (enc s)) \<le> length (buf (enc (f s))) \<and> pending_relocations (f s) = pending_relocations s"
  shows "hoare (good c st n k) (lmod f) (\<lambda>_. good c st n k)"
  using assms by (intro hoare_mod) (blast intro: good_grow)

lemma acts_ret: "acts c ts ts (lret x)"
  by (simp add: acts_def hoare_def lret_def)

lemma acts_fail: "resource_error e \<Longrightarrow> acts c ts us (lfail e)"
  by (simp add: acts_def hoare_fail)

lemma acts_bind: "acts c ts us m \<Longrightarrow> (\<And>x. acts c us vs (f x)) \<Longrightarrow> acts c ts vs (lbind m f)"
  unfolding acts_def by (blast intro: hoare_bind)

lemma acts_ins: "appends em \<Longrightarrow> acts c ts ts (ins em)"
  by (simp add: acts_def hoare_ins)

lemma acts_get: "acts c ts ts (lget f)"
  by (simp add: acts_def hoare_def lget_def)

lemma acts_get_config:
  assumes "\<And>s. config s = c \<Longrightarrow> acts c ts us (f (g s))"
  shows "acts c ts us (lbind (lget g) f)"
  unfolding acts_def
proof (intro allI hoare_get_value)
  fix st n k s assume "good c (ts @ st) n k s"
  then have "config s = c" by (simp add: good_def)
  from assms[OF this] show "hoare (good c (ts @ st) n k) (f (g s)) (\<lambda>_. good c (us @ st) n k)"
    by (simp add: acts_def)
qed

lemma acts_when: "acts c ts ts m \<Longrightarrow> acts c ts ts (lwhen b m)"
  by (simp add: lwhen_def acts_ret)

lemma acts_seq: "(\<And>m. m \<in> set ms \<Longrightarrow> acts c ts ts m) \<Longrightarrow> acts c ts ts (lseq ms)"
  by (induction ms) (auto intro: acts_ret acts_bind)

lemma acts_seq_Cons: "acts c ts us m \<Longrightarrow> acts c us vs (lseq ms) \<Longrightarrow> acts c ts vs (lseq (m # ms))"
  by (simp add: acts_bind)

lemma acts_seq_Nil: "acts c ts ts (lseq [])"
  by (simp add: acts_ret)

lemma acts_if: "(b \<Longrightarrow> acts c ts us m) \<Longrightarrow> (\<not> b \<Longrightarrow> acts c ts us m') \<Longrightarrow> acts c ts us (if b then m else m')"
  by simp

section \<open>The operand stack\<close>

lemma acts_flush: "acts c ts ts flush_pending_spill" "acts c ts ts flush_pending_fp_spill"
proof -
  have "acts c ts ts (lmod (\<lambda>s. s\<lparr> pending_spill_depth := None \<rparr>))" "acts c ts ts (lmod (\<lambda>s. s\<lparr> pending_fp_spill_depth := None \<rparr>))"
    by (auto simp: acts_def config_def intro!: hoare_neutral)
  then show "acts c ts ts flush_pending_spill" "acts c ts ts flush_pending_fp_spill"
    unfolding flush_pending_spill_def flush_pending_fp_spill_def
    by (auto intro!: acts_bind[OF acts_get] acts_bind acts_ret acts_ins split: option.split)
qed

lemma hoare_acts: "acts c ts us m \<Longrightarrow> hoare (good c (ts @ st) n k) m (\<lambda>_. good c (us @ st) n k)"
  by (simp add: acts_def)

lemma acts_grow_int: "is_int t \<Longrightarrow> acts c ts (t # ts) (grow_int t)"
  by (auto simp: acts_def grow_int_def good_def depths_ok_def config_def intro!: hoare_mod)

lemma acts_grow_fp: "\<not> is_int t \<Longrightarrow> acts c ts (t # ts) (grow_fp t)"
  by (auto simp: acts_def grow_fp_def good_def depths_ok_def config_def intro!: hoare_mod)

lemma acts_pending: "acts c ts ts (lmod (\<lambda>s. s\<lparr> pending_spill_depth := p \<rparr>))" "acts c ts ts (lmod (\<lambda>s. s\<lparr> pending_fp_spill_depth := p \<rparr>))"
  "acts c ts ts (lmod (\<lambda>s. s\<lparr> spill_pop_toggle := b \<rparr>))" "acts c ts ts (lmod (\<lambda>s. s\<lparr> fp_spill_pop_toggle := b \<rparr>))"
  by (auto simp: acts_def config_def intro!: hoare_neutral)

lemma acts_push_int: "is_int t \<Longrightarrow> acts c ts (t # ts) (push_int t)"
  unfolding push_int_def
  by (auto intro!: acts_bind[OF acts_flush(1)] acts_bind[OF acts_get] acts_bind[OF acts_grow_int acts_ret]
      acts_bind[OF acts_pending(1)] acts_fail split: option.split)

lemma acts_push_fp: "\<not> is_int t \<Longrightarrow> acts c ts (t # ts) (push_fp t)"
  unfolding push_fp_def
  by (auto intro!: acts_bind[OF acts_flush(2)] acts_bind[OF acts_get] acts_bind[OF acts_grow_fp acts_ret]
      acts_bind[OF acts_pending(2)] acts_fail split: option.split)

text \<open>Reading the operand stack fixes the operand types on top of it.\<close>

lemma acts_get_stack:
  assumes "\<And>st. acts c (t # ts) us (f (t # st))"
  shows "acts c (t # ts) us (lbind (lget stack) f)"
  unfolding acts_def
proof (intro allI hoare_get_value)
  fix st n k s assume "good c ((t # ts) @ st) n k s"
  then have "stack s = t # (ts @ st)" by (simp add: good_def)
  with assms show "hoare (good c ((t # ts) @ st) n k) (f (stack s)) (\<lambda>_. good c (us @ st) n k)"
    by (simp add: acts_def)
qed

lemma acts_top: "acts c (t # ts) us (f t) \<Longrightarrow> acts c (t # ts) us (lbind top_type f)"
proof -
  assume f: "acts c (t # ts) us (f t)"
  have "lbind top_type f = lbind (lget stack) (\<lambda>st. case st of [] \<Rightarrow> lfail StackUnderflow | ty # _ \<Rightarrow> f ty)"
    by (auto simp: top_type_def lbind_def lget_def lfail_def lret_def fun_eq_iff split: list.split)
  with f show ?thesis by (auto intro: acts_get_stack)
qed

lemma hoare_pop_int:
  assumes "is_int t"
  shows "hoare (good c (t # st) n k) (lmod (\<lambda>s. s\<lparr> stack := st, int_sym_stack := tl (int_sym_stack s), int_depth := int_depth s - 1 \<rparr>)) (\<lambda>_. good c st n k)"
  using assms by (auto simp: good_def depths_ok_def config_def intro!: hoare_mod)

lemma hoare_pop_fp:
  assumes "\<not> is_int t"
  shows "hoare (good c (t # st) n k) (lmod (\<lambda>s. s\<lparr> stack := st, fp_depth := fp_depth s - 1 \<rparr>)) (\<lambda>_. good c st n k)"
  using assms by (auto simp: good_def depths_ok_def config_def intro!: hoare_mod)

lemma acts_pop:
  assumes upd: "\<And>st n k. hoare (good c (t # st) n k) (lmod (upd st)) (\<lambda>_. good c st n k)" and load: "acts c ts ts load"
  shows "acts c (t # ts) ts (lbind (lget stack) (\<lambda>st. case st of
       [] \<Rightarrow> lfail StackUnderflow
     | got # rest \<Rightarrow> if got \<noteq> t then lfail (TypeMismatch t got) else lbind (lmod (upd rest)) (\<lambda>_. load)))"
  unfolding acts_def
proof (intro allI hoare_get_value)
  fix st n k s assume "good c ((t # ts) @ st) n k s"
  then have "stack s = t # (ts @ st)" by (simp add: good_def)
  then show "hoare (good c ((t # ts) @ st) n k) (case stack s of
       [] \<Rightarrow> lfail StackUnderflow
     | got # rest \<Rightarrow> if got \<noteq> t then lfail (TypeMismatch t got) else lbind (lmod (upd rest)) (\<lambda>_. load)) (\<lambda>_. good c (ts @ st) n k)"
    using hoare_bind[OF upd hoare_acts[OF load]] by simp
qed

lemma acts_pop_int: "is_int t \<Longrightarrow> acts c (t # ts) ts (pop_int t)"
  unfolding pop_int_def
  by (rule acts_bind[OF acts_flush(1)], rule acts_pop[OF hoare_pop_int], assumption)
    (auto simp: Let_def intro!: acts_bind[OF acts_get] acts_ret acts_bind[OF acts_pending(3)] acts_bind[OF acts_ins acts_ret]
      split: option.split)

lemma Vreg_new_primary: "d < MAX_F32_STACK \<Longrightarrow> Vreg_new (of_nat d) = Some (Vreg (of_nat d))"
  by (simp add: Vreg_new_def MAX_F32_STACK_def word_le_nat_alt unat_of_nat take_bit_nat_eq_self)

lemma acts_pop_fp: "\<not> is_int t \<Longrightarrow> acts c (t # ts) ts (pop_fp t)"
  unfolding pop_fp_def
  by (rule acts_bind[OF acts_flush(2)], rule acts_pop[OF hoare_pop_fp], assumption)
    (auto simp: Let_def Vreg_new_primary intro!: acts_bind[OF acts_get] acts_ret acts_bind[OF acts_pending(4)]
      acts_bind[OF acts_ins acts_ret] split: option.split)

lemma acts_slots:
  "acts c ts (I32 # ts) push_i32_slot" "acts c ts (I64 # ts) push_i64_slot" "acts c ts (F32 # ts) push_f32_slot"
  "acts c ts (F64 # ts) push_f64_slot" "acts c ts (V128 # ts) push_v128_slot" "acts c (I32 # ts) ts pop_i32_slot"
  "acts c (I64 # ts) ts pop_i64_slot" "acts c (F32 # ts) ts pop_f32_slot" "acts c (F64 # ts) ts pop_f64_slot"
  "acts c (V128 # ts) ts pop_v128_slot"
  by (simp_all add: push_i32_slot_def push_i64_slot_def push_f32_slot_def push_f64_slot_def push_v128_slot_def pop_i32_slot_def
      pop_i64_slot_def pop_f32_slot_def pop_f64_slot_def pop_v128_slot_def acts_push_int acts_push_fp acts_pop_int acts_pop_fp)

lemma acts_set_top_sym: "acts c ts ts (set_top_sym sy)"
  by (auto simp: acts_def set_top_sym_def config_def intro!: hoare_neutral split: list.split)

lemma acts_peek: "acts c ts ts (peek_sym_at k)" "acts c ts ts peek_top_sym" "acts c ts ts here"
  by (simp_all add: peek_sym_at_def peek_top_sym_def here_def acts_get)

lemma appends_if:
  "appends em \<Longrightarrow> appends em' \<Longrightarrow> appends (if b then em else em')"
  "(\<And>x y. appends (f x y)) \<Longrightarrow> (\<And>x y. appends (g x y)) \<Longrightarrow> appends ((if b then f else g) d v)"
  by simp_all

text \<open>The rules for forward reasoning: each step determines the operand types of the next.\<close>

lemmas acts_basic = acts_bind acts_slots acts_ret acts_ins acts_set_top_sym acts_peek acts_get acts_when acts_seq_Cons acts_seq_Nil
  appends_emitters appends_if

lemma acts_load_reg: "acts c ts ts (load_u32_into_reg r v)" "acts c ts ts (load_u64_into_reg r v')"
  unfolding load_u32_into_reg_def load_u64_into_reg_def by (rule acts_basic)+

section \<open>Sequences of pops, a push and an instruction\<close>

lemma acts_unary:
  assumes "acts c [t] [] pop" "acts c [] [u] push" "\<And>d v. appends (em d v)"
  shows "acts c [t] [u] (unary pop push em)"
  unfolding unary_def by (intro acts_bind[OF assms(1)] acts_bind[OF assms(2)] acts_ins assms(3))

lemma acts_binary:
  assumes "\<And>ts. acts c (t # ts) ts pop" "acts c [] [u] push" "\<And>d v w. acts c [u] [u] (body d v w)"
  shows "acts c [t, t] [u] (binary pop push body)"
  unfolding binary_def by (intro acts_bind[OF assms(1)] acts_bind[OF assms(2)] assms(3))

lemma acts_ternary:
  assumes "\<And>ts. acts c (t # ts) ts pop" "acts c [] [u] push" "\<And>d v w x. acts c [u] [u] (body d v w x)"
  shows "acts c [t, t, t] [u] (ternary pop push body)"
  unfolding ternary_def by (intro acts_bind[OF assms(1)] acts_bind[OF assms(2)] assms(3))

lemma acts_binop_body: "acts c ts ts (binop_body op dst lhs rhs)"
  by (cases op; simp only: binop_body.simps) (rule acts_basic)+

lemma acts_lower_binop: "acts c [I32, I32] [I32] (lower_binop op)"
  unfolding lower_binop_def by (rule acts_basic acts_binary acts_binop_body)+

lemma appends_emit_tables:
  "appends (i64_emit op a b d)" "appends (f32_emit fop x y z)" "appends (f64_emit fop x y z)" "appends (i64_extend_emit w a b)"
proof -
  show "appends (i64_emit op a b d)" by (cases op) simp_all
  show "appends (f32_emit fop x y z)" "appends (f64_emit fop x y z)" by (cases fop; simp)+
  show "appends (i64_extend_emit w a b)" by (cases w) simp_all
qed

lemma acts_scalar:
  "acts c [] [I32] (lower_const k)" "acts c [I32] [I32] lower_eqz" "acts c [] [I64] (lower_i64_const k')"
  "acts c [I64, I64] [I64] (lower_i64_binop op)" "acts c [I64] [I32] lower_i64_eqz" "acts c [I64, I64] [I32] (lower_i64_cmp cond)"
  "acts c [] [F32] (lower_f32_const bits)" "acts c [F32, F32] [F32] (lower_f32_binop fop)" "acts c [F32, F32] [I32] (lower_f32_cmp cond)"
  "acts c [] [F64] (lower_f64_const bits')" "acts c [F64, F64] [F64] (lower_f64_binop fop)" "acts c [F64, F64] [I32] (lower_f64_cmp cond)"
  unfolding lower_const_def lower_eqz_def lower_i64_const_def lower_i64_binop_def lower_i64_eqz_def lower_i64_cmp_def
    lower_f32_const_def lower_f32_binop_def lower_f32_cmp_def lower_f64_const_def lower_f64_binop_def lower_f64_cmp_def
  by (rule acts_basic acts_binary acts_load_reg appends_emit_tables)+

lemma acts_conv:
  "acts c [I64] [I32] lower_wrap_i64" "acts c [I32] [I64] (lower_extend_i32 sg)" "acts c [I32] [I32] (lower_i32_extend_narrow sg)"
  "acts c [I64] [I64] (lower_i64_extend_narrow w)" "acts c [F32] [I32] (lower_trunc_f32_i32 sg)" "acts c [F64] [I32] (lower_trunc_f64_i32 sg)"
  "acts c [F32] [I64] (lower_trunc_f32_i64 sg)" "acts c [F64] [I64] (lower_trunc_f64_i64 sg)" "acts c [I32] [F32] (lower_convert_i32_f32 sg)"
  "acts c [I64] [F32] (lower_convert_i64_f32 sg)" "acts c [I32] [F64] (lower_convert_i32_f64 sg)" "acts c [I64] [F64] (lower_convert_i64_f64 sg)"
  "acts c [F64] [F32] lower_f32_demote_f64" "acts c [F32] [F64] lower_f64_promote_f32" "acts c [F32] [I32] lower_i32_reinterpret_f32"
  "acts c [F64] [I64] lower_i64_reinterpret_f64" "acts c [I32] [F32] lower_f32_reinterpret_i32" "acts c [I64] [F64] lower_f64_reinterpret_i64"
  unfolding lower_wrap_i64_def lower_extend_i32_def lower_i32_extend_narrow_def lower_i64_extend_narrow_def lower_trunc_f32_i32_def
    lower_trunc_f64_i32_def lower_trunc_f32_i64_def lower_trunc_f64_i64_def lower_convert_i32_f32_def lower_convert_i64_f32_def
    lower_convert_i32_f64_def lower_convert_i64_f64_def lower_f32_demote_f64_def lower_f64_promote_f32_def lower_i32_reinterpret_f32_def
    lower_i64_reinterpret_f64_def lower_f32_reinterpret_i32_def lower_f64_reinterpret_i64_def
  by (rule acts_basic acts_unary appends_emit_tables)+

section \<open>Patches and bounds checks\<close>

lemma hoare_ins_grows: "appends em \<Longrightarrow> hoare (good c st n k) (ins em) (\<lambda>_. good c st n (k + 4))"
proof (rule hoareI)
  fix s assume em: "appends em" and s: "good c st n k s"
  have "good c st n k (s\<lparr> enc := emit word (enc s) \<rparr>)" for word
    by (rule good_grow[OF s]) (simp_all add: config_def emit_def)
  then have "good c st n (k + 4) (s\<lparr> enc := emit word (enc s) \<rparr>)" for word
    using s by (simp add: good_def emit_def)
  with em show "case ins em s of Err Panic \<Rightarrow> False | Err (Failure e) \<Rightarrow> resource_error e | Ok (x, s') \<Rightarrow> good c st n (k + 4) s'"
    by (auto simp: ins_def appends_def split: sum.splits)
qed

lemma hoare_here:
  assumes "\<And>at. k \<le> at \<Longrightarrow> hoare (good c st n at) (f at) Q"
  shows "hoare (good c st n k) (lbind here f) Q"
  unfolding here_def
proof (rule hoare_get)
  fix s assume s: "good c st n k s"
  then have "hoare (good c st n (enc_pos (enc s))) (f (enc_pos (enc s))) Q"
    by (intro assms) (simp add: good_def enc_pos_def)
  moreover from s have "good c st n (enc_pos (enc s)) s" by (simp add: good_def enc_pos_def)
  ultimately show "hoare (\<lambda>s'. s' = s) (f (enc_pos (enc s))) Q" by (auto simp: hoare_def)
qed

lemma hoare_patch_at: "at + 4 \<le> k \<Longrightarrow> hoare (good c st n k) (patch_at at word) (\<lambda>_. good c st n k)"
proof (rule hoareI)
  fix s assume k: "at + 4 \<le> k" and s: "good c st n k s"
  then have "at + 4 \<le> length (buf (enc s))" by (simp add: good_def)
  then obtain e where e: "patch_word at word (enc s) = Some e" "length (buf e) = length (buf (enc s))"
    by (simp add: patch_word_def)
  have "good c st n k (s\<lparr> enc := e \<rparr>)"
    by (rule good_grow[OF s]) (simp_all add: config_def e)
  with e show "case patch_at at word s of Err Panic \<Rightarrow> False | Err (Failure e) \<Rightarrow> resource_error e | Ok (x, s') \<Rightarrow> good c st n k s'"
    by (simp add: patch_at_def)
qed

lemma acts_epilogue: "acts c ts ts emit_epilogue"
  unfolding emit_epilogue_def
  by (rule acts_bind[OF acts_get]) (auto intro!: acts_ret acts_seq acts_ins acts_when)

lemma acts_trap: "acts c ts ts (emit_trap_kind knd)"
  unfolding emit_trap_kind_def by (rule acts_basic acts_epilogue)+

lemma acts_hoare: "acts c ts ts m \<Longrightarrow> hoare (good c (ts @ st) n k) m (\<lambda>_. good c (ts @ st) n k)"
  by (simp add: acts_def)

lemma acts_guarded_trap:
  "acts c ts ts (lbind here (\<lambda>b_cond_pos. lbind (ins (b_cond Ls 0)) (\<lambda>_. lbind (emit_trap_kind knd) (\<lambda>_.
     lbind here (\<lambda>after_trap.
       case encode_b_cond Ls (offset_to after_trap b_cond_pos) of
         Err e \<Rightarrow> lfail (Encode e)
       | Ok patched \<Rightarrow> patch_at b_cond_pos patched)))))"
  unfolding acts_def
proof (intro allI, rule hoare_here, rule hoare_bind[OF hoare_ins_grows], simp, rule hoare_bind[OF acts_hoare[OF acts_trap]], rule hoare_here)
  fix st and n k at after :: nat
  assume at: "k \<le> at" and after: "at + 4 \<le> after"
  then have "hoare (good c (ts @ st) n after) (patch_at at w) (\<lambda>_. good c (ts @ st) n k)" for w
    by (intro hoare_weaken[OF hoare_patch_at[OF after]]) (auto simp: good_def)
  then show "hoare (good c (ts @ st) n after)
      (case encode_b_cond Ls (offset_to after at) of Err e \<Rightarrow> lfail (Encode e) | Ok patched \<Rightarrow> patch_at at patched)
      (\<lambda>_. good c (ts @ st) n k)"
    by (auto intro: hoare_fail split: sum.split)
qed

lemma acts_bounds_check: "acts c ts ts (emit_bounds_check r sz off str)"
  unfolding emit_bounds_check_def Let_def
  by (rule acts_bind[OF acts_get], split option.split)
    (intro conjI impI allI acts_trap acts_bind[OF acts_load_reg(1)] acts_bind[OF acts_ins] acts_guarded_trap appends_emitters)

lemma acts_maybe_bounds_check: "acts c ts ts (maybe_bounds_check r sz off str sy)"
proof -
  have "acts c ts ts (lmod (\<lambda>s. s\<lparr> elision_count := elision_count s + 1 \<rparr>))"
    by (auto simp: acts_def config_def intro!: hoare_neutral)
  then show ?thesis
    unfolding maybe_bounds_check_def by (intro acts_bind[OF acts_get] acts_if acts_bounds_check)
qed

lemma acts_full_addr: "acts c ts ts (full_addr_in_x16 r off)"
  unfolding full_addr_in_x16_def
  by (rule acts_bind[OF acts_ins], simp, rule acts_if) (rule acts_basic acts_load_reg)+

lemma acts_with_memory: "acts c ts us m \<Longrightarrow> acts c ts us (with_memory m)"
  unfolding with_memory_def by (auto intro!: acts_bind[OF acts_get] acts_fail)

lemma acts_load:
  "acts c [] [u] push \<Longrightarrow> (\<And>d r k. appends (em d r k)) \<Longrightarrow> acts c [I32] [u] (load_with sz push em off)"
  unfolding load_with_def
  by (rule acts_with_memory) (rule acts_basic acts_maybe_bounds_check acts_full_addr | assumption)+

lemma acts_store:
  "acts c [t, I32] [t, I32] peek \<Longrightarrow> acts c [t, I32] [I32] pop \<Longrightarrow> (\<And>d r k. appends (em d r k)) \<Longrightarrow> acts c [t, I32] [] (store_with sz peek pop em off)"
  unfolding store_with_def
  by (rule acts_with_memory) (rule acts_basic acts_maybe_bounds_check acts_full_addr | assumption)+

lemma acts_memory:
  "acts c [I32] [I32] (lower_load off)" "acts c [I32, I32] [] (lower_store off)" "acts c [I32] [F32] (lower_f32_load off)"
  "acts c [F32, I32] [] (lower_f32_store off)" "acts c [I32] [F64] (lower_f64_load off)" "acts c [F64, I32] [] (lower_f64_store off)"
  "acts c [I32] [I64] (lower_i64_load off)" "acts c [I64, I32] [] (lower_i64_store off)"
  unfolding lower_load_def lower_store_def lower_f32_load_def lower_f32_store_def lower_f64_load_def lower_f64_store_def
    lower_i64_load_def lower_i64_store_def
  by (rule acts_load acts_store acts_peek acts_slots appends_emitters)+

section \<open>Vectors\<close>

lemma acts_raw: "acts c ts ts (lmod (\<lambda>s. s\<lparr> enc := emit word (enc s) \<rparr>))"
  by (auto simp: acts_def config_def emit_def intro!: hoare_neutral)

lemma acts_v128_const: "acts c [] [V128] (lower_v128_const bits)"
proof -
  have region: "acts c ts ts (lmod (\<lambda>s. s\<lparr> data_regions := data_regions s @ [r] \<rparr>))" for ts r
    by (auto simp: acts_def config_def intro!: hoare_neutral)
  have words: "acts c ts ts (lseq (map (\<lambda>k. lmod (\<lambda>s. s\<lparr> enc := emit_raw_word (w k) (enc s) \<rparr>)) ks))"
    "acts c ts ts (lseq (replicate j (lmod (\<lambda>s. s\<lparr> enc := nop_insn (enc s) \<rparr>))))" for ts w ks j
    by (auto simp: emit_raw_word_def nop_insn_def intro!: acts_seq acts_raw)
  show ?thesis
    unfolding lower_v128_const_def Let_def by (rule acts_bind acts_slots acts_peek acts_ins words region appends_emitters)+
qed

lemma acts_v128_memory: "acts c [I32] [V128] (lower_v128_load off)" "acts c [V128, I32] [] (lower_v128_store off)"
  unfolding lower_v128_load_def lower_v128_store_def
  by (rule acts_with_memory acts_basic acts_maybe_bounds_check)+

lemma acts_v128_binop: "(\<And>d x y. appends (em d x y)) \<Longrightarrow> acts c [V128, V128] [V128] (lower_v128_binop em)"
  unfolding lower_v128_binop_def by (rule acts_basic acts_binary | assumption)+

lemma acts_v128_unary: "(\<And>d x. appends (em d x)) \<Longrightarrow> acts c [V128] [V128] (lower_f32x4_unary em)"
  unfolding lower_f32x4_unary_def by (rule acts_basic acts_unary | assumption)+

lemma acts_dot: "(\<And>d x y. appends (em d x y)) \<Longrightarrow> acts c ts ts (dot_body em dst acc x y)"
  unfolding dot_body_def by (rule acts_basic | assumption)+

lemmas simd_defs = lower_f32x4_add_def lower_f32x4_mul_def lower_f32x4_sub_def lower_f32x4_div_def lower_f32x4_max_def
  lower_f32x4_min_def lower_f32x4_eq_def lower_f32x4_gt_def lower_i32x4_add_def lower_i32x4_sub_def lower_i32x4_mul_def
  lower_f32x4_extract_lane_def lower_f32x4_splat_def lower_i32x4_splat_def lower_i32x4_dot_i8x16_signed_def
  lower_i32x4_dot_i8x16_unsigned_def lower_i32x4_extract_lane_def lower_f32x4_fma_def lower_f64x2_splat_def
  lower_f64x2_extract_lane_def lower_v128_bitselect_def lower_f32x4_horizontal_sum_def

lemma acts_simd: "acts c (fst (simd_type i)) (snd (simd_type i)) (lower_simd i)"
  by (cases i; simp only: simd_type.simps lower_simd.simps simd_defs fst_conv snd_conv)
    (rule acts_v128_binop acts_v128_unary acts_basic acts_unary acts_ternary acts_dot)+

section \<open>The lowering of an instruction has the type of the instruction\<close>

lemma acts_i32: "acts c (fst (i32_type i)) (snd (i32_type i)) (lower_i32 i)"
  by (cases i) (simp_all add: acts_lower_binop acts_scalar)

lemma acts_i64: "acts c (fst (i64_type i)) (snd (i64_type i)) (lower_i64 i)"
  by (cases i) (simp_all add: i64_type_def i64_arith_def acts_scalar)

lemma acts_float: "acts c (fst (float_type i)) (snd (float_type i)) (lower_float i)"
  by (cases i) (simp_all add: float_type_def acts_scalar)

lemma acts_conversion: "acts c (fst (conv_type i)) (snd (conv_type i)) (lower_conv i)"
  by (cases i) (simp_all add: acts_conv)

lemma lower_acts:
  assumes "instr_type op = Some (ts, us)"
  shows "acts c ts us (lower_op op)"
  using assms acts_i32 acts_i64 acts_float acts_conversion acts_simd
  by (cases op) (auto simp: acts_scalar acts_memory acts_v128_const acts_v128_memory, (metis fst_conv snd_conv)+)

section \<open>Locals, globals and parametric operations\<close>

fun loc_type :: "LocalLoc \<Rightarrow> ValType" where
  "loc_type (LocI32 _) = I32"
| "loc_type (LocI64 _) = I64"
| "loc_type (LocF32 _) = F32"
| "loc_type (LocF64 _) = F64"
| "loc_type (LocV128 _) = V128"

lemma lbind_assoc: "lbind (lbind m f) g = lbind m (\<lambda>x. lbind (f x) g)"
  by (auto simp: lbind_def fun_eq_iff split: sum.split)

lemma lbind_ret [simp]: "lbind (lret x) f = f x"
  by (simp add: lbind_def lret_def fun_eq_iff)

lemma acts_local_loc:
  assumes "unat idx < length (cf_locals c)" "acts c ts us (f (cf_locals c ! unat idx))"
  shows "acts c ts us (lbind (local_loc idx) f)"
  unfolding local_loc_def lbind_assoc using assms by (intro acts_get_config) (auto simp: config_def)

lemma acts_taint: "acts c ts ts (taint_local idx)"
  by (auto simp: acts_def taint_local_def config_def intro!: hoare_neutral)

lemma acts_expect_top: "acts c (t # ts) (t # ts) (expect_top t)"
  unfolding expect_top_def by (rule acts_top) (simp add: acts_ret)

lemma acts_top_regs: "acts c ts ts int_top_reg" "acts c ts ts fp_top_reg"
  by (simp_all add: int_top_reg_def fp_top_reg_def acts_get)

lemma acts_locals:
  assumes "unat idx < length (cf_locals c)" "t = loc_type (cf_locals c ! unat idx)"
  shows "acts c [] [t] (lower_local_get idx)" "acts c [t] [] (lower_local_set idx)" "acts c [t] [t] (lower_local_tee idx)"
proof -
  show "acts c [] [t] (lower_local_get idx)"
    unfolding lower_local_get_def
    by (rule acts_bind[OF acts_get], rule acts_local_loc[OF assms(1)], cases "cf_locals c ! unat idx"; simp add: assms(2) del: lseq.simps)
      (rule acts_basic)+
  show "acts c [t] [] (lower_local_set idx)"
    unfolding lower_local_set_def
    by (rule acts_bind[OF acts_taint], rule acts_local_loc[OF assms(1)], cases "cf_locals c ! unat idx"; simp add: assms(2))
      (rule acts_basic)+
  show "acts c [t] [t] (lower_local_tee idx)"
    unfolding lower_local_tee_def
    by (rule acts_bind[OF acts_taint], rule acts_local_loc[OF assms(1)], cases "cf_locals c ! unat idx"; simp add: assms(2))
      (rule acts_basic acts_expect_top acts_top_regs)+
qed

lemma acts_drop: "acts c [t] [] lower_drop"
  unfolding lower_drop_def by (rule acts_top, cases t; simp) (rule acts_basic)+

lemma acts_select_int:
  "(\<And>ts. acts c (t # ts) ts pop) \<Longrightarrow> (\<And>ts. acts c ts (t # ts) push) \<Longrightarrow> acts c [t, t] [t] (select_int pop push)"
  unfolding select_int_def by (rule acts_basic | assumption)+

lemma acts_select: "acts c [I32, t, t] [t] lower_select"
  unfolding lower_select_def
  by (rule acts_bind[OF acts_slots(6)], rule acts_bind[OF acts_ins], simp, rule acts_top, cases t; simp)
    (rule acts_select_int acts_binary acts_slots acts_ins acts_fail appends_emitters | simp)+

lemma acts_global_entry:
  assumes "unat idx < length (cf_globals c)" "length (cf_mutable c) = length (cf_globals c)"
    and "\<And>off. acts c ts us (f (cf_globals c ! unat idx, cf_mutable c ! unat idx, off))"
  shows "acts c ts us (lbind (global_entry idx) f)"
  unfolding global_entry_def lbind_assoc using assms by (intro acts_get_config) (auto simp: config_def)

lemma acts_global_addr: "acts c ts ts (materialize_global_addr off)"
  unfolding materialize_global_addr_def by (rule acts_basic acts_load_reg)+

lemma acts_global_store: "acts c [t] [] pop \<Longrightarrow> (\<And>r. appends (em r X16 0)) \<Longrightarrow> acts c [t] [] (global_store pop em off)"
  unfolding global_store_def by (rule acts_basic acts_global_addr | assumption)+

lemma acts_globals:
  assumes "unat idx < length (cf_globals c)" "length (cf_mutable c) = length (cf_globals c)" "t = cf_globals c ! unat idx"
  shows "acts c [] [t] (lower_global_get idx)" "acts c [t] [] (lower_global_set idx)"
proof -
  show "acts c [] [t] (lower_global_get idx)"
    unfolding lower_global_get_def
    by (rule acts_with_memory, rule acts_global_entry[OF assms(1,2)], cases t; simp add: assms(3)[symmetric])
      (rule acts_basic acts_global_addr acts_fail | simp)+
  show "acts c [t] [] (lower_global_set idx)"
    unfolding lower_global_set_def
    by (rule acts_with_memory, rule acts_global_entry[OF assms(1,2)], cases t)
      (auto simp: assms(3)[symmetric] intro!: acts_fail acts_global_store acts_slots)
qed

end
