(* ===== verification/ModuleLower.thy ===== *)
theory ModuleLower
  imports LowerCtl WasmModule
begin

text \<open>
  The linker of the just-in-time compiler (\<open>wasm_lower/module_lower.rs\<close>): every function is lowered
  on its own, the codes are concatenated with the entry point first, and each recorded call site is
  rewritten to a branch to its target.
\<close>

section \<open>Signatures\<close>

record ModuleLayout =
  layout_code :: "u8 list"
  function_offsets :: "u32 list"
  entrypoint_offset :: u32

record LoweredFunction =
  fn_bytes :: "u8 list"
  fn_relocations :: "(u32 \<times> u32) list"

type_synonym 'a compiled = "(LowerError fault, 'a) result"

definition valtype_from_byte :: "u8 \<Rightarrow> ValType compiled" where
  "valtype_from_byte b =
     (if b = 0x7F then Ok I32 else if b = 0x7E then Ok I64 else if b = 0x7D then Ok F32 else if b = 0x7C then Ok F64
      else Err (Failure CallTypeUnsupported))"

fun collect :: "'a compiled list \<Rightarrow> 'a list compiled" where
  "collect [] = Ok []"
| "collect (r # rs) = (case r of Err e \<Rightarrow> Err e | Ok x \<Rightarrow> map_sum id (\<lambda>xs. x # xs) (collect rs))"

definition build_sig :: "Module \<Rightarrow> nat \<Rightarrow> FnSig compiled" where
  "build_sig m fn_idx =
     (if length (func_types m) \<le> fn_idx then Err (Failure CallTargetMissing)
      else if length (mod_types m) \<le> unat (func_types m ! fn_idx) then Err (Failure CallTargetMissing)
      else
        (let ty = mod_types m ! unat (func_types m ! fn_idx)
         in case (collect (map valtype_from_byte (fs_params ty)), fs_results ty) of
              (Err e, _) \<Rightarrow> Err e
            | (Ok ps, []) \<Rightarrow> Ok \<lparr> params = ps, sig_result = None \<rparr>
            | (Ok ps, [b]) \<Rightarrow> map_sum id (\<lambda>r. \<lparr> params = ps, sig_result = Some r \<rparr>) (valtype_from_byte b)
            | _ \<Rightarrow> Err (Failure CallTypeUnsupported)))"

section \<open>Functions\<close>

definition configure :: "u32 \<Rightarrow> ValType list \<Rightarrow> bool list \<Rightarrow> FnSig list \<Rightarrow> unit lowering" where
  "configure msize g_types g_mutable sigs =
     lseq [lmod (set_mem_size msize), set_globals g_types g_mutable, lmod (set_module_fn_sigs sigs)]"

definition lower_one_function ::
  "FunctionBody \<Rightarrow> FnSig \<Rightarrow> FnSig list \<Rightarrow> ValType list \<Rightarrow> bool list \<Rightarrow> u8 list list \<Rightarrow> bool \<Rightarrow> u64 \<Rightarrow> u32 \<Rightarrow> LoweredFunction compiled" where
  "lower_one_function body own_sig sigs g_types g_mutable g_inits is_entrypoint mem_base msize =
     (case collect (map valtype_from_byte (local_types body)) of
        Err e \<Rightarrow> Err e
      | Ok declared \<Rightarrow>
          (case new_function_with_memory_typed (params own_sig @ declared) [] mem_base of
             Err e \<Rightarrow> Err e
           | Ok lw \<Rightarrow>
               (case lseq [configure msize g_types g_mutable sigs,
                           lwhen (is_entrypoint \<and> g_inits \<noteq> []) (emit_global_inits g_inits),
                           lwhen (params own_sig \<noteq> []) (emit_param_rehydration (params own_sig)),
                           lower_all (body_ops body)] lw of
                  Err e \<Rightarrow> Err e
                | Ok (_, lw') \<Rightarrow>
                    (case take_relocations lw' of
                       (relocs, lw'') \<Rightarrow> Ok \<lparr> fn_bytes = finish lw'', fn_relocations = relocs \<rparr>))))"

section \<open>Linking\<close>

definition layout_order :: "nat \<Rightarrow> nat \<Rightarrow> nat list" where
  "layout_order n entry = entry # filter (\<lambda>i. i \<noteq> entry) [0..<n]"

text \<open>The second pass: concatenation, with the call sites moved by the start of their function.\<close>

fun stitch :: "(nat \<times> LoweredFunction) list \<Rightarrow> u32 list \<Rightarrow> u8 list \<Rightarrow> (u32 \<times> u32) list \<Rightarrow>
    u32 list \<times> u8 list \<times> (u32 \<times> u32) list" where
  "stitch [] offsets blob relocs = (offsets, blob, relocs)"
| "stitch ((orig, f) # fs) offsets blob relocs =
     (let fn_start = of_nat (length blob)
      in stitch fs (offsets[orig := fn_start]) (blob @ fn_bytes f)
           (relocs @ map (\<lambda>(site, target). (fn_start + site, target)) (fn_relocations f)))"

text \<open>The third pass: the branch-and-link instruction of one call site.\<close>

definition patch_relocation :: "u32 list \<Rightarrow> u32 \<times> u32 \<Rightarrow> u8 list \<Rightarrow> u8 list compiled" where
  "patch_relocation offsets r blob =
     (case r of (site, target_idx) \<Rightarrow>
        if length offsets \<le> unat target_idx then Err Panic
        else
          (let delta = uint (offsets ! unat target_idx) - uint site; imm26 = delta div 4
           in if delta mod 4 \<noteq> 0 then Err (Failure BranchOutOfRange)
              else if \<not> (- (2 ^ 25) \<le> imm26 \<and> imm26 < 2 ^ 25) then Err (Failure BranchOutOfRange)
              else if length blob < unat site + 4 then Err Panic
              else Ok (put_word blob (unat site) (0x94000000 OR (word_of_int imm26 AND 0x03FFFFFF)))))"

fun patch_all :: "u32 list \<Rightarrow> (u32 \<times> u32) list \<Rightarrow> u8 list \<Rightarrow> u8 list compiled" where
  "patch_all offsets [] blob = Ok blob"
| "patch_all offsets (r # rs) blob =
     (case patch_relocation offsets r blob of Err e \<Rightarrow> Err e | Ok blob' \<Rightarrow> patch_all offsets rs blob')"

definition link :: "nat \<Rightarrow> (nat \<times> LoweredFunction) list \<Rightarrow> ModuleLayout compiled" where
  "link n fns =
     (case stitch fns (replicate n 0) [] [] of
        (offsets, blob, relocs) \<Rightarrow>
          map_sum id (\<lambda>code. \<lparr> layout_code = code, function_offsets = offsets, entrypoint_offset = 0 \<rparr>)
            (patch_all offsets relocs blob))"

text \<open>The first pass, in layout order: the original index and the code of each function.\<close>

definition lower_functions :: "Module \<Rightarrow> u64 \<Rightarrow> u32 \<Rightarrow> nat \<Rightarrow> FnSig list \<Rightarrow> ValType list \<Rightarrow> nat list \<Rightarrow> LoweredFunction list compiled" where
  "lower_functions m mem_base msize entry fn_sigs g_types order =
     collect (map (\<lambda>orig.
       lower_one_function (bodies m ! orig) (fn_sigs ! orig) fn_sigs g_types (map mutable (globals m)) (map init_bytes (globals m))
         (orig = entry) mem_base msize) order)"

definition lower_module :: "Module \<Rightarrow> u64 \<Rightarrow> u32 \<Rightarrow> u32 \<Rightarrow> (nat \<times> LoweredFunction) list compiled" where
  "lower_module m mem_base msize entrypoint_fn_idx =
     (let n = length (bodies m); entry = unat entrypoint_fn_idx
      in if n \<le> entry then Err (Failure CallTargetMissing)
         else if bodies m = [] then Err (Failure CallTargetMissing)
         else
           (case collect (map (build_sig m) [0..<n]) of
              Err e \<Rightarrow> Err e
            | Ok fn_sigs \<Rightarrow>
                (case collect (map (\<lambda>g. valtype_from_byte (valtype g)) (globals m)) of
                   Err e \<Rightarrow> Err e
                 | Ok g_types \<Rightarrow>
                     map_sum id (zip (layout_order n entry))
                       (lower_functions m mem_base msize entry fn_sigs g_types (layout_order n entry)))))"

definition compile_module :: "Module \<Rightarrow> u64 \<Rightarrow> u32 \<Rightarrow> u32 \<Rightarrow> ModuleLayout compiled" where
  "compile_module m mem_base msize entrypoint_fn_idx =
     (case lower_module m mem_base msize entrypoint_fn_idx of
        Err e \<Rightarrow> Err e
      | Ok fns \<Rightarrow> link (length (bodies m)) fns)"

end
