(* ===== verification/LowerSafe.thy ===== *)
theory LowerSafe
  imports LowerInv ModuleLower
begin

text \<open>
  Typed lowering of control flow, calls and whole functions: a function body that the validator
  accepts is lowered, or refused for an exceeded resource or an unsupported construct; it never makes
  the lowering panic or report a type error.  The bodies covered are those without \<open>else\<close> and
  \<open>return\<close> in which the operation after an unconditional branch is \<open>end\<close>: for the others the
  validator and the lowering keep different stacks.
\<close>

section \<open>Calls\<close>

lemma acts_pop_args: "list_all is_int ps \<Longrightarrow> acts c (ps @ ts) ts (pop_args ps)"
proof (induction ps)
  case (Cons p ps)
  then have rest: "acts c (ps @ ts) ts (pop_args ps)" and p: "p = I32 \<or> p = I64" by (auto elim: is_int.elims)
  from p show ?case
    by (auto intro!: acts_bind[OF acts_slots(6)] acts_bind[OF acts_slots(7)] acts_bind[OF rest] acts_ret)
qed (simp add: acts_ret)

lemma acts_marshal: "acts c ts ts (marshal_args srcs)"
  unfolding marshal_args_def by (rule acts_seq) (auto intro!: acts_ins)

lemma acts_rehydrate_result:
  assumes "resource_error e"
  shows "acts c ts ((case r of None \<Rightarrow> [] | Some t \<Rightarrow> [t]) @ ts) (rehydrate_result e r)"
  unfolding rehydrate_result_def
  by (cases r; simp; (cases "the r"; simp)?) (rule acts_basic acts_if acts_fail assms | simp)+

lemma acts_check_args:
  assumes "resource_error e" "resource_error e'" "list_all is_int (params sig) \<Longrightarrow> acts c ts us m"
  shows "acts c ts us (lbind (check_args e e' sig) (\<lambda>_. m))"
proof -
  have "lbind (check_args e e' sig) (\<lambda>_. m) =
      (if \<not> list_all is_int (params sig) then lfail e else if 8 < length (params sig) then lfail e' else m)"
    by (auto simp: check_args_def lbind_def lfail_def lret_def fun_eq_iff)
  with assms show ?thesis by (auto intro: acts_fail)
qed

lemma acts_call_site:
  assumes "unat idx < cf_count c"
  shows "acts c ts ts (lbind here (\<lambda>site. lseq [ins (bl_insn 4),
     lmod (\<lambda>s. s\<lparr> pending_relocations := pending_relocations s @ [(of_nat site, idx)] \<rparr>)]))"
  unfolding acts_def
proof (intro allI hoareI)
  fix st n k s assume s: "good c (ts @ st) n k s"
  let ?s' = "\<lambda>e. s\<lparr> enc := e, pending_relocations := pending_relocations s @ [(of_nat (enc_pos (enc s)), idx)] \<rparr>"
  have "good c (ts @ st) n k (?s' (emit w (enc s)))" for w
    using s assms relocs_ok_snoc[of "length (buf (enc s))" "module_fn_count s" "pending_relocations s" idx]
    by (auto simp: good_def depths_ok_def config_def emit_def enc_pos_def intro: label_ok_mono)
  moreover have "(\<exists>w. bl_insn 4 (enc s) = Ok (emit w (enc s))) \<or> (\<exists>e. bl_insn 4 (enc s) = Err e)"
    using appends_emitters unfolding appends_def by (metis obj_sumE)
  ultimately show "case lbind here (\<lambda>site. lseq [ins (bl_insn 4),
     lmod (\<lambda>s. s\<lparr> pending_relocations := pending_relocations s @ [(of_nat site, idx)] \<rparr>)]) s of
       Err Panic \<Rightarrow> False | Err (Failure e) \<Rightarrow> resource_error e | Ok (x, s') \<Rightarrow> good c (ts @ st) n k s'"
    by (auto simp: lbind_def here_def lget_def ins_def lmod_def lret_def)
qed

lemma acts_call_site_then:
  assumes "unat idx < cf_count c" "acts c ts us m"
  shows "acts c ts us (lbind here (\<lambda>site. lseq [ins (bl_insn 4),
     lmod (\<lambda>s. s\<lparr> pending_relocations := pending_relocations s @ [(of_nat site, idx)] \<rparr>), m]))"
proof -
  have "lbind here (\<lambda>site. lseq [ins (bl_insn 4),
        lmod (\<lambda>s. s\<lparr> pending_relocations := pending_relocations s @ [(of_nat site, idx)] \<rparr>), m]) =
      lbind (lbind here (\<lambda>site. lseq [ins (bl_insn 4),
        lmod (\<lambda>s. s\<lparr> pending_relocations := pending_relocations s @ [(of_nat site, idx)] \<rparr>)])) (\<lambda>_. lseq [m])"
    by (simp add: lbind_assoc)
  then show ?thesis
    by (simp only: acts_bind[OF acts_call_site[OF assms(1)] acts_seq_Cons[OF assms(2) acts_seq_Nil]])
qed

lemma acts_result:
  "resource_error e \<Longrightarrow> acts c [] (snd (sig_type sig)) (rehydrate_result e (sig_result sig))"
  using acts_rehydrate_result[of e c "[]" "sig_result sig"] by (simp add: sig_type_def)

lemma acts_args: "list_all is_int (params sig) \<Longrightarrow> acts c (fst (sig_type sig)) [] (pop_args (rev (params sig)))"
  using acts_pop_args[of "rev (params sig)" c "[]"] by (simp add: sig_type_def)

lemma acts_call_internal:
  assumes "unat idx < cf_count c" "cf_count c = length (cf_sigs c)"
  shows "acts c (fst (sig_type (cf_sigs c ! unat idx))) (snd (sig_type (cf_sigs c ! unat idx))) (lower_call_internal idx)"
  unfolding lower_call_internal_def
proof (rule acts_get_config)
  let ?sig = "cf_sigs c ! unat idx"
  fix s assume "config s = c"
  then have sigs: "module_fn_sigs s = cf_sigs c" by (auto simp: config_def)
  have "\<not> length (cf_sigs c) \<le> unat idx" using assms by simp
  then show "acts c (fst (sig_type ?sig)) (snd (sig_type ?sig)) (if length (module_fn_sigs s) \<le> unat idx then lpanic
      else let sig = module_fn_sigs s ! unat idx
        in lbind (check_args CallTypeUnsupported CallArityUnsupported sig) (\<lambda>_.
           lbind (pop_args (rev (params sig))) (\<lambda>srcs. lbind (marshal_args (rev srcs)) (\<lambda>_.
           lbind here (\<lambda>site. lseq [ins (bl_insn 4),
             lmod (\<lambda>s. s\<lparr> pending_relocations := pending_relocations s @ [(of_nat site, idx)] \<rparr>),
             rehydrate_result CallTypeUnsupported (sig_result sig)])))))"
    unfolding sigs Let_def
    by (simp only: if_False)
      (rule acts_check_args acts_bind[OF acts_args] acts_bind[OF acts_marshal] acts_call_site_then[OF assms(1)] acts_result
         resource_error.simps TrueI | assumption | simp only: resource_error.simps)+
qed

lemma acts_call:
  assumes "unat idx < length (cf_sigs c)" "cf_count c = length (cf_sigs c)"
  shows "acts c (fst (sig_type (cf_sigs c ! unat idx))) (snd (sig_type (cf_sigs c ! unat idx))) (lower_call idx)"
  unfolding lower_call_def using assms acts_call_internal[of idx c] by (intro acts_get_config) (auto simp: config_def)

lemma acts_call_indirect:
  assumes "unat t < length (cf_indirect c)"
  shows "acts c (I32 # fst (sig_type (cf_indirect c ! unat t))) (snd (sig_type (cf_indirect c ! unat t))) (lower_call_indirect t)"
  unfolding lower_call_indirect_def
proof (rule acts_get_config)
  let ?sig = "cf_indirect c ! unat t"
  fix s assume "config s = c"
  then have sigs: "indirect_sigs s = cf_indirect c" by (auto simp: config_def)
  have "acts c (I32 # fst (sig_type ?sig)) (snd (sig_type ?sig))
      (lbind (check_args IndirectTypeUnsupported IndirectArityUnsupported ?sig) (\<lambda>_.
       lbind pop_i32_slot (\<lambda>idx_reg.
       lbind (lseq [load_u64_into_reg X17 table, ins (add_ext_uxtw_shifted X17 X17 idx_reg 4), ins (ldr_imm X16 X17 0)]) (\<lambda>_.
       lbind (pop_args (rev (params ?sig))) (\<lambda>srcs.
         lseq [marshal_args (rev srcs), ins (blr_insn X16), rehydrate_result IndirectTypeUnsupported (sig_result ?sig)])))))" for table
    by (rule acts_check_args acts_bind[OF acts_args] acts_basic acts_load_reg acts_marshal acts_result
        | assumption | simp only: resource_error.simps)+
  with assms show "acts c (I32 # fst (sig_type ?sig)) (snd (sig_type ?sig)) (case table_base s of
         None \<Rightarrow> lfail TableNotConfigured
       | Some table \<Rightarrow>
           if length (indirect_sigs s) \<le> unat t then lfail IndirectTypeMissing
           else
             (let sig = indirect_sigs s ! unat t
              in lbind (check_args IndirectTypeUnsupported IndirectArityUnsupported sig) (\<lambda>_.
                 lbind pop_i32_slot (\<lambda>idx_reg.
                 lbind (lseq [load_u64_into_reg X17 table, ins (add_ext_uxtw_shifted X17 X17 idx_reg 4), ins (ldr_imm X16 X17 0)]) (\<lambda>_.
                 lbind (pop_args (rev (params sig))) (\<lambda>srcs.
                   lseq [marshal_args (rev srcs), ins (blr_insn X16),
                         rehydrate_result IndirectTypeUnsupported (sig_result sig)]))))))"
    unfolding sigs Let_def by (auto intro!: acts_fail simp del: lseq.simps split: option.split)
qed

section \<open>Labels\<close>

lemma hoare_push_label:
  assumes "label_ok k \<lparr> kind = knd, loop_start = start, pending = [], entry_depth = length st \<rparr>"
  shows "hoare (good c st n k) (push_label knd start) (\<lambda>_. good c st (Suc n) k)"
  unfolding push_label_def
proof (rule hoare_mod)
  fix s assume s: "good c st n k s"
  then have "label_ok (length (buf (enc s))) \<lparr> kind = knd, loop_start = start, pending = [], entry_depth = length (stack s) \<rparr>"
    using label_ok_mono[OF assms, of "length (buf (enc s))"] by (simp add: good_def)
  with s show "good c st (Suc n) k
      (s\<lparr> label_stack := \<lparr> kind = knd, loop_start = start, pending = [], entry_depth = length (stack s) \<rparr> # label_stack s \<rparr>)"
    by (auto simp: good_def depths_ok_def config_def)
qed

lemma hoare_seq2: "hoare P m (\<lambda>_. Q) \<Longrightarrow> hoare Q m' (\<lambda>_. R) \<Longrightarrow> hoare P (lseq [m, m']) (\<lambda>_. R)"
  unfolding lseq.simps by (intro hoare_bind[where Q = "\<lambda>_. Q"] hoare_bind[where Q = "\<lambda>_. R"] hoare_ret)

lemma good_less: "good c st n k s \<Longrightarrow> k' \<le> k \<Longrightarrow> good c st n k' s"
  by (simp add: good_def)

lemma hoare_less: "hoare P m (\<lambda>_. good c st n k) \<Longrightarrow> k' \<le> k \<Longrightarrow> hoare P m (\<lambda>_. good c st n k')"
  by (erule hoare_weaken) (auto intro: good_less)

lemma hoare_block: "hoare (good c st n k) lower_block (\<lambda>_. good c st (Suc n) k)"
  unfolding lower_block_def by (rule hoare_push_label) (simp add: label_ok_def)

lemma hoare_loop: "hoare (good c st n k) lower_loop (\<lambda>_. good c st (Suc n) k)"
  unfolding lower_loop_def
  by (rule hoare_here, rule hoare_less[OF hoare_push_label]) (simp_all add: label_ok_def)

lemma hoare_pop_i32: "hoare (good c (I32 # st) n k) pop_i32_slot (\<lambda>_. good c st n k)"
  using acts_slots(6)[of c "[]"] unfolding acts_def by force

lemma hoare_if: "hoare (good c (I32 # st) n k) lower_if (\<lambda>_. good c st (Suc n) k)"
  unfolding lower_if_def
  by (rule hoare_bind[OF hoare_pop_i32], rule hoare_here, rule hoare_seq2[OF hoare_ins_grows hoare_less[OF hoare_push_label]])
    (simp_all add: label_ok_def)

lemma hoare_add_pending:
  assumes "idx < n" "patch_pos p + 4 \<le> k"
  shows "hoare (good c st n k) (add_pending idx p) (\<lambda>_. good c st n k)"
  unfolding add_pending_def
proof (rule hoare_mod)
  fix s assume s: "good c st n k s"
  let ?l = "label_stack s ! idx"
  have "idx < length (label_stack s)" using s assms by (simp add: good_def)
  then have "label_ok (length (buf (enc s))) ?l" using s by (simp add: good_def)
  moreover have "patch_pos p + 4 \<le> length (buf (enc s))" using s assms by (simp add: good_def)
  ultimately have "label_ok (length (buf (enc s))) (?l\<lparr> pending := pending ?l @ [p] \<rparr>)" by (auto simp: label_ok_def)
  with s show "good c st n k (s\<lparr> label_stack := (label_stack s)[idx := ?l\<lparr> pending := pending ?l @ [p] \<rparr>] \<rparr>)"
    by (auto simp: good_def depths_ok_def config_def dest!: in_set_conv_nth[THEN iffD1] set_update_subset_insert[THEN subsetD])
qed

lemma hoare_branch_to:
  assumes idx: "idx < n" and em: "\<And>off. appends (em off)" and p: "\<And>at. patch_pos (patch at) = at"
  shows "hoare (good c st n k) (branch_to idx em patch) (\<lambda>_. good c st n k)"
  unfolding branch_to_def
proof (rule hoare_get_value)
  fix s assume "good c st n k s"
  then have l: "kind (label_stack s ! idx) = LoopLabel \<Longrightarrow> loop_start (label_stack s ! idx) \<noteq> None"
    using idx by (auto simp: good_def label_ok_def)
  have pend: "hoare (good c st n at) (lseq [ins (em 0), add_pending idx (patch at)]) (\<lambda>_. good c st n k)" if "k \<le> at" for at
    using that by (intro hoare_seq2[OF hoare_ins_grows[OF em]] hoare_less[OF hoare_add_pending[OF idx]]) (simp_all add: p)
  show "hoare (good c st n k) (lbind here (\<lambda>at. case kind (label_stack s ! idx) of
         LoopLabel \<Rightarrow> (case loop_start (label_stack s ! idx) of None \<Rightarrow> lpanic | Some target \<Rightarrow> ins (em (offset_to target at)))
       | _ \<Rightarrow> lseq [ins (em 0), add_pending idx (patch at)])) (\<lambda>_. good c st n k)"
    by (rule hoare_here) (use l pend in \<open>auto intro: hoare_less[OF hoare_ins[OF em]] simp del: lseq.simps split: LabelKind.split option.split\<close>)
qed

lemma hoare_label_index:
  assumes "unat d < n" "hoare (good c st n k) (f (unat d)) Q"
  shows "hoare (good c st n k) (lbind (label_index d) f) Q"
  unfolding label_index_def lbind_assoc using assms by (intro hoare_get_value) (auto simp: good_def)

lemma hoare_br: "unat d < n \<Longrightarrow> hoare (good c st n k) (lower_br d) (\<lambda>_. good c st n k)"
  unfolding lower_br_def by (rule hoare_label_index, assumption, rule hoare_branch_to) simp_all

lemma hoare_br_if: "unat d < n \<Longrightarrow> hoare (good c (I32 # st) n k) (lower_br_if d) (\<lambda>_. good c st n k)"
  unfolding lower_br_if_def
  by (rule hoare_bind[OF hoare_pop_i32], rule hoare_label_index, assumption, rule hoare_branch_to) simp_all

lemma hoare_or_out_of_range:
  "(\<And>w. hoare P (f w) Q) \<Longrightarrow> hoare P (lbind (or_out_of_range r) f) Q"
  by (cases r) (auto simp: or_out_of_range_def hoare_def lbind_def lfail_def lret_def)

lemma hoare_patch_pending: "patch_pos p + 4 \<le> k \<Longrightarrow> hoare (good c st n k) (patch_pending target p) (\<lambda>_. good c st n k)"
  by (cases p) (auto intro!: hoare_or_out_of_range hoare_patch_at)

lemma hoare_patch_cbz: "at + 4 \<le> k \<Longrightarrow> hoare (good c st n k) (patch_cbz target at) (\<lambda>_. good c st n k)"
  unfolding patch_cbz_def rt_from_cbz_at_def lbind_assoc
  by (rule hoare_get_value) (auto simp: good_def[of c st n k] intro!: hoare_or_out_of_range hoare_patch_at)

lemma hoare_seq: "(\<And>m. m \<in> set ms \<Longrightarrow> hoare P m (\<lambda>_. P)) \<Longrightarrow> hoare P (lseq ms) (\<lambda>_. P)"
  by (induction ms) (auto intro: hoare_bind hoare_ret)

text \<open>The end of a block patches instructions that lie in the buffer.\<close>

lemma hoare_close_label:
  assumes "label_ok k l"
  shows "hoare (good c st n k)
     (case kind l of
        BlockLabel \<Rightarrow> lseq (map (patch_pending target) (pending l))
      | LoopLabel \<Rightarrow> lret ()
      | IfLabel cond_branch_pos \<Rightarrow> lseq (patch_cbz target cond_branch_pos # map (patch_pending target) (pending l))
      | IfElseLabel else_skip_pos \<Rightarrow> lseq (patch_pending target (PatchB else_skip_pos) # map (patch_pending target) (pending l)))
     (\<lambda>_. good c st n k)"
proof -
  have pend: "hoare (good c st n k) m (\<lambda>_. good c st n k)" if "m \<in> set (map (patch_pending target) (pending l))" for m
    using that assms by (auto simp: label_ok_def intro: hoare_patch_pending)
  show ?thesis
  proof (cases "kind l")
    case (IfLabel at)
    with assms have "at + 4 \<le> k" by (simp add: label_ok_def)
    with pend show ?thesis unfolding IfLabel LabelKind.case by (intro hoare_seq) (auto intro: hoare_patch_cbz)
  next
    case (IfElseLabel at)
    with assms have "at + 4 \<le> k" by (simp add: label_ok_def)
    with pend show ?thesis unfolding IfElseLabel LabelKind.case by (intro hoare_seq) (auto intro: hoare_patch_pending simp del: patch_pending.simps)
  next
    case BlockLabel
    with pend show ?thesis unfolding BlockLabel LabelKind.case by (intro hoare_seq) auto
  qed (simp add: hoare_ret[where Q = "\<lambda>_. good c st n k"])
qed

lemma hoare_block_end: "hoare (good c st (Suc n) k) lower_block_end (\<lambda>_. good c st n k)"
  unfolding lower_block_end_def
proof (rule hoare_get)
  fix s assume s: "good c st (Suc n) k s"
  then obtain l rest where ls: "label_stack s = l # rest" by (cases "label_stack s") (auto simp: good_def)
  let ?k = "length (buf (enc s))"
  have l: "label_ok ?k l" using s by (simp add: good_def ls)
  have pop: "hoare (\<lambda>s'. s' = s) (lmod (\<lambda>s. s\<lparr> label_stack := rest \<rparr>)) (\<lambda>_. good c st n ?k)"
    by (rule hoare_mod) (use s in \<open>auto simp: good_def ls config_def depths_ok_def\<close>)
  have "hoare (good c st n ?k) (lbind here (\<lambda>target. case kind l of
        BlockLabel \<Rightarrow> lseq (map (patch_pending target) (pending l))
      | LoopLabel \<Rightarrow> lret ()
      | IfLabel cond_branch_pos \<Rightarrow> lseq (patch_cbz target cond_branch_pos # map (patch_pending target) (pending l))
      | IfElseLabel else_skip_pos \<Rightarrow> lseq (patch_pending target (PatchB else_skip_pos) # map (patch_pending target) (pending l))))
     (\<lambda>_. good c st n k)"
    by (rule hoare_here, rule hoare_less[OF hoare_close_label[OF label_ok_mono[OF l]]])
      (use s in \<open>auto simp: good_def\<close>)
  from hoare_bind[OF pop this] show "hoare (\<lambda>s'. s' = s) (case label_stack s of
         [] \<Rightarrow> lfail UnbalancedEnd
       | l # rest \<Rightarrow>
           lbind (lmod (\<lambda>s. s\<lparr> label_stack := rest \<rparr>)) (\<lambda>_. lbind here (\<lambda>target.
             case kind l of
               BlockLabel \<Rightarrow> lseq (map (patch_pending target) (pending l))
             | LoopLabel \<Rightarrow> lret ()
             | IfLabel cond_branch_pos \<Rightarrow> lseq (patch_cbz target cond_branch_pos # map (patch_pending target) (pending l))
             | IfElseLabel else_skip_pos \<Rightarrow>
                 lseq (patch_pending target (PatchB else_skip_pos) # map (patch_pending target) (pending l))))) (\<lambda>_. good c st n k)"
    by (simp add: ls del: lseq.simps)
qed

lemma hoare_function_end:
  assumes "length st \<le> 1"
  shows "hoare (good c st n k) lower_function_end (\<lambda>_. good c [] n k)"
proof -
  have slots: "hoare (good c [t] n k) m (\<lambda>_. good c [] n k)" if "acts c [t] [] m" for t and m :: "unit lowering"
    using that unfolding acts_def by force
  have body: "hoare (good c st n k) (case st of
              [] \<Rightarrow> lret ()
            | [I32] \<Rightarrow> lbind pop_i32_slot (\<lambda>_. lret ())
            | [I64] \<Rightarrow> lbind pop_i64_slot (\<lambda>_. lret ())
            | [F32] \<Rightarrow> lbind pop_f32_slot (\<lambda>v. ins (fmov_w_from_s X0 v))
            | [F64] \<Rightarrow> lbind pop_f64_slot (\<lambda>v. ins (fmov_x_from_d X0 v))
            | [V128] \<Rightarrow> lfail V128ReturnUnsupported
            | _ \<Rightarrow> lfail StackNotSingleton) (\<lambda>_. good c [] n k)"
    using assms
    by (cases st; (cases "hd st")?)
      (auto intro!: slots acts_bind[OF acts_slots(6) acts_ret] acts_bind[OF acts_slots(7) acts_ret] acts_bind[OF acts_slots(8) acts_ins]
        acts_bind[OF acts_slots(9) acts_ins] hoare_fail hoare_ret[where Q = "\<lambda>_. good c [] n k"])
  have tail: "hoare (good c [] n k) (lseq [emit_epilogue, ins (ret_insn X30)]) (\<lambda>_. good c [] n k)"
    by (rule hoare_seq2[OF acts_hoare[where ts = "[]" and st = "[]", simplified] hoare_ins]) (simp_all add: acts_epilogue)
  have flush: "hoare (good c st n k) flush_pending_spill (\<lambda>_. good c st n k)" "hoare (good c st n k) flush_pending_fp_spill (\<lambda>_. good c st n k)"
    using acts_flush[of c "[]"] unfolding acts_def by force+
  show ?thesis
    unfolding lower_function_end_def
  proof (rule hoare_bind[OF flush(1)], rule hoare_bind[OF flush(2)], rule hoare_get_value)
    fix s assume "good c st n k s"
    then have "stack s = st" by (simp add: good_def)
    with hoare_bind[OF body tail] show "hoare (good c st n k) (lbind (case stack s of
              [] \<Rightarrow> lret ()
            | [I32] \<Rightarrow> lbind pop_i32_slot (\<lambda>_. lret ())
            | [I64] \<Rightarrow> lbind pop_i64_slot (\<lambda>_. lret ())
            | [F32] \<Rightarrow> lbind pop_f32_slot (\<lambda>v. ins (fmov_w_from_s X0 v))
            | [F64] \<Rightarrow> lbind pop_f64_slot (\<lambda>v. ins (fmov_x_from_d X0 v))
            | [V128] \<Rightarrow> lfail V128ReturnUnsupported
            | _ \<Rightarrow> lfail StackNotSingleton) (\<lambda>_. lseq [emit_epilogue, ins (ret_insn X30)])) (\<lambda>_. good c [] n k)"
      by (simp del: lseq.simps)
  qed
qed

section \<open>Validated operations\<close>

definition agrees :: "Signatures \<Rightarrow> Config \<Rightarrow> bool" where
  "agrees sg c \<longleftrightarrow>
     v_locals sg = map loc_type (cf_locals c) \<and> v_globals sg = cf_globals c \<and> length (cf_mutable c) = length (cf_globals c) \<and>
     v_calls sg = cf_sigs c \<and> cf_count c = length (cf_sigs c) \<and> v_indirect sg = cf_indirect c"

lemma pop_all_Ok: "pop_all st ts = Ok rest \<longleftrightarrow> st = ts @ rest"
  by (induction ts arbitrary: st) (auto simp: pop_expect_def split: list.splits)

lemma apply_type_Ok: "apply_type ty v = Ok v' \<longleftrightarrow> (\<exists>st. vstack v = fst ty @ st \<and> v' = v\<lparr> vstack := snd ty @ st \<rparr>)"
  by (auto simp: apply_type_def pop_all_Ok split: sum.splits) (metis pop_all_Ok sum.distinct(1))

lemma hoare_apply:
  assumes "apply_type (ts, us) v = Ok v'" "acts c ts us m"
  shows "hoare (good c (vstack v) (unat (label_depth v)) k) m (\<lambda>_. good c (vstack v') (unat (label_depth v')) k)"
  using assms by (auto simp: apply_type_Ok acts_def)

lemma hoare_special:
  assumes sg: "agrees sg c" and v: "validate_special sg op v = Ok v'" and n: "unat (label_depth v) + 1 < 2 ^ 32"
    and op: "op \<notin> {ElseOp, Return, End}" "instr_type op = None"
  shows "hoare (good c (vstack v) (unat (label_depth v)) k) (lower_op op) (\<lambda>_. good c (vstack v') (unat (label_depth v')) k)"
proof -
  have up: "unat (label_depth v + 1) = Suc (unat (label_depth v))"
    using n by (simp add: unat_word_ariths)
  show ?thesis
  proof (cases op)
    case (LocalGet i)
    with v sg acts_locals(1)[of i c] show ?thesis
      by (auto simp: validate_special_def agrees_def intro: hoare_apply split: if_splits)
  next
    case (LocalSet i)
    with v sg acts_locals(2)[of i c] show ?thesis
      by (auto simp: validate_special_def agrees_def intro: hoare_apply split: if_splits)
  next
    case (LocalTee i)
    with v sg have i: "unat i < length (cf_locals c)" and v': "v' = v"
      and ts: "vstack v = loc_type (cf_locals c ! unat i) # tl (vstack v)"
      by (auto simp: validate_special_def agrees_def neq_Nil_conv split: if_splits)
    have "hoare (good c (vstack v) (unat (label_depth v)) k) (lower_local_tee i) (\<lambda>_. good c (vstack v) (unat (label_depth v)) k)"
      using acts_locals(3)[OF i refl] unfolding acts_def by (subst (1 2) ts) force
    with LocalTee v' show ?thesis by simp
  next
    case (GlobalGet i)
    with v sg acts_globals(1)[of i c] show ?thesis
      by (auto simp: validate_special_def agrees_def intro: hoare_apply split: if_splits)
  next
    case (GlobalSet i)
    with v sg acts_globals(2)[of i c] show ?thesis
      by (auto simp: validate_special_def agrees_def intro: hoare_apply split: if_splits)
  next
    case Drop
    with v obtain t st where "vstack v = t # st" "v' = v\<lparr> vstack := st \<rparr>"
      by (cases "vstack v") (auto simp: validate_special_def split: if_splits)
    with Drop acts_drop[of c t] show ?thesis by (auto simp: acts_def)
  next
    case Select
    with v obtain t st where "vstack v = I32 # t # t # st" "v' = v\<lparr> vstack := t # st \<rparr>"
      by (auto simp: validate_special_def validate_select_def pop_expect_def split: list.splits sum.splits if_splits)
    with Select acts_select[of c t] show ?thesis by (auto simp: acts_def)
  next
    case (Call i)
    with v sg acts_call[of i c] show ?thesis
      by (auto simp: validate_special_def agrees_def sig_type_def intro: hoare_apply split: if_splits)
  next
    case (CallIndirect t)
    with v sg have t: "unat t < length (cf_indirect c)"
      and ty: "apply_type (I32 # fst (sig_type (cf_indirect c ! unat t)), snd (sig_type (cf_indirect c ! unat t))) v = Ok v'"
      by (auto simp: validate_special_def agrees_def apply_type_Ok sig_type_def split: if_splits sum.splits)
    from hoare_apply[OF ty acts_call_indirect[OF t]] CallIndirect show ?thesis by simp
  next
    case Block
    with v hoare_block show ?thesis by (auto simp: validate_special_def up)
  next
    case Loop
    with v hoare_loop show ?thesis by (auto simp: validate_special_def up)
  next
    case IfOp
    with v hoare_if show ?thesis by (auto simp: validate_special_def apply_type_Ok up)
  next
    case (Br d)
    with v hoare_br[of d] show ?thesis
      by (auto simp: validate_special_def word_le_nat_alt split: if_splits)
  next
    case (BrIf d)
    with v hoare_br_if[of d] show ?thesis
      by (auto simp: validate_special_def apply_type_Ok word_le_nat_alt split: if_splits)
  qed (use op in auto)
qed

lemma hoare_op:
  assumes "agrees sg c" "validate_op sg op v = Ok v'" "\<not> unreachable v" "unat (label_depth v) + 1 < 2 ^ 32"
    and "op \<notin> {ElseOp, Return, End}"
  shows "hoare (good c (vstack v) (unat (label_depth v)) k) (lower_op op) (\<lambda>_. good c (vstack v') (unat (label_depth v')) k)"
proof (cases "instr_type op")
  case None
  with assms show ?thesis by (intro hoare_special) (auto simp: validate_op_def split: if_splits)
next
  case (Some ty)
  then have "acts c (fst ty) (snd ty) (lower_op op)" by (intro lower_acts) simp
  with Some assms show ?thesis
    by (cases ty) (auto simp: validate_op_def intro: hoare_apply split: if_splits)
qed

section \<open>Validated function bodies\<close>

text \<open>
  The bodies on which validator and lowering agree: balanced, closed by the \<open>end\<close> of the function,
  without \<open>else\<close> and \<open>return\<close>, and with every unconditional branch at the end of its block.
\<close>

fun supported :: "nat \<Rightarrow> WasmOp list \<Rightarrow> bool" where
  "supported d [] = False"
| "supported d [op] = (op = End \<and> d = 0)"
| "supported d (op # op' # ops) =
     (if op = End then 0 < d \<and> supported (d - 1) (op' # ops)
      else op \<noteq> ElseOp \<and> op \<noteq> Return \<and> (case op of Br _ \<Rightarrow> op' = End | _ \<Rightarrow> True) \<and>
           supported (if op = Block \<or> op = Loop \<or> op = IfOp then d + 1 else d) (op' # ops))"

lemma hoare_loop_marks:
  "hoare (good c st n k) (lwhen b (enter_loop bound)) (\<lambda>_. good c st n k)" "hoare (good c st n k) (lwhen b leave_loop) (\<lambda>_. good c st n k)"
proof -
  have "hoare (good c st n k) (enter_loop bound) (\<lambda>_. good c st n k)" "hoare (good c st n k) leave_loop (\<lambda>_. good c st n k)"
    unfolding enter_loop_def leave_loop_def by (auto simp: config_def intro!: hoare_neutral)
  then show "hoare (good c st n k) (lwhen b (enter_loop bound)) (\<lambda>_. good c st n k)"
      "hoare (good c st n k) (lwhen b leave_loop) (\<lambda>_. good c st n k)"
    by (simp_all add: lwhen_def hoare_ret[where Q = "\<lambda>_. good c st n k"])
qed

lemma hoare_lower_from_Cons:
  assumes "hoare (good c st n k) (lower_op op) (\<lambda>_. good c st' n' k)"
    and "hoare (good c st' n' k) (lower_from b e (j + 1) ops) (\<lambda>_. Q)"
  shows "hoare (good c st n k) (lower_from b e j (op # ops)) (\<lambda>_. Q)"
  unfolding lower_from.simps lseq.simps
  by (rule hoare_bind[OF hoare_loop_marks(1)], rule hoare_bind[OF assms(1)], rule hoare_bind[OF hoare_loop_marks(2)],
      rule hoare_bind[OF assms(2)], rule hoare_ret)

lemma hoare_end:
  "hoare (good c st (Suc n) k) (lower_op End) (\<lambda>_. good c st n k)"
  "length st \<le> 1 \<Longrightarrow> hoare (good c st 0 k) (lower_op End) (\<lambda>_. good c [] 0 k)"
  unfolding lower_op.simps
  by (rule hoare_get_value, auto simp: good_def[of c st] intro: hoare_block_end hoare_function_end)+

lemma validate_End:
  assumes "validate_op sg End v = Ok v'"
  shows "vstack v' = vstack v" "unat (label_depth v') = unat (label_depth v) - 1" "\<not> unreachable v'"
  using assms
  by (auto simp: validate_op_def validate_unreachable_def validate_special_def unat_saturating_sub split: if_splits)

lemma validate_other:
  assumes "validate_op sg op v = Ok v'" "\<not> unreachable v" "op \<noteq> End" "op \<noteq> Return" "unat (label_depth v) + 1 < 2 ^ 32"
  shows "unat (label_depth v') = (if op = Block \<or> op = Loop \<or> op = IfOp then unat (label_depth v) + 1 else unat (label_depth v))"
    "unreachable v' \<longleftrightarrow> (\<exists>d. op = Br d)"
proof -
  have "unat (label_depth v + 1) = Suc (unat (label_depth v))" using assms(5) by (simp add: unat_word_ariths)
  with assms show "unat (label_depth v') = (if op = Block \<or> op = Loop \<or> op = IfOp then unat (label_depth v) + 1 else unat (label_depth v))"
    "unreachable v' \<longleftrightarrow> (\<exists>d. op = Br d)"
    by (cases op; auto simp: validate_op_def validate_special_def validate_select_def apply_type_Ok split: if_splits sum.splits list.splits)+
qed

lemma hoare_body:
  assumes "agrees sg c" "supported d ops" "validate_loop sg i ops v = Ok v'" "unat (label_depth v) = d"
    "unreachable v \<longrightarrow> hd ops = End" "d + length ops < 2 ^ 32" "length (vstack v') \<le> 1"
  shows "hoare (good c (vstack v) d k) (lower_from b e j ops) (\<lambda>_. good c [] 0 k)"
  using assms
proof (induction d ops arbitrary: i v j rule: supported.induct)
  case (2 d op)
  then have "op = End" "d = 0" and v': "validate_op sg End v = Ok v'" by (auto split: sum.splits)
  moreover have "length (vstack v) \<le> 1" using validate_End[OF v'] 2 by simp
  moreover have "hoare (good c [] 0 k) (lower_from b e (j + 1) []) (\<lambda>_. good c [] 0 k)"
    by (simp add: hoare_ret[where Q = "\<lambda>_. good c [] 0 k"])
  ultimately show ?case using hoare_lower_from_Cons[OF hoare_end(2)] by blast
next
  case (3 d op op' ops)
  from "3.prems" obtain w where w: "validate_op sg op v = Ok w" and rest: "validate_loop sg (i + 1) (op' # ops) w = Ok v'"
    by (auto split: sum.splits)
  show ?case
  proof (cases "op = End")
    case True
    with "3.prems" w have d: "0 < d" and w': "vstack w = vstack v" "unat (label_depth w) = d - 1" "\<not> unreachable w"
      and sup: "supported (d - 1) (op' # ops)" using validate_End[of sg v w] by auto
    have "hoare (good c (vstack w) (d - 1) k) (lower_from b e (j + 1) (op' # ops)) (\<lambda>_. good c [] 0 k)"
      by (rule "3.IH"(1)[OF True "3.prems"(1) sup rest]) (use w' "3.prems"(6,7) in simp_all)
    moreover have "hoare (good c (vstack v) d k) (lower_op op) (\<lambda>_. good c (vstack w) (d - 1) k)"
      using hoare_end(1)[of c "vstack v" "d - 1" k] d True w' by simp
    ultimately show ?thesis by (rule hoare_lower_from_Cons[rotated])
  next
    case False
    with "3.prems" have live: "\<not> unreachable v" and op: "op \<notin> {ElseOp, Return, End}" and depth: "unat (label_depth v) + 1 < 2 ^ 32" by auto
    let ?d = "if op = Block \<or> op = Loop \<or> op = IfOp then d + 1 else d"
    have w': "unat (label_depth w) = ?d" "unreachable w \<longrightarrow> op' = End"
      using validate_other[OF w live _ _ depth] op "3.prems" False by auto
    have sup: "supported ?d (op' # ops)" using "3.prems"(2) False by simp
    have "hoare (good c (vstack w) ?d k) (lower_from b e (j + 1) (op' # ops)) (\<lambda>_. good c [] 0 k)"
      by (rule "3.IH"(2)[OF False "3.prems"(1) sup rest]) (use w' "3.prems"(6,7) in simp_all)
    moreover have "hoare (good c (vstack v) d k) (lower_op op) (\<lambda>_. good c (vstack w) ?d k)"
      using hoare_op[OF "3.prems"(1) w live depth op] "3.prems"(4) w' by simp
    ultimately show ?thesis by (rule hoare_lower_from_Cons[rotated])
  qed
qed simp

section \<open>Validated functions\<close>

lemma hoare_alloc:
  "hoare (good c st n k) (alloc_int loc i) (\<lambda>l s. good c st n k s \<and> (\<exists>r. l = loc r))"
  "(\<And>v. appends (zero v)) \<Longrightarrow> hoare (good c st n k) (alloc_fp loc' zero f) (\<lambda>l s. good c st n k s \<and> (\<exists>v. l = loc' v))"
proof -
  have run: "hoare (good c st n k) (lbind (ins em) (\<lambda>_. lret x)) (\<lambda>y s. good c st n k s \<and> y = x)"
    if "appends em" for em and x :: 'x
    using hoare_ins[OF that, of c st n k] by (auto simp: hoare_def lbind_def lret_def split: sum.splits fault.splits)
  show "hoare (good c st n k) (alloc_int loc i) (\<lambda>l s. good c st n k s \<and> (\<exists>r. l = loc r))"
    unfolding alloc_int_def Let_def by (auto intro!: hoare_fail hoare_weaken[OF run])
  show "(\<And>v. appends (zero v)) \<Longrightarrow> hoare (good c st n k) (alloc_fp loc' zero f) (\<lambda>l s. good c st n k s \<and> (\<exists>v. l = loc' v))"
    unfolding alloc_fp_def Let_def by (auto intro!: hoare_fail hoare_weaken[OF run])
qed

lemma hoare_allocate_locals:
  "hoare (good c st n k) (allocate_locals tys i f) (\<lambda>locs s. good c st n k s \<and> map loc_type locs = tys)"
proof (induction tys arbitrary: i f)
  case (Cons ty tys)
  have one: "hoare (good c st n k) (case ty of
              I32 \<Rightarrow> alloc_int LocI32 i
            | I64 \<Rightarrow> alloc_int LocI64 i
            | F32 \<Rightarrow> alloc_fp LocF32 (\<lambda>v. fmov_s_from_w v ZR) f
            | F64 \<Rightarrow> alloc_fp LocF64 (\<lambda>v. fmov_d_from_x v ZR) f
            | V128 \<Rightarrow> alloc_fp LocV128 (\<lambda>v. eor_16b_vec v v v) f) (\<lambda>l s. good c st n k s \<and> loc_type l = ty)"
    by (cases ty) (auto intro!: hoare_weaken[OF hoare_alloc(1)] hoare_weaken[OF hoare_alloc(2)])
  have rest: "hoare (\<lambda>s. good c st n k s \<and> loc_type l = ty)
      (lbind (if is_int ty then allocate_locals tys (i + 1) f else allocate_locals tys i (f + 1)) (\<lambda>locs. lret (l # locs)))
      (\<lambda>locs s. good c st n k s \<and> map loc_type locs = ty # tys)" for l
  proof (rule hoare_bind)
    show "hoare (\<lambda>s. good c st n k s \<and> loc_type l = ty) (if is_int ty then allocate_locals tys (i + 1) f else allocate_locals tys i (f + 1))
        (\<lambda>locs s. good c st n k s \<and> loc_type l = ty \<and> map loc_type locs = tys)"
      using Cons.IH by (fastforce simp: hoare_def split: sum.splits fault.splits)
  qed (auto simp: hoare_def lret_def)
  show ?case unfolding allocate_locals.simps by (rule hoare_bind[OF one rest])
qed (auto simp: hoare_def lret_def)

lemma hoare_place_locals:
  "hoare (good c [] 0 k) (place_locals tys) (\<lambda>_ s. \<exists>locs. map loc_type locs = tys \<and> good (c\<lparr> cf_locals := locs \<rparr>) [] 0 k s)"
  unfolding place_locals_def
  by (rule hoare_bind[OF hoare_allocate_locals], rule hoare_mod)
    (auto simp: good_def config_def depths_ok_def)

lemma acts_prologue: "acts c ts ts (emit_prologue m sz)" "acts c ts ts (set_frame m sz targets memory)"
proof -
  show "acts c ts ts (emit_prologue m sz)" unfolding emit_prologue_def by (rule acts_seq) (auto intro!: acts_ins)
  show "acts c ts ts (set_frame m sz targets memory)"
    unfolding set_frame_def by (auto simp: acts_def config_def intro!: hoare_neutral)
qed

lemma acts_rehydrate: "acts c ts ts (rehydrate tys locs i f)"
  by (induction tys locs i f rule: rehydrate.induct) (auto intro!: acts_fail acts_ret acts_seq acts_ins simp del: lseq.simps)

lemma acts_param_rehydration:
  "length tys \<le> length (cf_locals c) \<Longrightarrow> acts c ts ts (emit_param_rehydration tys)"
  unfolding emit_param_rehydration_def by (rule acts_get_config) (auto simp: config_def intro: acts_rehydrate)

lemma acts_global_inits:
  assumes "length inits = length (cf_globals c)"
  shows "acts c ts ts (emit_global_inits inits)"
proof -
  have "acts c ts ts (emit_global_init i init)" for i init
    unfolding emit_global_init_def Let_def
    by (rule acts_bind[OF acts_get]) (auto intro!: acts_fail acts_ret acts_bind[OF acts_load_reg(1)] acts_bind[OF acts_load_reg(2)] acts_bind[OF acts_ins])
  then show ?thesis
    unfolding emit_global_inits_def using assms by (intro acts_get_config) (auto simp: config_def intro!: acts_seq)
qed

lemma hoare_configure:
  assumes "length types = length mut" "cf_count c = 0"
  shows "hoare (good c [] 0 k) (configure msize types mut sigs)
    (\<lambda>_. good (c\<lparr> cf_globals := types, cf_mutable := mut, cf_count := length sigs, cf_sigs := sigs \<rparr>) [] 0 k)"
proof -
  let ?c = "c\<lparr> cf_globals := types, cf_mutable := mut \<rparr>"
  have 1: "hoare (good c [] 0 k) (lmod (set_mem_size msize)) (\<lambda>_. good c [] 0 k)"
    unfolding set_mem_size_def by (auto simp: config_def intro!: hoare_neutral)
  have 2: "hoare (good c [] 0 k) (set_globals types mut) (\<lambda>_. good ?c [] 0 k)"
    using assms(1) by (auto simp: set_globals_def good_def config_def depths_ok_def intro!: hoare_fail hoare_mod)
  have 3: "hoare (good ?c [] 0 k) (lmod (set_module_fn_sigs sigs))
      (\<lambda>_. good (?c\<lparr> cf_count := length sigs, cf_sigs := sigs \<rparr>) [] 0 k)"
    using assms(2)
    by (cases c) (fastforce simp: set_module_fn_sigs_def good_def config_def depths_ok_def relocs_ok_def intro!: hoare_mod)
  show ?thesis
    unfolding configure_def lseq.simps
    by (rule hoare_bind[OF 1], rule hoare_bind[OF 2], rule hoare_bind[OF 3], rule hoare_ret)
qed

text \<open>A validated function in the supported fragment is lowered, or refused for want of a resource.\<close>

lemma blank_good: "good (config blank) [] 0 0 blank"
  by (simp add: good_def config_def depths_ok_def relocs_ok_def blank_def)

definition safe_outcome :: "'a compiled \<Rightarrow> bool" where
  "safe_outcome r = (case r of Err Panic \<Rightarrow> False | Err (Failure e) \<Rightarrow> resource_error e | Ok _ \<Rightarrow> True)"

lemma new_function_good:
  shows "case new_function_with_memory_typed tys [] base of
      Err Panic \<Rightarrow> False
    | Err (Failure e) \<Rightarrow> resource_error e
    | Ok s \<Rightarrow> \<exists>c. good c [] 0 0 s \<and> map loc_type (cf_locals c) = tys \<and> cf_count c = 0 \<and> cf_indirect c = []"
proof -
  let ?c = "config blank"
  have keep: "hoare (good c [] 0 0) m (\<lambda>_. good c [] 0 0)" if "acts c [] [] m" for c and m :: "unit lowering"
    using that unfolding acts_def by force
  have frame: "hoare (\<lambda>s. \<exists>locs. map loc_type locs = tys \<and> good (?c\<lparr> cf_locals := locs \<rparr>) [] 0 0 s) (set_frame a b d e)
      (\<lambda>_ s. \<exists>locs. map loc_type locs = tys \<and> good (?c\<lparr> cf_locals := locs \<rparr>) [] 0 0 s)" for a b d e
    using keep[OF acts_prologue(2)] by (fastforce simp: hoare_def split: sum.splits fault.splits)
  have "hoare (good ?c [] 0 0) (lseq [emit_prologue a b, ins (str_imm MEM_BASE_REG SP x28_save_off), load_u64_into_reg MEM_BASE_REG base,
      place_locals tys, set_frame a b [] True])
      (\<lambda>_ s. \<exists>locs. map loc_type locs = tys \<and> good (?c\<lparr> cf_locals := locs \<rparr>) [] 0 0 s)" for a b
    unfolding lseq.simps
    by (rule hoare_bind[OF keep[OF acts_prologue(1)]], rule hoare_bind[OF hoare_ins], simp, rule hoare_bind[OF keep[OF acts_load_reg(2)]],
        rule hoare_bind[OF hoare_place_locals], rule hoare_bind[OF frame], rule hoare_ret)
  from this[of "int_locals tys" "of_nat (unat x28_save_off + 16)", unfolded hoare_def, rule_format, OF blank_good]
  show ?thesis
    by (fastforce simp: new_function_with_memory_typed_def built_def Let_def config_def blank_def split: sum.splits fault.splits)
qed

lemma hoare_function:
  assumes s: "good c [] 0 0 s" "map loc_type (cf_locals c) = tys" "cf_count c = 0" "cf_indirect c = []"
    and lens: "length g_types = length g_mutable" "length g_inits = length g_types" "length (params sig) \<le> length tys"
    and valid: "validate_full tys g_types ops sigs [] = Ok ()" "supported 0 ops" "length ops < 2 ^ 32"
  shows "safe_outcome (lseq [configure msize g_types g_mutable sigs, lwhen b (emit_global_inits g_inits),
      lwhen b' (emit_param_rehydration (params sig)), lower_all ops] s)"
proof -
  let ?c = "c\<lparr> cf_globals := g_types, cf_mutable := g_mutable, cf_count := length sigs, cf_sigs := sigs \<rparr>"
  let ?sg = "\<lparr> v_locals = tys, v_globals = g_types, v_calls = sigs, v_indirect = [] \<rparr>"
  let ?v = "\<lparr> vstack = [], label_depth = 0, unreachable = False \<rparr>"
  obtain v' where v': "validate_loop ?sg 0 ops ?v = Ok v'" "length (vstack v') = 1"
    using valid(1) by (auto simp: validate_full_def split: sum.splits if_splits)
  have agree: "agrees ?sg ?c" using s lens by (simp add: agrees_def)
  have body: "hoare (good ?c [] 0 0) (lower_all ops) (\<lambda>_. good ?c [] 0 0)"
    using hoare_body[OF agree valid(2) v'(1)] v'(2) valid(3) unfolding lower_all_def by simp
  have keep: "hoare (good ?c [] 0 0) m (\<lambda>_. good ?c [] 0 0)" if "acts ?c [] [] m" for m :: "unit lowering"
    using that unfolding acts_def by force
  have "length (params sig) \<le> length (cf_locals ?c)" using lens(3) s(2) by auto
  then have "hoare (good c [] 0 0) (lseq [configure msize g_types g_mutable sigs, lwhen b (emit_global_inits g_inits),
      lwhen b' (emit_param_rehydration (params sig)), lower_all ops]) (\<lambda>_. good ?c [] 0 0)"
    unfolding lseq.simps
    by (intro hoare_bind[OF hoare_configure[OF lens(1) s(3)]] hoare_bind[OF keep[OF acts_when[OF acts_global_inits]]]
        hoare_bind[OF keep[OF acts_when[OF acts_param_rehydration]]] hoare_bind[OF body])
      (auto simp: lens hoare_ret[where Q = "\<lambda>_. good ?c [] 0 0"])
  with s(1) show ?thesis
    by (fastforce simp: hoare_def safe_outcome_def split: sum.splits fault.splits)
qed

lemma lower_one_function_safe:
  assumes declared: "collect (map valtype_from_byte (local_types body)) = Ok declared"
    and lens: "length g_types = length g_mutable" "length g_inits = length g_types"
    and valid: "validate_full (params sig @ declared) g_types (body_ops body) sigs [] = Ok ()" "supported 0 (body_ops body)"
      "length (body_ops body) < 2 ^ 32"
  shows "safe_outcome (lower_one_function body sig sigs g_types g_mutable g_inits entry base msize)"
proof -
  let ?new = "new_function_with_memory_typed (params sig @ declared) [] base"
  show ?thesis
  proof (cases ?new)
    case (Inl e)
    with new_function_good[of "params sig @ declared" base] show ?thesis
      by (cases e) (auto simp: lower_one_function_def declared safe_outcome_def)
  next
    case (Inr s)
    with new_function_good[of "params sig @ declared" base] obtain c
      where c: "good c [] 0 0 s" "map loc_type (cf_locals c) = params sig @ declared" "cf_count c = 0" "cf_indirect c = []" by auto
    note run = hoare_function[OF c lens _ valid, of sig msize "entry \<and> g_inits \<noteq> []" "params sig \<noteq> []"]
    then show ?thesis
      by (auto simp: lower_one_function_def declared Inr safe_outcome_def take_relocations_def simp del: lseq.simps split: sum.splits fault.splits)
  qed
qed

end
