(* ===== verification/FrameProps.thy ===== *)
theory FrameProps
  imports LowerSafe
begin

text \<open>
  The frame of a generated function: which registers hold locals and operands, and what the prologue
  saves against what the epilogue restores.
\<close>

section \<open>Register bands\<close>

fun int_reg :: "LocalLoc \<Rightarrow> Reg list" where
  "int_reg (LocI32 r) = [r]"
| "int_reg (LocI64 r) = [r]"
| "int_reg _ = []"

fun fp_reg :: "LocalLoc \<Rightarrow> Vreg list" where
  "fp_reg (LocF32 v) = [v]"
| "fp_reg (LocF64 v) = [v]"
| "fp_reg (LocV128 v) = [v]"
| "fp_reg _ = []"

text \<open>The registers of the operand stack: the integer slots, and the vector slots with the two scratch registers.\<close>

definition operand_regs :: "Lowerer \<Rightarrow> Reg list" where
  "operand_regs s = List.map_filter (int_depth_to_reg s) [0..<max_reg_int s]"

definition vector_slots :: "Vreg list" where
  "vector_slots = map (\<lambda>d. Vreg (of_nat d)) [0..<MAX_F32_STACK] @ [FP_SPILL_SCRATCH_A, FP_SPILL_SCRATCH_B]"

definition reg_range :: "nat \<Rightarrow> nat \<Rightarrow> Reg list" where
  "reg_range a b = map (\<lambda>k. Reg (of_nat k)) [a..<b]"

definition vreg_range :: "nat \<Rightarrow> nat \<Rightarrow> Vreg list" where
  "vreg_range a b = map (\<lambda>k. Vreg (of_nat k)) [a..<b]"

lemma alloc_int_Ok:
  assumes "alloc_int loc i s = Ok (l, s')"
  shows "unat i < 9 \<and> l = loc (Reg (of_nat (19 + unat i)))"
  using assms by (auto simp: alloc_int_def Let_def lbind_def lret_def lfail_def layout_defs split: if_splits sum.splits)

lemma alloc_fp_Ok:
  assumes "alloc_fp loc zero i s = Ok (l, s')"
  shows "unat i < 14 \<and> l = loc (Vreg (of_nat (16 + unat i)))"
  using assms by (auto simp: alloc_fp_def Let_def lbind_def lret_def lfail_def layout_defs split: if_splits sum.splits)

definition fp_locals :: "ValType list \<Rightarrow> nat" where
  "fp_locals types = length (filter (\<lambda>t. \<not> is_int t) types)"

lemma allocate_locals_regs:
  assumes "allocate_locals tys i f s = Ok (locs, s')" "unat i \<le> 9" "unat f \<le> 14"
  shows "concat (map int_reg locs) = reg_range (19 + unat i) (19 + unat i + int_locals tys) \<and> unat i + int_locals tys \<le> 9 \<and>
    concat (map fp_reg locs) = vreg_range (16 + unat f) (16 + unat f + fp_locals tys) \<and> unat f + fp_locals tys \<le> 14"
  using assms
proof (induction tys arbitrary: i f s locs)
  case Nil
  then show ?case by (simp add: lret_def reg_range_def vreg_range_def int_locals_def fp_locals_def)
next
  case (Cons ty tys)
  have suc: "unat (x + 1) = unat x + 1" if "unat x < 20" for x :: u8
    using that by (simp add: unat_word_ariths)
  obtain l s1 locs1 where run: "(case ty of
              I32 \<Rightarrow> alloc_int LocI32 i
            | I64 \<Rightarrow> alloc_int LocI64 i
            | F32 \<Rightarrow> alloc_fp LocF32 (\<lambda>v. fmov_s_from_w v ZR) f
            | F64 \<Rightarrow> alloc_fp LocF64 (\<lambda>v. fmov_d_from_x v ZR) f
            | V128 \<Rightarrow> alloc_fp LocV128 (\<lambda>v. eor_16b_vec v v v) f) s = Ok (l, s1)"
    and locs: "locs = l # locs1"
    and more: "(if is_int ty then allocate_locals tys (i + 1) f else allocate_locals tys i (f + 1)) s1 = Ok (locs1, s')"
    using Cons.prems(1) by (auto simp: lbind_def lret_def split: sum.splits)
  show ?case
  proof (cases "is_int ty")
    case True
    then have rest: "allocate_locals tys (i + 1) f s1 = Ok (locs1, s')" using more by simp
    have l: "int_reg l = [Reg (of_nat (19 + unat i))]" "fp_reg l = []" and i: "unat i < 9"
      using run True by (cases ty; auto dest!: alloc_int_Ok)+
    note IH = Cons.IH[OF rest]
    have "reg_range (19 + unat i) (19 + unat i + Suc (int_locals tys)) =
        Reg (of_nat (19 + unat i)) # reg_range (19 + (unat i + 1)) (19 + (unat i + 1) + int_locals tys)"
      unfolding reg_range_def by (subst upt_rec) (simp add: add.assoc)
    with IH i Cons.prems(3) True l show ?thesis by (auto simp: locs suc int_locals_def fp_locals_def)
  next
    case False
    then have rest: "allocate_locals tys i (f + 1) s1 = Ok (locs1, s')" using more by simp
    have l: "fp_reg l = [Vreg (of_nat (16 + unat f))]" "int_reg l = []" and f: "unat f < 14"
      using run False by (cases ty; auto dest!: alloc_fp_Ok)+
    note IH = Cons.IH[OF rest]
    have "vreg_range (16 + unat f) (16 + unat f + Suc (fp_locals tys)) =
        Vreg (of_nat (16 + unat f)) # vreg_range (16 + (unat f + 1)) (16 + (unat f + 1) + fp_locals tys)"
      unfolding vreg_range_def by (subst upt_rec) (simp add: add.assoc)
    with IH f Cons.prems(2) False l show ?thesis by (auto simp: locs suc int_locals_def fp_locals_def)
  qed
qed


lemma operand_regs_eq:
  assumes "n_int_locals s \<le> 9" "max_reg_int s = 16 + (9 - n_int_locals s)"
  shows "operand_regs s = reg_range 0 16 @ reg_range (19 + n_int_locals s) 28"
proof -
  have low: "List.map_filter (int_depth_to_reg s) [0..<16] = reg_range 0 16"
    by (auto simp: reg_range_def int_depth_to_reg_def layout_defs List.map_filter_def intro!: filter_True)
  have "List.map_filter (int_depth_to_reg s) [16..<max_reg_int s] = map (\<lambda>d. Reg (19 + of_nat (n_int_locals s) + of_nat (d - 16))) [16..<max_reg_int s]"
    by (auto simp: int_depth_to_reg_def layout_defs List.map_filter_def intro!: filter_True)
  also have "\<dots> = reg_range (19 + n_int_locals s) 28"
    using assms by (intro nth_equalityI) (auto simp: reg_range_def)
  finally have high: "List.map_filter (int_depth_to_reg s) [16..<max_reg_int s] = reg_range (19 + n_int_locals s) 28" .
  have "[0..<max_reg_int s] = [0..<16] @ [16..<max_reg_int s]" using assms upt_add_eq_append[of 0 16 "9 - n_int_locals s"] by simp
  then show ?thesis unfolding operand_regs_def using low high by (simp add: List.map_filter_def)
qed

lemma distinct_regs: "distinct ks \<Longrightarrow> \<forall>k \<in> set ks. k < 256 \<Longrightarrow> distinct (map (\<lambda>k. Reg (of_nat k)) ks)"
  by (auto simp: distinct_map inj_on_def word_of_nat_eq_iff take_bit_nat_eq_self)

lemma distinct_vregs: "distinct ks \<Longrightarrow> \<forall>k \<in> set ks. k < 256 \<Longrightarrow> distinct (map (\<lambda>k. Vreg (of_nat k)) ks)"
  by (auto simp: distinct_map inj_on_def word_of_nat_eq_iff take_bit_nat_eq_self)

text \<open>The locals of a new function, and the slots that are left for operands.\<close>

lemma ins_keeps: "ins em s = Ok (u, s') \<Longrightarrow> locals s' = locals s"
  by (auto simp: ins_def split: sum.splits)

lemma new_function_layout:
  assumes "new_function_with_memory_typed tys targets base = Ok s"
  shows "concat (map int_reg (locals s)) = reg_range 19 (19 + int_locals tys)" "int_locals tys \<le> 9"
    "concat (map fp_reg (locals s)) = vreg_range 16 (16 + fp_locals tys)" "fp_locals tys \<le> 14"
    "n_int_locals s = int_locals tys" "max_reg_int s = 16 + (9 - int_locals tys)"
proof -
  obtain s1 s2 locs where alloc: "allocate_locals tys 0 0 s1 = Ok (locs, s2)" and "locals s = locs"
    and "n_int_locals s = int_locals tys" "max_reg_int s = 16 + (9 - int_locals tys)"
    using assms unfolding new_function_with_memory_typed_def Let_def built_def place_locals_def set_frame_def
    by (auto simp: map_sum_Ok lbind_def lmod_def lret_def layout_defs split: sum.splits prod.splits)
  with allocate_locals_regs[OF alloc] show "concat (map int_reg (locals s)) = reg_range 19 (19 + int_locals tys)" "int_locals tys \<le> 9"
    "concat (map fp_reg (locals s)) = vreg_range 16 (16 + fp_locals tys)" "fp_locals tys \<le> 14"
    "n_int_locals s = int_locals tys" "max_reg_int s = 16 + (9 - int_locals tys)"
    by simp_all
qed

text \<open>C13: the registers of a generated function do not overlap: its locals and its operand slots are
  different registers, none of them is a scratch register of the address computation, the memory base,
  the frame pointer, the link register or the stack pointer; and the vector locals, vector slots and
  vector scratch registers are different too.\<close>

theorem register_bands_disjoint:
  assumes "new_function_with_memory_typed tys targets base = Ok s"
  shows "distinct (concat (map int_reg (locals s)) @ operand_regs s @ [X16, X17, MEM_BASE_REG, X29, X30, SP]) \<and>
    distinct (concat (map fp_reg (locals s)) @ vector_slots)"
proof -
  note lay = new_function_layout[OF assms]
  have ints: "concat (map int_reg (locals s)) @ operand_regs s @ [X16, X17, MEM_BASE_REG, X29, X30, SP] =
      map (\<lambda>k. Reg (of_nat k)) ([19..<19 + int_locals tys] @ [0..<16] @ [19 + int_locals tys..<28] @ [16, 17, 28, 29, 30, 31])"
    using lay by (simp add: operand_regs_eq reg_range_def MEM_BASE_REG_def)
  have vecs: "concat (map fp_reg (locals s)) @ vector_slots =
      map (\<lambda>k. Vreg (of_nat k)) ([16..<16 + fp_locals tys] @ [0..<16] @ [30, 31])"
    using lay by (simp add: vector_slots_def vreg_range_def layout_defs)
  show ?thesis unfolding ints vecs by (intro conjI distinct_regs distinct_vregs) (use lay(2,4) in auto)
qed

theorem register_bands_disjoint_witness:
  "case new_function_with_memory_typed [I32, F64] [] 0x10000 of
     Err _ \<Rightarrow> False
   | Ok s \<Rightarrow> distinct (concat (map int_reg (locals s)) @ operand_regs s @ [X16, X17, MEM_BASE_REG, X29, X30, SP])"
proof (cases "new_function_with_memory_typed [I32, F64] [] 0x10000")
  case (Inl e)
  moreover have "is_ok (new_function_with_memory_typed [I32, F64] [] 0x10000)" by code_simp
  ultimately show ?thesis by (simp add: is_ok_def)
next
  case (Inr s)
  with register_bands_disjoint[OF Inr] show ?thesis by simp
qed

section \<open>Callee-saved registers\<close>

text \<open>The instruction at a position of the buffer.\<close>

definition insn_at :: "Lowerer \<Rightarrow> nat \<Rightarrow> u32" where
  "insn_at s at = word_at (buf (enc s)) at"


end
