(* ===== verification/LowerLink.thy ===== *)
theory LowerLink
  imports LowerInv ModuleLower
begin

text \<open>
  The call sites of a compiled module.  \<open>steady N m\<close> says that the step \<open>m\<close> never shrinks the code
  buffer and keeps the recorded call sites in order and in the buffer, whatever the operand types are;
  every operation of the lowering is steady.  The linker then rewrites each site to a branch to its
  target and leaves all other bytes alone.
\<close>

section \<open>Steps that keep the call sites in order\<close>

definition steady :: "nat \<Rightarrow> 'a lowering \<Rightarrow> bool" where
  "steady N m \<longleftrightarrow>
     (\<forall>s x s'. m s = Ok (x, s') \<longrightarrow> length (module_fn_sigs s) = N \<longrightarrow>
        length (module_fn_sigs s') = N \<and> length (buf (enc s)) \<le> length (buf (enc s')) \<and>
        (relocs_ok (length (buf (enc s))) N (pending_relocations s) \<longrightarrow>
         relocs_ok (length (buf (enc s'))) N (pending_relocations s')))"

lemma steady_ret: "steady N (lret x)" "steady N (lfail e)" "steady N lpanic" "steady N (lget f)"
  by (simp_all add: steady_def lret_def lfail_def lpanic_def lget_def)

lemma steady_bind: "steady N m \<Longrightarrow> (\<And>x. steady N (f x)) \<Longrightarrow> steady N (lbind m f)"
  by (fastforce simp: steady_def lbind_def split: sum.splits)

lemma steady_when: "steady N m \<Longrightarrow> steady N (lwhen b m)"
  by (simp add: lwhen_def steady_ret)

lemma steady_seq: "(\<And>m. m \<in> set ms \<Longrightarrow> steady N m) \<Longrightarrow> steady N (lseq ms)"
  by (induction ms) (auto intro: steady_ret steady_bind)

lemma steady_mod:
  assumes "\<And>s. module_fn_sigs (f s) = module_fn_sigs s \<and> length (buf (enc s)) \<le> length (buf (enc (f s))) \<and>
    pending_relocations (f s) = pending_relocations s"
  shows "steady N (lmod f)"
  using assms by (auto simp: steady_def lmod_def intro: relocs_ok_mono)

lemma steady_ins: "appends em \<Longrightarrow> steady N (ins em)"
  by (fastforce simp: steady_def ins_def appends_def emit_def intro: relocs_ok_mono split: sum.splits)

lemma steady_patch_at: "steady N (patch_at at w)"
  by (auto simp: steady_def patch_at_def patch_word_def split: option.splits if_splits)

lemma steady_here: "steady N here"
  by (simp add: here_def steady_ret)

lemmas steady_basic = steady_ret steady_bind steady_when steady_seq steady_ins steady_patch_at steady_here

lemma steady_flush: "steady N flush_pending_spill" "steady N flush_pending_fp_spill"
  unfolding flush_pending_spill_def flush_pending_fp_spill_def
  by (auto intro!: steady_basic steady_mod split: option.split)

lemma steady_int: "steady N (push_int t)" "steady N (pop_int t)"
  unfolding push_int_def pop_int_def grow_int_def Let_def
  by (auto intro!: steady_basic steady_mod steady_flush split: option.split list.split)

lemma steady_fp: "steady N (push_fp t)" "steady N (pop_fp t)"
  unfolding push_fp_def pop_fp_def grow_fp_def Let_def
  by (auto intro!: steady_basic steady_mod steady_flush split: option.split list.split)

lemma steady_slots:
  "steady N push_i32_slot" "steady N push_i64_slot" "steady N push_f32_slot" "steady N push_f64_slot" "steady N push_v128_slot"
  "steady N pop_i32_slot" "steady N pop_i64_slot" "steady N pop_f32_slot" "steady N pop_f64_slot" "steady N pop_v128_slot"
  by (simp_all add: push_i32_slot_def push_i64_slot_def push_f32_slot_def push_f64_slot_def push_v128_slot_def pop_i32_slot_def
      pop_i64_slot_def pop_f32_slot_def pop_f64_slot_def pop_v128_slot_def steady_int steady_fp)

lemma steady_misc:
  "steady N (set_top_sym sy)" "steady N (peek_sym_at k)" "steady N peek_top_sym" "steady N top_type" "steady N (taint_local idx)"
  "steady N (load_u32_into_reg r v)" "steady N (load_u64_into_reg r w)" "steady N emit_epilogue" "steady N (emit_trap_kind knd)"
  "steady N (local_loc idx)" "steady N (expect_top t)" "steady N int_top_reg" "steady N fp_top_reg" "steady N (or_out_of_range e)"
  unfolding set_top_sym_def peek_sym_at_def peek_top_sym_def top_type_def taint_local_def load_u32_into_reg_def load_u64_into_reg_def
    emit_epilogue_def emit_trap_kind_def local_loc_def expect_top_def int_top_reg_def fp_top_reg_def or_out_of_range_def
  by (auto intro!: steady_basic steady_mod simp del: lseq.simps split: list.split sum.split)

lemma steady_shapes:
  "steady N pop \<Longrightarrow> steady N push \<Longrightarrow> (\<And>d v. appends (em d v)) \<Longrightarrow> steady N (unary pop push em)"
  "steady N pop \<Longrightarrow> steady N push \<Longrightarrow> (\<And>d v w. steady N (body d v w)) \<Longrightarrow> steady N (binary pop push body)"
  "steady N pop \<Longrightarrow> steady N push \<Longrightarrow> (\<And>d v w x. steady N (body3 d v w x)) \<Longrightarrow> steady N (ternary pop push body3)"
  unfolding unary_def binary_def ternary_def by (auto intro!: steady_basic)

lemma steady_bounds_check: "steady N (emit_bounds_check r sz off str)" "steady N (maybe_bounds_check r sz off str sy)"
proof -
  show check: "steady N (emit_bounds_check r sz off str)"
    unfolding emit_bounds_check_def Let_def by (auto intro!: steady_basic steady_misc split: option.split sum.split)
  show "steady N (maybe_bounds_check r sz off str sy)"
    unfolding maybe_bounds_check_def by (auto intro!: steady_basic steady_mod check)
qed

lemma steady_access:
  "steady N (full_addr_in_x16 r off)" "steady N m \<Longrightarrow> steady N (with_memory m)"
  "steady N push \<Longrightarrow> (\<And>d r k. appends (em d r k)) \<Longrightarrow> steady N (load_with sz push em off)"
  "steady N peek \<Longrightarrow> steady N pop \<Longrightarrow> (\<And>d r k. appends (em d r k)) \<Longrightarrow> steady N (store_with sz peek pop em off)"
proof -
  show addr: "steady N (full_addr_in_x16 r off)" for r off unfolding full_addr_in_x16_def by (auto intro!: steady_basic steady_misc)
  show mem: "steady N m \<Longrightarrow> steady N (with_memory m)" for m unfolding with_memory_def by (auto intro!: steady_basic)
  show "steady N push \<Longrightarrow> (\<And>d r k. appends (em d r k)) \<Longrightarrow> steady N (load_with sz push em off)"
    unfolding load_with_def by (auto intro!: mem steady_basic steady_misc steady_slots steady_bounds_check addr)
  show "steady N peek \<Longrightarrow> steady N pop \<Longrightarrow> (\<And>d r k. appends (em d r k)) \<Longrightarrow> steady N (store_with sz peek pop em off)"
    unfolding store_with_def by (auto intro!: mem steady_basic steady_misc steady_slots steady_bounds_check addr)
qed

lemmas steady_rules = steady_basic steady_slots steady_misc steady_shapes steady_access steady_bounds_check appends_emit_tables

lemma steady_binop: "steady N (lower_binop op)"
  unfolding lower_binop_def by (cases op) (auto intro!: steady_rules simp del: lseq.simps)

lemma steady_i32: "steady N (lower_i32 i)"
  by (cases i) (auto simp: lower_eqz_def intro!: steady_binop steady_rules simp del: lseq.simps)

lemma steady_i64: "steady N (lower_i64 i)"
  by (cases i) (auto simp: lower_i64_binop_def lower_i64_eqz_def lower_i64_cmp_def intro!: steady_rules simp del: lseq.simps)

lemma steady_float: "steady N (lower_float i)"
  by (cases i) (auto simp: lower_f32_binop_def lower_f32_cmp_def lower_f64_binop_def lower_f64_cmp_def intro!: steady_rules simp del: lseq.simps)

lemmas conv_defs = lower_wrap_i64_def lower_extend_i32_def lower_i32_extend_narrow_def lower_i64_extend_narrow_def lower_trunc_f32_i32_def
  lower_trunc_f64_i32_def lower_trunc_f32_i64_def lower_trunc_f64_i64_def lower_convert_i32_f32_def lower_convert_i64_f32_def
  lower_convert_i32_f64_def lower_convert_i64_f64_def lower_f32_demote_f64_def lower_f64_promote_f32_def lower_i32_reinterpret_f32_def
  lower_i64_reinterpret_f64_def lower_f32_reinterpret_i32_def lower_f64_reinterpret_i64_def

lemma steady_conv: "steady N (lower_conv i)"
  by (cases i) (auto simp: conv_defs intro!: steady_rules simp del: lseq.simps)

lemma steady_simd: "steady N (lower_simd i)"
  by (cases i)
    (auto simp: simd_defs lower_v128_binop_def lower_f32x4_unary_def dot_body_def intro!: steady_rules simp del: lseq.simps)

lemma steady_consts:
  "steady N (lower_const k)" "steady N (lower_i64_const k')" "steady N (lower_f32_const w)" "steady N (lower_f64_const w')"
  "steady N (lower_v128_const bits)"
  unfolding lower_const_def lower_i64_const_def lower_f32_const_def lower_f64_const_def lower_v128_const_def Let_def
  by (auto simp: nop_insn_def emit_raw_word_def emit_def intro!: steady_rules steady_mod simp del: lseq.simps)

lemma steady_memory:
  "steady N (lower_load off)" "steady N (lower_store off)" "steady N (lower_f32_load off)" "steady N (lower_f32_store off)"
  "steady N (lower_f64_load off)" "steady N (lower_f64_store off)" "steady N (lower_i64_load off)" "steady N (lower_i64_store off)"
  "steady N (lower_v128_load off)" "steady N (lower_v128_store off)"
  unfolding lower_load_def lower_store_def lower_f32_load_def lower_f32_store_def lower_f64_load_def lower_f64_store_def
    lower_i64_load_def lower_i64_store_def lower_v128_load_def lower_v128_store_def
  by (auto intro!: steady_rules simp del: lseq.simps)

lemma steady_parametric:
  "steady N lower_drop" "steady N lower_select" "steady N (lower_local_get idx)" "steady N (lower_local_set idx)" "steady N (lower_local_tee idx)"
  unfolding lower_drop_def lower_select_def select_int_def lower_local_get_def lower_local_set_def lower_local_tee_def
  by (auto intro!: steady_rules simp del: lseq.simps split: ValType.split LocalLoc.split)

lemma steady_globals: "steady N (lower_global_get idx)" "steady N (lower_global_set idx)"
  unfolding lower_global_get_def lower_global_set_def global_entry_def materialize_global_addr_def global_store_def
  by (auto intro!: steady_rules simp del: lseq.simps split: ValType.split)

section \<open>Control flow and calls\<close>

lemma steady_label: "steady N (push_label knd start)" "steady N (add_pending idx p)" "steady N (label_index d)" "steady N (rt_from_cbz_at at)"
  unfolding push_label_def add_pending_def label_index_def rt_from_cbz_at_def by (auto intro!: steady_rules steady_mod)

lemma steady_branch_to: "(\<And>off. appends (em off)) \<Longrightarrow> steady N (branch_to idx em patch)"
  unfolding branch_to_def by (auto intro!: steady_rules steady_label simp del: lseq.simps split: LabelKind.split option.split)

lemma steady_patches: "steady N (patch_pending target p)" "steady N (patch_cbz target at)"
proof -
  show "steady N (patch_pending target p)" by (cases p) (auto intro!: steady_rules)
  show "steady N (patch_cbz target at)" unfolding patch_cbz_def by (auto intro!: steady_rules steady_label)
qed

lemma steady_control:
  "steady N lower_block" "steady N lower_loop" "steady N (lower_br d)" "steady N (lower_br_if d)" "steady N lower_if" "steady N lower_else"
  "steady N lower_block_end" "steady N lower_function_end" "steady N lower_explicit_return"
  unfolding lower_block_def lower_loop_def lower_br_def lower_br_if_def lower_if_def lower_else_def lower_block_end_def
    lower_function_end_def lower_explicit_return_def truncate_stack_to_def
  by (auto intro!: steady_rules steady_label steady_branch_to steady_patches steady_flush steady_mod
      simp del: lseq.simps patch_pending.simps simp: case_prod_beta Let_def split: list.split LabelKind.split ValType.split option.split)

lemma steady_pop_args: "steady N (pop_args ps)"
  by (induction ps) (auto intro!: steady_rules split: ValType.split)

lemma steady_call_parts: "steady N (marshal_args srcs)" "steady N (rehydrate_result e r)" "steady N (check_args e e' sig)"
  unfolding marshal_args_def rehydrate_result_def check_args_def
  by (auto intro!: steady_rules simp del: lseq.simps split: option.split ValType.split)

lemma steady_call_site:
  assumes "unat idx < N" "steady N m"
  shows "steady N (lbind here (\<lambda>site. lseq [ins (bl_insn 4),
     lmod (\<lambda>s. s\<lparr> pending_relocations := pending_relocations s @ [(of_nat site, idx)] \<rparr>), m]))"
proof -
  let ?site = "lbind here (\<lambda>site. lbind (ins (bl_insn 4)) (\<lambda>_.
     lmod (\<lambda>s. s\<lparr> pending_relocations := pending_relocations s @ [(of_nat site, idx)] \<rparr>)))"
  have "steady N ?site"
    using relocs_ok_snoc[OF _ assms(1)]
    by (fastforce simp: steady_def lbind_def here_def lget_def ins_def lmod_def enc_pos_def appends_def emit_def bl_insn_def emit_encoded_def
        split: sum.splits)
  moreover have "lbind here (\<lambda>site. lseq [ins (bl_insn 4),
     lmod (\<lambda>s. s\<lparr> pending_relocations := pending_relocations s @ [(of_nat site, idx)] \<rparr>), m]) = lbind ?site (\<lambda>_. lseq [m])"
    by (simp add: lbind_def here_def lget_def fun_eq_iff split: sum.split)
  ultimately show ?thesis using assms(2) by (auto intro!: steady_bind steady_seq simp del: lseq.simps)
qed

lemma steady_get_sigs:
  assumes "\<And>sigs. length sigs = N \<Longrightarrow> steady N (f sigs)"
  shows "steady N (lbind (lget module_fn_sigs) f)"
  using assms by (fastforce simp: steady_def lbind_def lget_def)

lemma steady_call: "steady N (lower_call_internal idx)" "steady N (lower_call idx)" "steady N (lower_call_indirect t)"
proof -
  show internal: "steady N (lower_call_internal idx)"
    unfolding lower_call_internal_def Let_def
    by (rule steady_get_sigs) (auto intro!: steady_ret steady_bind steady_pop_args steady_call_parts steady_call_site simp del: lseq.simps)
  show "steady N (lower_call idx)"
    unfolding lower_call_def Let_def by (auto intro!: steady_rules internal steady_pop_args steady_call_parts simp del: lseq.simps)
  show "steady N (lower_call_indirect t)"
    unfolding lower_call_indirect_def Let_def
    by (auto intro!: steady_rules steady_pop_args steady_call_parts simp del: lseq.simps split: option.split)
qed

lemma steady_op: "steady N (lower_op op)"
  by (cases op) (auto intro!: steady_i32 steady_i64 steady_float steady_conv steady_simd steady_consts steady_memory steady_parametric
      steady_globals steady_control steady_call steady_bind steady_ret)

lemma steady_lower_all: "steady N (lower_all ops)"
proof -
  have marks: "steady N (enter_loop b)" "steady N leave_loop" for b
    unfolding enter_loop_def leave_loop_def by (auto intro!: steady_mod)
  have "steady N (lower_from b e j ops)" for b e j
    by (induction ops arbitrary: j) (auto intro!: steady_ret steady_bind steady_when marks steady_op)
  then show ?thesis by (simp add: lower_all_def)
qed

section \<open>Functions\<close>

lemma steady_setup: "steady N (emit_global_inits inits)" "steady N (emit_param_rehydration tys)"
proof -
  have "steady N (emit_global_init i init)" for i init
    unfolding emit_global_init_def Let_def by (auto intro!: steady_rules simp del: lseq.simps)
  then show "steady N (emit_global_inits inits)"
    unfolding emit_global_inits_def by (auto intro!: steady_rules simp del: lseq.simps)
  have "steady N (rehydrate tys locs i f)" for locs i f
    by (induction tys locs i f rule: rehydrate.induct) (auto intro!: steady_rules simp del: lseq.simps)
  then show "steady N (emit_param_rehydration tys)"
    unfolding emit_param_rehydration_def by (auto intro!: steady_rules)
qed

lemma steady_new: "steady N (emit_prologue n sz)" "steady N (place_locals tys)" "steady N (set_frame n sz targets memory)"
proof -
  show "steady N (emit_prologue n sz)" unfolding emit_prologue_def by (auto intro!: steady_rules simp del: lseq.simps)
  have "steady N (allocate_locals tys i f)" for i f
    by (induction tys arbitrary: i f) (auto simp: alloc_int_def alloc_fp_def Let_def intro!: steady_rules split: ValType.split)
  then show "steady N (place_locals tys)" unfolding place_locals_def by (auto intro!: steady_rules steady_mod)
  show "steady N (set_frame n sz targets memory)" unfolding set_frame_def by (auto intro!: steady_mod)
qed

lemma relocs_ok_none: "relocs_ok len 0 rs \<Longrightarrow> rs = []"
  by (cases rs) (auto simp: relocs_ok_def)

lemma steadyD:
  assumes "steady N m" "m s = Ok (x, s')" "length (module_fn_sigs s) = N" "relocs_ok (length (buf (enc s))) N (pending_relocations s)"
  shows "length (module_fn_sigs s') = N \<and> relocs_ok (length (buf (enc s'))) N (pending_relocations s')"
  using assms unfolding steady_def by blast

lemma new_function_no_relocs:
  assumes "new_function_with_memory_typed tys targets base = Ok s"
  shows "module_fn_sigs s = []" "pending_relocations s = []"
proof -
  let ?m = "lseq [emit_prologue (int_locals tys) (of_nat (unat x28_save_off + 16)), ins (str_imm MEM_BASE_REG SP x28_save_off),
    load_u64_into_reg MEM_BASE_REG base, place_locals tys, set_frame (int_locals tys) (of_nat (unat x28_save_off + 16)) targets True]"
  obtain u where "?m blank = Ok (u, s)"
    using assms by (auto simp: new_function_with_memory_typed_def built_def Let_def map_sum_Ok simp del: lseq.simps)
  moreover have "steady 0 ?m" by (auto intro!: steady_seq steady_new steady_ins steady_misc simp del: lseq.simps)
  moreover have "length (module_fn_sigs blank) = 0" "relocs_ok (length (buf (enc blank))) 0 (pending_relocations blank)"
    by (simp_all add: blank_def relocs_ok_def)
  ultimately show "module_fn_sigs s = []" "pending_relocations s = []"
    using steadyD[of 0 ?m blank u s] relocs_ok_none by auto
qed

lemma configure_relocs:
  assumes "configure msize g_types g_mutable sigs s = Ok (u, s')" "pending_relocations s = []"
  shows "length (module_fn_sigs s') = length sigs" "pending_relocations s' = []"
  using assms
  by (auto simp: configure_def lbind_def lmod_def lret_def set_globals_def lfail_def set_mem_size_def set_module_fn_sigs_def
      split: if_splits)

lemma lowered_relocs:
  assumes "lower_one_function body sig sigs g_types g_mutable g_inits entry base msize = Ok f"
  shows "relocs_ok (length (fn_bytes f)) (length sigs) (fn_relocations f)"
proof -
  let ?rest = "lseq [lwhen (entry \<and> g_inits \<noteq> []) (emit_global_inits g_inits),
    lwhen (params sig \<noteq> []) (emit_param_rehydration (params sig)), lower_all (body_ops body)]"
  obtain declared s w s2 where new: "new_function_with_memory_typed (params sig @ declared) [] base = Ok s"
    and run: "lseq [configure msize g_types g_mutable sigs, lwhen (entry \<and> g_inits \<noteq> []) (emit_global_inits g_inits),
      lwhen (params sig \<noteq> []) (emit_param_rehydration (params sig)), lower_all (body_ops body)] s = Ok (w, s2)"
    and f: "f = \<lparr> fn_bytes = finish (s2\<lparr> pending_relocations := [] \<rparr>), fn_relocations = pending_relocations s2 \<rparr>"
    using assms by (auto simp: lower_one_function_def take_relocations_def simp del: lseq.simps split: sum.splits)
  from run have "lbind (configure msize g_types g_mutable sigs) (\<lambda>_. ?rest) s = Ok (w, s2)" by simp
  then obtain s1 u where conf: "configure msize g_types g_mutable sigs s = Ok (u, s1)" and rest: "?rest s1 = Ok (w, s2)"
    by (auto simp: lbind_def simp del: lseq.simps split: sum.splits)
  have "steady (length sigs) ?rest" by (auto intro!: steady_seq steady_when steady_setup steady_lower_all simp del: lseq.simps)
  from steadyD[OF this rest] configure_relocs[OF conf new_function_no_relocs(2)[OF new]]
  have "relocs_ok (length (buf (enc s2))) (length sigs) (pending_relocations s2)" by (simp add: relocs_ok_def)
  moreover have "length (finish (s2\<lparr> pending_relocations := [] \<rparr>)) = length (buf (enc s2))"
    using passed_optimize[of "data_regions s2" "buf (enc s2)"] by (simp add: finish_def passed_def)
  ultimately show ?thesis by (simp add: f)
qed

section \<open>Concatenation\<close>

definition total :: "(nat \<times> LoweredFunction) list \<Rightarrow> nat" where
  "total fs = sum_list (map (\<lambda>(i, f). length (fn_bytes f)) fs)"

lemma total_simps [simp]: "total [] = 0" "total ((i, f) # fs) = length (fn_bytes f) + total fs"
  by (simp_all add: total_def)

text \<open>Absolute positions of the call sites, and the start of each function.\<close>

fun sites :: "nat \<Rightarrow> (nat \<times> LoweredFunction) list \<Rightarrow> (nat \<times> u32) list" where
  "sites p [] = []"
| "sites p ((i, f) # fs) = map (\<lambda>(site, t). (p + unat site, t)) (fn_relocations f) @ sites (p + length (fn_bytes f)) fs"

fun starts :: "nat \<Rightarrow> (nat \<times> LoweredFunction) list \<Rightarrow> (nat \<times> nat) list" where
  "starts p [] = []"
| "starts p ((i, f) # fs) = (i, p) # starts (p + length (fn_bytes f)) fs"

definition well_formed :: "nat \<Rightarrow> (nat \<times> LoweredFunction) list \<Rightarrow> bool" where
  "well_formed n fs \<longleftrightarrow>
     distinct (map fst fs) \<and> (\<forall>(i, f) \<in> set fs. i < n \<and> relocs_ok (length (fn_bytes f)) n (fn_relocations f))"

definition put_starts :: "(nat \<times> nat) list \<Rightarrow> u32 list \<Rightarrow> u32 list" where
  "put_starts ps offs = fold (\<lambda>(i, p) offs. offs[i := of_nat p]) ps offs"

lemma stitch_parts:
  assumes "length blob + total fs < 2 ^ 32"
    and "\<forall>(i, f) \<in> set fs. relocs_ok (length (fn_bytes f)) n (fn_relocations f)"
  shows "stitch fs offs blob rel =
    (put_starts (starts (length blob) fs) offs, blob @ concat (map (\<lambda>(i, f). fn_bytes f) fs),
     rel @ map (\<lambda>(p, t). (of_nat p, t)) (sites (length blob) fs))"
  using assms
proof (induction fs arbitrary: offs blob rel)
  case (Cons x fs)
  obtain i f where x: "x = (i, f)" by (cases x)
  have "(of_nat (length blob) :: u32) + site = of_nat (length blob + unat site)" for site by simp
  then have "map (\<lambda>(site, t). (of_nat (length blob) + site, t)) (fn_relocations f) =
      map (\<lambda>(p, t). (of_nat p, t)) (map (\<lambda>(site, t). (length blob + unat site, t)) (fn_relocations f))"
    by (auto simp: case_prod_beta)
  with Cons show ?case by (simp add: x Let_def add.assoc put_starts_def)
qed (simp add: put_starts_def)

lemma stitch_blob: "fst (snd (stitch fs offs blob rel)) = blob @ concat (map (\<lambda>(i, f). fn_bytes f) fs)"
  by (induction fs offs blob rel rule: stitch.induct) (auto simp: Let_def)

lemma sites_bounds:
  assumes "\<forall>(i, f) \<in> set fs. relocs_ok (length (fn_bytes f)) n (fn_relocations f)" "total fs < 2 ^ 32"
  shows "sorted_wrt (\<lambda>a b. fst a + 4 \<le> fst b) (sites p fs) \<and> (\<forall>(q, t) \<in> set (sites p fs). p \<le> q \<and> q + 4 \<le> p + total fs)"
  using assms
proof (induction fs arbitrary: p)
  case (Cons x fs)
  obtain i f where x: "x = (i, f)" by (cases x)
  let ?here = "map (\<lambda>(site, t). (p + unat site, t)) (fn_relocations f)"
  have r: "sorted_wrt (\<lambda>a b. unat (fst a) + 4 \<le> unat (fst b)) (fn_relocations f)"
    "\<forall>(site, t) \<in> set (fn_relocations f). unat site + 4 \<le> length (fn_bytes f)"
    using Cons.prems by (auto simp: x relocs_ok_def)
  have here: "sorted_wrt (\<lambda>a b. fst a + 4 \<le> fst b) ?here" "\<forall>(q, t) \<in> set ?here. p \<le> q \<and> q + 4 \<le> p + length (fn_bytes f)"
    using r by (auto simp: sorted_wrt_map case_prod_beta)
  have rest: "sorted_wrt (\<lambda>a b. fst a + 4 \<le> fst b) (sites (p + length (fn_bytes f)) fs)"
    "\<forall>(q, t) \<in> set (sites (p + length (fn_bytes f)) fs). p + length (fn_bytes f) \<le> q \<and> q + 4 \<le> p + length (fn_bytes f) + total fs"
    using Cons by (auto simp: x)
  from here rest show ?case by (fastforce simp: x sorted_wrt_append)
qed simp

lemma length_put_starts [simp]: "length (put_starts ps offs) = length offs"
  unfolding put_starts_def by (induction ps arbitrary: offs) auto

lemma put_starts_other: "j \<notin> fst ` set ps \<Longrightarrow> put_starts ps offs ! j = offs ! j"
  unfolding put_starts_def by (induction ps arbitrary: offs) auto

lemma put_starts_at:
  assumes "distinct (map fst ps)" "(j, q) \<in> set ps" "j < length offs"
  shows "put_starts ps offs ! j = of_nat q"
  using assms
proof (induction ps arbitrary: offs)
  case (Cons x ps)
  obtain i p where x: "x = (i, p)" by (cases x)
  have step: "put_starts (x # ps) offs = put_starts ps (offs[i := of_nat p])" by (simp add: put_starts_def x)
  show ?case
  proof (cases "(j, q) = x")
    case True
    with Cons.prems have "j \<notin> fst ` set ps" by (auto simp: x)
    with True Cons.prems show ?thesis unfolding step by (simp add: put_starts_other x)
  next
    case False
    with Cons show ?thesis unfolding step by (auto simp: x)
  qed
qed simp

lemma fst_starts [simp]: "map fst (starts p fs) = map fst fs"
  by (induction p fs rule: starts.induct) auto

section \<open>Patched call sites\<close>

text \<open>Where the branch-and-link instruction at a position goes.\<close>

definition is_bl :: "u32 \<Rightarrow> bool" where
  "is_bl w \<longleftrightarrow> w AND 0xFC000000 = 0x94000000"

definition bl_target :: "u8 list \<Rightarrow> nat \<Rightarrow> int" where
  "bl_target code at = int at + 4 * sint (ucast (word_at code at) :: 26 word)"

lemma sint_low26:
  assumes "- (2 ^ 25) \<le> i" "i < 2 ^ 25" "take_bit 26 b = 0"
  shows "sint (ucast (b OR (word_of_int i AND 0x03FFFFFF) :: u32) :: 26 word) = i"
proof -
  have b: "\<not> bit b m" if "m < 26" for m
    using that assms(3) by (metis bit_take_bit_iff bit_0_eq bot_apply bot_bool_def)
  have m: "(0x03FFFFFF :: u32) = mask 26" by (simp add: mask_eq_exp_minus_1)
  have "(ucast (b OR (word_of_int i AND 0x03FFFFFF) :: u32) :: 26 word) = word_of_int i"
    by (rule bit_eqI) (auto simp: m bit_ucast_iff bit_or_iff bit_and_iff bit_mask_iff bit_word_of_int_iff b)
  then show ?thesis using assms(1,2) by (simp add: signed_of_int signed_take_bit_int_eq_self)
qed

lemma bl_word:
  fixes i :: int
  assumes "- (2 ^ 25) \<le> i" "i < 2 ^ 25"
  defines "w \<equiv> 0x94000000 OR (word_of_int i AND 0x03FFFFFF) :: u32"
  shows "is_bl w" "sint (ucast w :: 26 word) = i"
proof -
  show "sint (ucast w :: 26 word) = i" unfolding w_def by (rule sint_low26[OF assms(1,2)]) simp
  have "w AND 0xFC000000 = (0x94000000 AND 0xFC000000) OR (word_of_int i AND (0x03FFFFFF AND 0xFC000000))"
    unfolding w_def by (simp only: and.assoc bit.conj_disj_distrib2)
  also have "\<dots> = 0x94000000" by simp
  finally show "is_bl w" by (simp add: is_bl_def)
qed

definition outside :: "(u32 \<times> u32) list \<Rightarrow> nat \<Rightarrow> bool" where
  "outside rs k \<longleftrightarrow> (\<forall>(site, t) \<in> set rs. k < unat site \<or> unat site + 4 \<le> k)"

lemma patch_relocation_Ok:
  assumes "patch_relocation offsets (site, t) blob = Ok blob'"
  shows "length blob' = length blob" "unat t < length offsets" "unat site + 4 \<le> length blob"
    "is_bl (word_at blob' (unat site))" "bl_target blob' (unat site) = uint (offsets ! unat t)"
    "\<And>k. k < length blob \<Longrightarrow> k < unat site \<or> unat site + 4 \<le> k \<Longrightarrow> blob' ! k = blob ! k"
proof -
  let ?delta = "uint (offsets ! unat t) - uint site"
  have t: "unat t < length offsets" and fit: "unat site + 4 \<le> length blob" and delta: "?delta mod 4 = 0"
    and range: "- (2 ^ 25) \<le> ?delta div 4" "?delta div 4 < 2 ^ 25"
    and blob': "blob' = put_word blob (unat site) (0x94000000 OR (word_of_int (?delta div 4) AND 0x03FFFFFF))"
    using assms by (auto simp: patch_relocation_def Let_def split: if_splits)
  show "length blob' = length blob" "unat t < length offsets" "unat site + 4 \<le> length blob"
    using t fit by (simp_all add: blob')
  show "is_bl (word_at blob' (unat site))" unfolding blob' word_at_put_word[OF fit] by (rule bl_word[OF range])
  have "4 * (?delta div 4) = ?delta" using delta mult_div_mod_eq[of 4 ?delta] by linarith
  then show "bl_target blob' (unat site) = uint (offsets ! unat t)"
    unfolding bl_target_def blob' word_at_put_word[OF fit] bl_word(2)[OF range] by simp
  show "blob' ! k = blob ! k" if "k < length blob" "k < unat site \<or> unat site + 4 \<le> k" for k
    unfolding blob' using that fit by (intro put_word_nth)
qed

lemma patch_all_length: "patch_all offsets rs blob = Ok blob' \<Longrightarrow> length blob' = length blob"
  by (induction offsets rs blob rule: patch_all.induct) (auto dest: patch_relocation_Ok(1) split: sum.splits)

lemma patch_all_Ok:
  assumes "patch_all offsets rs blob = Ok blob'" "sorted_wrt (\<lambda>a b. unat (fst a) + 4 \<le> unat (fst b)) rs"
  shows "length blob' = length blob \<and>
    (\<forall>(site, t) \<in> set rs. unat site + 4 \<le> length blob \<and> is_bl (word_at blob' (unat site)) \<and> bl_target blob' (unat site) = uint (offsets ! unat t)) \<and>
    (\<forall>k < length blob. outside rs k \<longrightarrow> blob' ! k = blob ! k)"
  using assms
proof (induction rs arbitrary: blob)
  case (Cons r rs)
  obtain site t where r: "r = (site, t)" by (cases r)
  obtain mid where mid: "patch_relocation offsets (site, t) blob = Ok mid" and rest: "patch_all offsets rs mid = Ok blob'"
    using Cons.prems(1) by (auto simp: r split: sum.splits)
  note one = patch_relocation_Ok[OF mid]
  have IH: "length blob' = length mid"
    "\<forall>(site, t) \<in> set rs. unat site + 4 \<le> length mid \<and> is_bl (word_at blob' (unat site)) \<and> bl_target blob' (unat site) = uint (offsets ! unat t)"
    "\<forall>k < length mid. outside rs k \<longrightarrow> blob' ! k = mid ! k"
    using Cons.IH[OF rest] Cons.prems(2) by auto
  have "outside rs k" if "k < unat site + 4" for k
    using that Cons.prems(2) by (fastforce simp: outside_def r)
  then have "take 4 (drop (unat site) blob') = take 4 (drop (unat site) mid)"
    using IH one(1,3) by (subst take_drop_eq_iff_nth) auto
  then have "word_at blob' (unat site) = word_at mid (unat site)" by (simp add: word_at_def)
  with one IH show ?case by (auto simp: r outside_def bl_target_def)
qed simp

lemma starts_code:
  assumes "(i, f) \<in> set fs" "distinct (map fst fs)"
  shows "\<exists>q. (i, q) \<in> set (starts (length pre) fs) \<and> q + length (fn_bytes f) \<le> length pre + total fs \<and>
    (\<forall>k < length (fn_bytes f). (pre @ concat (map (\<lambda>(i, f). fn_bytes f) fs)) ! (q + k) = fn_bytes f ! k) \<and>
    (\<forall>(site, t) \<in> set (fn_relocations f). (q + unat site, t) \<in> set (sites (length pre) fs))"
  using assms
proof (induction fs arbitrary: pre)
  case (Cons x fs)
  obtain j g where x: "x = (j, g)" by (cases x)
  show ?case
  proof (cases "(i, f) = x")
    case True
    then show ?thesis by (intro exI[of _ "length pre"]) (auto simp: x nth_append intro: rev_image_eqI)
  next
    case False
    with Cons.IH[of "pre @ fn_bytes g"] Cons.prems obtain q where
      "(i, q) \<in> set (starts (length pre + length (fn_bytes g)) fs)" "q + length (fn_bytes f) \<le> length pre + length (fn_bytes g) + total fs"
      "\<forall>k < length (fn_bytes f). ((pre @ fn_bytes g) @ concat (map (\<lambda>(i, f). fn_bytes f) fs)) ! (q + k) = fn_bytes f ! k"
      "\<forall>(site, t) \<in> set (fn_relocations f). (q + unat site, t) \<in> set (sites (length pre + length (fn_bytes g)) fs)"
      by auto
    then show ?thesis by (intro exI[of _ q]) (auto simp: x)
  qed
qed simp

lemma sites_origin:
  "(q, t) \<in> set (sites p fs) \<Longrightarrow>
   \<exists>j g site r. (j, g) \<in> set fs \<and> (site, t) \<in> set (fn_relocations g) \<and> (j, r) \<in> set (starts p fs) \<and> q = r + unat site"
  by (induction p fs rule: sites.induct) fastforce+

lemma starts_bound: "(j, q) \<in> set (starts p fs) \<Longrightarrow> j \<in> fst ` set fs \<and> q \<le> p + total fs"
  by (induction p fs rule: starts.induct) auto

lemma length_code_total: "length (concat (map (\<lambda>(i, f). fn_bytes f) fs)) = total fs"
  by (induction fs) auto

text \<open>The linked code: every function at its offset, and every call site a branch to the offset of its target.\<close>

lemma link_parts:
  assumes link: "link n fs = Ok lay" and wf: "well_formed n fs" and small: "length (layout_code lay) < 2 ^ 32"
  shows "length (layout_code lay) = total fs" "function_offsets lay = put_starts (starts 0 fs) (replicate n 0)"
    "patch_all (put_starts (starts 0 fs) (replicate n 0)) (map (\<lambda>(p, t). (of_nat p :: u32, t)) (sites 0 fs))
       (concat (map (\<lambda>(i, f). fn_bytes f) fs)) = Ok (layout_code lay)"
    "\<And>q. q \<le> total fs \<Longrightarrow> unat (of_nat q :: u32) = q"
    "\<And>j q. (j, q) \<in> set (starts 0 fs) \<Longrightarrow> unat (function_offsets lay ! j) = q"
proof -
  let ?code = "concat (map (\<lambda>(i, f). fn_bytes f) fs)"
  let ?offs = "put_starts (starts 0 fs) (replicate n 0)"
  let ?rel = "map (\<lambda>(p, t). (of_nat p :: u32, t)) (sites 0 fs)"
  have rel_ok: "\<forall>(i, f) \<in> set fs. relocs_ok (length (fn_bytes f)) n (fn_relocations f)" and dist: "distinct (map fst fs)"
    and idx: "\<And>j g. (j, g) \<in> set fs \<Longrightarrow> j < n" using wf by (auto simp: well_formed_def)
  obtain offsets blob relocs where st: "stitch fs (replicate n 0) [] [] = (offsets, blob, relocs)"
    and pa: "patch_all offsets relocs blob = Ok (layout_code lay)" and offs: "function_offsets lay = offsets"
    using link by (auto simp: link_def map_sum_Ok split: prod.splits)
  show len: "length (layout_code lay) = total fs"
    using patch_all_length[OF pa] stitch_blob[of fs "replicate n 0" "[]" "[]"] st by (simp add: length_code_total)
  then have parts: "offsets = ?offs" "blob = ?code" "relocs = ?rel"
    using stitch_parts[of "[]" fs n "replicate n 0" "[]"] rel_ok small st by auto
  show "function_offsets lay = ?offs" "patch_all ?offs ?rel ?code = Ok (layout_code lay)" using offs pa parts by simp_all
  show unat_site: "unat (of_nat q :: u32) = q" if "q \<le> total fs" for q
    using that small len by (simp add: unat_of_nat take_bit_nat_eq_self)
  show "unat (function_offsets lay ! j) = q" if q: "(j, q) \<in> set (starts 0 fs)" for j q
  proof -
    have "j < length (replicate n (0 :: u32))" using starts_bound[OF q] idx by auto
    from put_starts_at[OF _ q this] starts_bound[OF q] unat_site[of q] dist show ?thesis by (simp add: offs parts)
  qed
qed

lemma link_Ok:
  assumes link: "link n fs = Ok lay" and wf: "well_formed n fs" and small: "length (layout_code lay) < 2 ^ 32"
    and f: "(i, f) \<in> set fs"
  defines "off \<equiv> \<lambda>j. unat (function_offsets lay ! j)"
  shows "off i + length (fn_bytes f) \<le> length (layout_code lay)"
    "\<And>k. k < length (fn_bytes f) \<Longrightarrow> (\<And>g j site t. (j, g) \<in> set fs \<Longrightarrow> (site, t) \<in> set (fn_relocations g) \<Longrightarrow>
        off i + k < off j + unat site \<or> off j + unat site + 4 \<le> off i + k) \<Longrightarrow> layout_code lay ! (off i + k) = fn_bytes f ! k"
    "\<And>site t. (site, t) \<in> set (fn_relocations f) \<Longrightarrow>
        is_bl (word_at (layout_code lay) (off i + unat site)) \<and>
        bl_target (layout_code lay) (off i + unat site) = int (off (unat t))"
proof -
  let ?code = "concat (map (\<lambda>(i, f). fn_bytes f) fs)"
  let ?offs = "put_starts (starts 0 fs) (replicate n 0)"
  let ?rel = "map (\<lambda>(p, t). (of_nat p :: u32, t)) (sites 0 fs)"
  have rel_ok: "\<forall>(i, f) \<in> set fs. relocs_ok (length (fn_bytes f)) n (fn_relocations f)" and dist: "distinct (map fst fs)"
    and idx: "\<And>j g. (j, g) \<in> set fs \<Longrightarrow> j < n" using wf by (auto simp: well_formed_def)
  note parts = link_parts[OF link wf small]
  note len = parts(1) and offs = parts(2) and pa = parts(3) and unat_site = parts(4)
  have sites: "sorted_wrt (\<lambda>a b. fst a + 4 \<le> fst b) (sites 0 fs)" "\<And>q t. (q, t) \<in> set (sites 0 fs) \<Longrightarrow> q + 4 \<le> total fs"
    using sites_bounds[OF rel_ok, of 0] small len by auto
  have "sorted_wrt (\<lambda>a b. unat (fst a) + 4 \<le> unat (fst b)) ?rel" unfolding sorted_wrt_map
  proof (rule sorted_wrt_mono_rel[OF _ sites(1)])
    fix a b assume ab: "a \<in> set (sites 0 fs)" "b \<in> set (sites 0 fs)" "fst a + 4 \<le> fst b"
    then have "fst a \<le> total fs" "fst b \<le> total fs" using sites(2)[of "fst a" "snd a"] sites(2)[of "fst b" "snd b"] by simp_all
    then show "unat (fst (case a of (p, t) \<Rightarrow> (of_nat p :: u32, t))) + 4 \<le> unat (fst (case b of (p, t) \<Rightarrow> (of_nat p :: u32, t)))"
      using ab(3) unat_site by (simp add: case_prod_beta)
  qed
  note patched = patch_all_Ok[OF pa this]
  have linked: "is_bl (word_at (layout_code lay) q) \<and> bl_target (layout_code lay) q = uint (?offs ! unat t)"
    if "(q, t) \<in> set (sites 0 fs)" for q t
  proof -
    have "(of_nat q, t) \<in> set ?rel" using imageI[OF that, of "\<lambda>(p, t). (of_nat p, t)"] by simp
    with patched have "is_bl (word_at (layout_code lay) (unat (of_nat q :: u32)))"
      "bl_target (layout_code lay) (unat (of_nat q :: u32)) = uint (?offs ! unat t)" by blast+
    then show ?thesis using unat_site[of q] sites(2)[OF that] by simp
  qed
  have rest: "layout_code lay ! k = ?code ! k" if "k < total fs" "outside ?rel k" for k
    using that patched by (simp add: length_code_total)
  have off_start: "off j = q" if "(j, q) \<in> set (starts 0 fs)" for j q using parts(5)[OF that] by (simp add: off_def)
  have start: "off j + length (fn_bytes g) \<le> total fs" "\<And>k. k < length (fn_bytes g) \<Longrightarrow> ?code ! (off j + k) = fn_bytes g ! k"
    "\<And>site t. (site, t) \<in> set (fn_relocations g) \<Longrightarrow> (off j + unat site, t) \<in> set (sites 0 fs)" if g: "(j, g) \<in> set fs" for j g
    using starts_code[OF g dist, of "[]"] off_start by auto
  show "off i + length (fn_bytes f) \<le> length (layout_code lay)" using start(1)[OF f] len by simp
  show "is_bl (word_at (layout_code lay) (off i + unat site)) \<and> bl_target (layout_code lay) (off i + unat site) = int (off (unat t))"
    if "(site, t) \<in> set (fn_relocations f)" for site t
    using linked[OF start(3)[OF f that]] by (simp add: off_def offs)
  show "layout_code lay ! (off i + k) = fn_bytes f ! k" if k: "k < length (fn_bytes f)"
    and out: "\<And>g j site t. (j, g) \<in> set fs \<Longrightarrow> (site, t) \<in> set (fn_relocations g) \<Longrightarrow>
        off i + k < off j + unat site \<or> off j + unat site + 4 \<le> off i + k" for k
  proof -
    have "off i + k < unat site \<or> unat site + 4 \<le> off i + k" if "(site, t) \<in> set ?rel" for site t
    proof -
      from that obtain q where q: "(q, t) \<in> set (sites 0 fs)" "site = of_nat q" by auto
      with sites_origin[of q t 0 fs] off_start obtain j g site' where
        "(j, g) \<in> set fs" "(site', t) \<in> set (fn_relocations g)" "q = off j + unat site'" by metis
      with out[of j g site' t] show ?thesis using unat_site[of q] sites(2)[OF q(1)] q(2) by simp
    qed
    then have "outside ?rel (off i + k)" by (auto simp: outside_def simp del: set_map)
    then show ?thesis using rest[of "off i + k"] start(1,2)[OF f] k by simp
  qed
qed

section \<open>Whole modules\<close>

lemma collect_Ok: "collect rs = Ok xs \<Longrightarrow> rs = map Ok xs"
  by (induction rs arbitrary: xs) (auto simp: map_sum_Ok split: sum.splits)

lemma layout_order_ok: "e < n \<Longrightarrow> distinct (layout_order n e)" "e < n \<Longrightarrow> set (layout_order n e) = {0..<n}"
  by (auto simp: layout_order_def)

text \<open>The first pass returns every function of the module once, with call sites the linker can patch.\<close>

lemma lower_module_functions:
  assumes "lower_module m base msize e = Ok fns"
  shows "map fst fns = layout_order (length (bodies m)) (unat e)" "well_formed (length (bodies m)) fns"
proof -
  let ?n = "length (bodies m)"
  obtain sigs g_types fs where e: "unat e < ?n" and sigs: "collect (map (build_sig m) [0..<?n]) = Ok sigs"
    and low: "lower_functions m base msize (unat e) sigs g_types (layout_order ?n (unat e)) = Ok fs"
    and fns: "fns = zip (layout_order ?n (unat e)) fs"
    using assms by (auto simp: lower_module_def Let_def map_sum_Ok split: if_splits sum.splits)
  have n: "length sigs = ?n" using arg_cong[OF collect_Ok[OF sigs], of length] by simp
  note fs = collect_Ok[OF low[unfolded lower_functions_def]]
  have len: "length fs = length (layout_order ?n (unat e))" using arg_cong[OF fs, of length] by simp
  show "map fst fns = layout_order ?n (unat e)" using len by (simp add: fns)
  moreover have "relocs_ok (length (fn_bytes f)) ?n (fn_relocations f)" if "(i, f) \<in> set fns" for i f
  proof -
    from that have "f \<in> set fs" by (auto simp: fns dest: set_zip_rightD)
    then have "(Ok f :: LoweredFunction compiled) \<in> set (map Ok fs)" by simp
    then obtain orig where "Ok f = lower_one_function (bodies m ! orig) (sigs ! orig) sigs g_types (map mutable (globals m))
        (map init_bytes (globals m)) (orig = unat e) base msize"
      unfolding fs[symmetric] set_map by blast
    from lowered_relocs[OF this[symmetric]] show ?thesis by (simp add: n)
  qed
  moreover have "i < ?n" if "(i, f) \<in> set fns" for i f
    using that layout_order_ok(2)[OF e] by (auto simp: fns dest: set_zip_leftD)
  ultimately show "well_formed ?n fns" using layout_order_ok(1)[OF e] by (auto simp: well_formed_def)
qed

end
