(* ===== verification/JitProps.thy ===== *)
theory JitProps
  imports LowerSafe LowerLink
begin

text \<open>
  What the just-in-time compiler promises, stated over the encoder, the peephole pass, the lowerer and
  the linker.
\<close>

section \<open>Branch offsets\<close>

lemma aligned4: "offset AND 0x3 = 0 \<longleftrightarrow> 4 dvd sint offset" for offset :: i32
proof -
  have m: "(0x3 :: i32) = mask 2" by (simp add: mask_eq_exp_minus_1)
  have "offset AND 0x3 = 0 \<longleftrightarrow> uint (take_bit 2 offset) = 0" by (simp only: m take_bit_eq_mask uint_0_iff)
  also have "\<dots> \<longleftrightarrow> take_bit 2 (sint offset) = 0" unfolding unsigned_take_bit_eq by (subst uint_sint) simp
  also have "\<dots> \<longleftrightarrow> 4 dvd sint offset" by (simp add: take_bit_eq_mod dvd_eq_mod_eq_0)
  finally show ?thesis .
qed

lemma sint_quarter: "sint (signed_drop_bit 2 offset) = sint offset div 4" for offset :: i32
  by (simp add: sint_signed_drop_bit_eq drop_bit_eq_div)

text \<open>The displacement that the processor reads from a 26-bit and from a 19-bit branch.\<close>

definition displacement26 :: "u32 \<Rightarrow> int" where
  "displacement26 w = 4 * sint (ucast w :: 26 word)"

definition displacement19 :: "u32 \<Rightarrow> int" where
  "displacement19 w = 4 * sint (ucast (drop_bit 5 w) :: 19 word)"

lemma imm19_field:
  fixes b low :: u32 and i :: int
  assumes "take_bit 19 (drop_bit 5 b) = 0" "drop_bit 5 low = 0" "- (2 ^ 18) \<le> i" "i < 2 ^ 18"
  shows "sint (ucast (drop_bit 5 (b OR push_bit 5 (word_of_int i AND 0x7FFFF) OR low)) :: 19 word) = i"
proof -
  have m: "(0x7FFFF :: u32) = mask 19" by (simp add: mask_eq_exp_minus_1)
  have bits: "\<not> bit b (5 + k)" "\<not> bit low (5 + k)" if "k < 19" for k
    using arg_cong[OF assms(1), of "\<lambda>w. bit w k"] arg_cong[OF assms(2), of "\<lambda>w. bit w k"] that by (simp_all add: bit_simps)
  have "(ucast (drop_bit 5 (b OR push_bit 5 (word_of_int i AND 0x7FFFF) OR low)) :: 19 word) = word_of_int i"
    using bits by (intro bit_word_eqI) (auto simp: m bit_simps)
  then show ?thesis using assms(3,4) by (simp add: signed_of_int signed_take_bit_int_eq_self)
qed

text \<open>What a branch encoder answers: the word with the displacement, or the reason why there is none.\<close>

definition encodes :: "nat \<Rightarrow> (u32 \<Rightarrow> int) \<Rightarrow> i32 \<Rightarrow> (EncodeError, u32) result \<Rightarrow> bool" where
  "encodes bits displ offset r =
     (case r of
        Ok w \<Rightarrow> displ w = sint offset \<and> - (2 ^ (bits + 1)) \<le> sint offset \<and> sint offset < 2 ^ (bits + 1)
      | Err OffsetMisaligned \<Rightarrow> \<not> 4 dvd sint offset
      | Err ImmediateOutOfRange \<Rightarrow> 4 dvd sint offset \<and> \<not> (- (2 ^ (bits + 1)) \<le> sint offset \<and> sint offset < 2 ^ (bits + 1)))"

lemma encodes_branch26:
  assumes "take_bit 26 b = 0"
  shows "encodes 26 displacement26 offset (branch26 b offset)"
proof -
  let ?i = "sint offset div 4"
  have q: "signed_drop_bit 2 offset = word_of_int ?i" by (simp flip: sint_quarter)
  show ?thesis
  proof (cases "4 dvd sint offset \<and> - (2 ^ 25) \<le> ?i \<and> ?i < 2 ^ 25")
    case True
    then have "displacement26 (b OR (signed_drop_bit 2 offset AND 0x03FFFFFF)) = sint offset"
      unfolding q displacement26_def by (subst sint_low26[OF _ _ assms]) auto
    moreover have "branch26 b offset = Ok (b OR (signed_drop_bit 2 offset AND 0x03FFFFFF))"
      using True by (simp add: branch26_def Let_def aligned4 sint_quarter)
    ultimately show ?thesis using True by (auto simp: encodes_def)
  next
    case False
    then show ?thesis by (auto simp: encodes_def branch26_def Let_def aligned4 sint_quarter)
  qed
qed

lemma encodes_branch19:
  assumes "take_bit 19 (drop_bit 5 b) = 0" "drop_bit 5 low = 0"
  shows "encodes 19 displacement19 offset (branch19 b offset low)"
proof -
  let ?i = "sint offset div 4"
  have q: "signed_drop_bit 2 offset = word_of_int ?i" by (simp flip: sint_quarter)
  show ?thesis
  proof (cases "4 dvd sint offset \<and> - (2 ^ 18) \<le> ?i \<and> ?i < 2 ^ 18")
    case True
    then have "displacement19 (b OR push_bit 5 (signed_drop_bit 2 offset AND 0x7FFFF) OR low) = sint offset"
      unfolding q displacement19_def by (subst imm19_field[OF assms]) auto
    moreover have "branch19 b offset low = Ok (b OR push_bit 5 (signed_drop_bit 2 offset AND 0x7FFFF) OR low)"
      using True by (simp add: branch19_def Let_def aligned4 sint_quarter)
    ultimately show ?thesis using True by (auto simp: encodes_def)
  next
    case False
    then show ?thesis by (auto simp: encodes_def branch19_def Let_def aligned4 sint_quarter)
  qed
qed

lemma renc_low: "drop_bit 5 (renc r) = 0"
  by (rule bit_word_eqI) (auto simp: renc_def bit_simps)

text \<open>C36: the branch encoders are exact: an offset is encoded if and only if it is a multiple of four in
  the range of the instruction (128 MiB either way for \<open>b\<close>, one MiB for the conditional branches), the
  displacement the processor reads from the word is that offset, and every other offset is refused
  with the error that names the reason.\<close>

theorem branch_encoding_exact:
  "encodes 26 displacement26 offset (encode_b offset) \<and>
   encodes 19 displacement19 offset (encode_cbz_w rt offset) \<and>
   encodes 19 displacement19 offset (encode_cbnz_w rt offset) \<and>
   encodes 19 displacement19 offset (encode_b_cond cond offset)"
proof -
  have "drop_bit 5 (cond_code cond) = 0" by (cases cond) simp_all
  then show ?thesis
    unfolding encode_b_def encode_cbz_w_def encode_cbnz_w_def encode_b_cond_def
    by (auto intro!: encodes_branch26 encodes_branch19 renc_low)
qed

section \<open>Linked code\<close>

lemma starts_ge: "(j, q) \<in> set (starts p fs) \<Longrightarrow> p \<le> q"
  by (induction p fs rule: starts.induct) auto

lemma starts_disjoint:
  assumes "(i, f) \<in> set fs" "(j, g) \<in> set fs" "i \<noteq> j" "distinct (map fst fs)" "(i, q) \<in> set (starts p fs)" "(j, r) \<in> set (starts p fs)"
  shows "q + length (fn_bytes f) \<le> r \<or> r + length (fn_bytes g) \<le> q"
  using assms
proof (induction p fs rule: starts.induct)
  case (2 p k h fs)
  then show ?case by (auto dest: starts_ge starts_bound) (metis fst_conv image_eqI starts_bound)+
qed simp

lemma functions_disjoint:
  assumes link: "link n fs = Ok lay" "well_formed n fs" "length (layout_code lay) < 2 ^ 32"
    and f: "(i, f) \<in> set fs" "(j, g) \<in> set fs" "i \<noteq> j"
  shows "unat (function_offsets lay ! i) + length (fn_bytes f) \<le> unat (function_offsets lay ! j) \<or>
    unat (function_offsets lay ! j) + length (fn_bytes g) \<le> unat (function_offsets lay ! i)"
proof -
  have dist: "distinct (map fst fs)" using link(2) by (simp add: well_formed_def)
  obtain q r where "(i, q) \<in> set (starts 0 fs)" "(j, r) \<in> set (starts 0 fs)"
    using starts_code[OF f(1) dist, of "[]"] starts_code[OF f(2) dist, of "[]"] by auto
  with starts_disjoint[OF f dist] link_parts(5)[OF link] show ?thesis by simp
qed

lemma relocs_inside:
  assumes "well_formed n fs" "(j, g) \<in> set fs" "(site, t) \<in> set (fn_relocations g)" "length (fn_bytes g) < 2 ^ 32"
  shows "unat site + 4 \<le> length (fn_bytes g)"
  using assms by (fastforce simp: well_formed_def relocs_ok_def)

lemma same_function:
  "distinct (map fst fs) \<Longrightarrow> (i, f) \<in> set fs \<Longrightarrow> (i, g) \<in> set fs \<Longrightarrow> f = g"
  by (induction fs) (auto simp: rev_image_eqI)

text \<open>C8: a compiled module is linked correctly: the entry function stands at offset zero; every function
  stands at its offset, inside the code, with its own bytes except for its call sites; and every call
  site it recorded is a branch-and-link instruction whose target is the first instruction of the
  function that is called.\<close>

theorem calls_linked:
  assumes lower: "lower_module m base msize e = Ok fns" and compile: "compile_module m base msize e = Ok lay"
    and small: "length (layout_code lay) < 2 ^ 32" and f: "(i, f) \<in> set fns"
  shows "let off = (\<lambda>j. unat (function_offsets lay ! j)); code = layout_code lay in
    off (unat e) = 0 \<and> off i + length (fn_bytes f) \<le> length code \<and>
    (\<forall>k < length (fn_bytes f). (\<forall>(site, t) \<in> set (fn_relocations f). k < unat site \<or> unat site + 4 \<le> k) \<longrightarrow> code ! (off i + k) = fn_bytes f ! k) \<and>
    (\<forall>(site, t) \<in> set (fn_relocations f). is_bl (word_at code (off i + unat site)) \<and>
       bl_target code (off i + unat site) = int (off (unat t)))"
proof -
  note fns = lower_module_functions[OF lower]
  have link: "link (length (bodies m)) fns = Ok lay" using compile lower by (simp add: compile_module_def)
  note ok = link_Ok[OF link fns(2) small f]
  have dist: "distinct (map fst fns)" using fns(2) by (simp add: well_formed_def)
  have "function_offsets lay ! unat e = 0"
  proof -
    from fns(1) obtain f0 rest where "fns = (unat e, f0) # rest" by (cases fns) (auto simp: layout_order_def)
    then have "(unat e, 0) \<in> set (starts 0 fns)" by simp
    from link_parts(5)[OF link fns(2) small this] show ?thesis by (simp add: unat_eq_0)
  qed
  moreover have bytes: "layout_code lay ! (unat (function_offsets lay ! i) + k) = fn_bytes f ! k"
    if k: "k < length (fn_bytes f)" and out: "\<And>site t. (site, t) \<in> set (fn_relocations f) \<Longrightarrow> k < unat site \<or> unat site + 4 \<le> k" for k
  proof (rule ok(2)[OF k])
    fix g j site t assume g: "(j, g) \<in> set fns" and t: "(site, t) \<in> set (fn_relocations g)"
    show "unat (function_offsets lay ! i) + k < unat (function_offsets lay ! j) + unat site \<or>
        unat (function_offsets lay ! j) + unat site + 4 \<le> unat (function_offsets lay ! i) + k"
    proof (cases "i = j")
      case True
      with same_function[OF dist f] g out t show ?thesis by fastforce
    next
      case False
      have "length (fn_bytes g) < 2 ^ 32" using link_Ok(1)[OF link fns(2) small g] small by linarith
      from relocs_inside[OF fns(2) g t this] functions_disjoint[OF link fns(2) small f g False] k show ?thesis by linarith
    qed
  qed
  then have "\<forall>k < length (fn_bytes f). (\<forall>(site, t) \<in> set (fn_relocations f). k < unat site \<or> unat site + 4 \<le> k) \<longrightarrow>
      layout_code lay ! (unat (function_offsets lay ! i) + k) = fn_bytes f ! k" by blast
  ultimately show ?thesis unfolding Let_def using ok(1,3) by auto
qed

definition two_functions :: Module where
  "two_functions =
     \<lparr> mod_types = [\<lparr> fs_params = [], fs_results = [0x7F] \<rparr>], func_types = [0, 0], globals = [], exports = [], mod_data = [],
       bodies = [\<lparr> num_locals = 0, local_types = [], body_ops = [Call 1, End] \<rparr>,
                 \<lparr> num_locals = 0, local_types = [], body_ops = [I32Const 42, End] \<rparr>] \<rparr>"

theorem calls_linked_witness:
  "case (lower_module two_functions 0x10000 65536 0, compile_module two_functions 0x10000 65536 0) of
     (Ok fns, Ok lay) \<Rightarrow>
       (let (i, f) = hd fns; site = unat (fst (hd (fn_relocations f)))
        in is_bl (word_at (layout_code lay) site) \<and> bl_target (layout_code lay) site = int (unat (function_offsets lay ! 1)))
   | _ \<Rightarrow> False"
proof -
  let ?fns = "lower_module two_functions 0x10000 65536 0" and ?lay = "compile_module two_functions 0x10000 65536 0"
  have ok: "case ?fns of
      Err _ \<Rightarrow> False
    | Ok fns \<Rightarrow> map fst fns = [0, 1] \<and> map (\<lambda>(i, f). map snd (fn_relocations f)) fns = [[1], []] \<and>
        (case link 2 fns of Err _ \<Rightarrow> False | Ok lay \<Rightarrow> length (layout_code lay) < 1000)"
    by code_simp
  have n: "length (bodies two_functions) = 2" by (simp add: two_functions_def)
  obtain fns lay where fns: "?fns = Ok fns" and link: "link 2 fns = Ok lay" and small: "length (layout_code lay) < 1000"
    using ok by (auto split: sum.splits)
  then have lay: "?lay = Ok lay" by (simp add: compile_module_def n)
  obtain f rest where f: "fns = (0, f) # rest" and t: "map snd (fn_relocations f) = [1]" using ok unfolding fns by (cases fns) auto
  then obtain site where site: "fn_relocations f = [(site, 1)]" by (auto simp: Cons_eq_map_conv)
  have "length (layout_code lay) < 2 ^ 32" using small by simp
  from calls_linked[OF fns lay this, of 0 f] f site show ?thesis by (auto simp: fns lay Let_def)
qed

section \<open>Validated code\<close>


definition add_body :: FunctionBody where
  "add_body = \<lparr> num_locals = 0, local_types = [], body_ops = [LocalGet 0, LocalGet 1, I32I I32Add, End] \<rparr>"

definition add_sig :: FnSig where
  "add_sig = \<lparr> params = [I32, I32], sig_result = Some I32 \<rparr>"




end
