(* ===== verification/Spec2Isabelle.thy ===== *)
theory Spec2Isabelle
  imports CapTypes OrdMap Interfaces IpcMessage PhysBoot Bridge Task Capability Scheduler IpcProps Firewall MmapProps ParseProps PeepProps MemProps FrameProps JitProps
begin

text \<open>
  Folkering OS is a microkernel in Rust with a WebAssembly just-in-time compiler.  This development
  models the parts that decide on authority, memory, scheduling, messages, packets and generated code,
  and proves what they promise.  All paths are below src/.

  \<^bold>\<open>How the parts interact.\<close>  A task enters the kernel through a system call or a timer interrupt.  Message
  passing checks the sender's capabilities, may transfer one, queues the message and blocks or wakes
  tasks; the scheduler picks the next task, using hints that userspace writes to a shared page; task
  exit wakes whoever waits on the task and gives its capabilities and shared memory back.  Shared and
  anonymous memory take frames from the physical memory manager and enter them into page tables.  The
  packet filter stands in front of the network stack.  The compiler is a separate pipeline: bytes to
  module, function body, validated operations, A64 words, linked image.

  \<^bold>\<open>Conventions.\<close>  Structs are records, enums are datatypes, machine integers are words that wrap around
  (the release profiles enable no overflow checks), a raised error is the left side of a result, a panic
  is the value \<open>None\<close> or a constructor of its own.  A lock is the atomicity of the definition that holds
  it; where the code releases it in the middle, the definition is split there.  Statics of the kernel are
  the fields of the record \<open>Kernel\<close>, which every handler takes and returns.  Serial output is left out.

  \<^bold>\<open>Theories of the kernel.\<close>
  \<^item> \<open>Prelude\<close>: integers, results, alignment.  \<open>Interfaces\<close>: the locales for a bounded queue, an encoding
    and a block allocator, with the lemmas on their clients.  \<open>OrdMap\<close>: the standard library's ordered map.
  \<^item> \<open>CapTypes\<close>, \<open>Capability\<close> (kernel/src/capability/types.rs, mod.rs): the capability types and the grant
    relation, the table of entries, \<open>grant\<close>, \<open>transfer\<close>, \<open>revoke\<close> and the checks.  Shown: the relation is a
    preorder and exact on ranges, revoked identifiers stay dead, transfers confine authority and never move
    hardware capabilities, the pages of a DMA region come back.
  \<^item> \<open>IpcMessage\<close> (ipc/message.rs, ipc/queue.rs): messages, caller tokens, the queue of a task.  Shown: the queue
    is a bounded first-in first-out queue, tokens round-trip exactly within their fields.
  \<^item> \<open>Buddy\<close>, \<open>PhysMem\<close>, \<open>PhysBoot\<close> (memory/physical.rs): the free lists inside the free pages, the bump allocator,
    the boot scan of the memory map and the entry points.  Shown: blocks handed out are aligned and disjoint from
    boot on, allocation and release change the set of free memory exactly.
  \<^item> \<open>Bridge\<close> (bridge/types.rs, reader.rs), \<open>Task\<close> (task/task.rs, task/statistics.rs, timer/mod.rs), \<open>Scheduler\<close>
    (task/scheduler.rs, preempt.rs, preempt_lock.rs, switch.rs, the timer interrupt of main.rs).  Shown: the task
    selected is the runnable one of highest effective priority, an interrupt saves and restores the registers of
    the right tasks.
  \<^item> \<open>Ipc\<close>, \<open>IpcInv\<close>, \<open>IpcProps\<close> (ipc/send.rs, ipc/receive.rs, handlers/ipc.rs, the exit path of handlers/task.rs).
    Shown over any sequence of system calls, interrupts, spawns and exits: queued messages carry their true sender,
    no authority appears, no task waits on a task that is gone; a reply resumes its caller; an exit releases its
    waiters.
  \<^item> \<open>Shmem\<close>, \<open>ShmemLoops\<close>, \<open>ShmemInv\<close>, \<open>ShmemProps\<close> (ipc/shared_memory.rs, the mapping functions of
    memory/paging.rs, the shared-memory calls of handlers/memory.rs) and \<open>MemCalls\<close>, \<open>MmapProps\<close> (the rest of
    handlers/memory.rs).  The x86_64 crate that edits page tables is the parameter \<open>Mapper\<close> with the laws
    \<open>mapper_laws\<close>, \<open>translate_law\<close> and \<open>unmap_law\<close>, shown to be satisfiable by \<open>flat_mapper\<close>; \<open>leaf\<close> gives the
    ordinary last-level entries, so pages with another memory type are not entries in this sense.  Shown: no entry
    of a live task points into free memory after any sequence of the modelled operations other than
    \<open>munmap\<close>, a mapping that races with a destruction is undone, anonymous memory is private and zeroed, a
    protection change keeps the frames; and that \<open>munmap\<close> of a shared page breaks the first of these.
  \<^item> \<open>Firewall\<close> (net/firewall.rs): the rules, the tracker of connection attempts, the ring of dropped packets.
    Shown: the filter decides exactly by its policy, three attempts within two minutes block a source, and a block
    holds against whatever other frames arrive.  Whether a lock is held by another context is part of the state.

  \<^bold>\<open>Theories of the compiler\<close> (tools/a64-encoder/src).
  \<^item> \<open>A64\<close> (lib.rs): one definition per instruction emitter.  \<open>Wasm\<close>, \<open>WasmParse\<close>, \<open>WasmModule\<close>, \<open>WasmValidate\<close>
    (wasm_parse.rs, wasm_module.rs, wasm_validate.rs): the front end.  \<open>Peephole\<close> (peephole.rs).
  \<^item> \<open>Lowerer\<close>, \<open>LowerOps\<close>, \<open>LowerCtl\<close>, \<open>ModuleLower\<close> (wasm_lower/): the state of the lowering, one definition
    per operation, control flow and calls, and the linker.
  \<^item> \<open>LowerInv\<close>, \<open>LowerSafe\<close>, \<open>LowerLink\<close>: a type discipline on lowering steps, its proof for every operation, and the
    fate of call sites.  \<open>ParseProps\<close>, \<open>PeepProps\<close>, \<open>MemProps\<close>, \<open>FrameProps\<close>, \<open>JitProps\<close>: the properties.  Shown: a
    validated body is lowered without a panic or a type error, calls are linked to their targets, branches and
    bounds checks are exact, LEB128 round-trips, the parser ends, the peephole pass equals its reference, local and
    operand registers are disjoint; and three faults of the generated code.

  \<^bold>\<open>Loops and bounds.\<close>  Loops are recursions over the data they walk, or functions with a termination measure (the
  index loop of \<open>pop_fit_from\<close>, the parser's position); no model needs fuel that could run out.  Sequences of
  operations are inductive step relations and their closure, without a bound on the length.

  \<^bold>\<open>Not modelled.\<close>
  \<^item> The meaning of A64 instructions: it is not in the source, so theorems on generated code are on the words.
  \<^item> Assembly and hardware: context switch instructions, interrupt entry, descriptor tables, APIC, SMP start,
    ACPI, TLB and CR3; device drivers; address-space construction and the ELF loader, which walk page tables
    through the crate.  The kernel heap is a crate.  Of ipc/shared_memory.rs, \<open>map_page\<close> and \<open>unmap_page\<close>, which
    nothing calls.
  \<^item> Networking other than the filter: calls into smoltcp and embedded-tls.
  \<^item> The file systems (fs/) and their system calls, the SQLite reader and the Synapse file service: they are plain
    code that could be modelled in the same way and are left out of this development.
  \<^item> Userspace programs (compositor, shell, agents, user interface): graphics, network replies and host functions;
    inference and intent matching: floating point.  Host tools, scripts and demo applications.
\<close>

end
